theory Spec2Isabelle
  imports Main "HOL-Library.Sublist"
begin

section \<open>The VM deployment orchestrator of internal/services/vm.go\<close>

text \<open>
  The orchestrator (\<^verbatim>\<open>VMService\<close>) drives three collaborators: the Azure service
  (create, get and delete a virtual machine), the Istio service (mesh files, workload and
  service entries, connection check) and the clock. Every collaborator call is a function
  of an abstract world \<open>'w\<close> that returns its result together with the next world, so the
  result of a call may depend on everything that happened before it. The orchestrator's
  own log lines and collaborator calls are collected, in program order, in a history.
\<close>

subsection \<open>Errors, durations and contexts\<close>

text \<open>A Go \<^verbatim>\<open>error\<close> is its message.\<close>

datatype error = Err string

fun errmsg :: "error \<Rightarrow> string" where
  "errmsg (Err s) = s"

text \<open>\<^verbatim>\<open>fmt.Errorf(prefix + "%w", err)\<close>\<close>

definition wrap :: "string \<Rightarrow> error \<Rightarrow> error" where
  "wrap p e = Err (p @ errmsg e)"

text \<open>
  A \<^verbatim>\<open>time.Duration\<close> is a signed 64-bit count of nanoseconds; a conversion or a
  product that leaves the range wraps around.
\<close>

type_synonym duration = int

definition int64 :: "int \<Rightarrow> int" where
  "int64 x = (x + 2 ^ 63) mod 2 ^ 64 - 2 ^ 63"

definition Second :: duration where
  "Second = 1000000000"

definition Minute :: duration where
  "Minute = 60 * Second"

text \<open>
  Of a \<^verbatim>\<open>context.Context\<close> the model keeps the deadline (an instant in nanoseconds,
  \<open>None\<close> when the context has none). \<^verbatim>\<open>context.WithTimeout(parent, d)\<close> reads the
  clock and keeps the earlier of the parent's deadline and \<open>now + d\<close>.
\<close>

type_synonym ctx = "int option"

definition WithTimeout :: "ctx \<Rightarrow> int \<Rightarrow> duration \<Rightarrow> ctx" where
  "WithTimeout parent t d =
     (case parent of None \<Rightarrow> Some (t + d) | Some p \<Rightarrow> Some (min p (t + d)))"

subsection \<open>Requests, tasks and the deployment status\<close>

record VMImageRequest =
  Publisher :: string
  Offer :: string
  SKU :: string
  Version :: string

record NetworkingRequest =
  VNetName :: string
  SubnetName :: string
  SecurityGroupName :: string
  PublicIPEnabled :: "bool option"

record VMRequest =
  Name :: string
  Size :: string
  Image :: "VMImageRequest option"
  Networking :: "NetworkingRequest option"
  CloudInitData :: string
  Tags :: "(string \<times> string) list"
  AdminUsername :: string
  SSHPublicKey :: string

record VMInfo =
  Name :: string
  ResourceGroup :: string
  Status :: string
  Size :: string
  PrivateIP :: string
  PublicIP :: string
  Tags :: "(string \<times> string) list"
  CreatedTime :: int

record VMMeshFiles =
  ClusterEnv :: string
  MeshYAML :: string
  RootCertPEM :: string
  IstioToken :: string
  Hosts :: string

record ServicePort =
  Number :: nat
  PortName :: string
  Protocol :: string

record MeshIntegration =
  Enabled :: bool
  Namespace :: string
  Labels :: "(string \<times> string) list"
  ServicePorts :: "ServicePort list"
  CreateWorkloadEntry :: bool
  CreateServiceEntry :: bool

record PostBootTask =
  Name :: string
  Type :: string
  Command :: string
  ExpectedResult :: string
  TimeoutSeconds :: int
  RetryCount :: int
  Parameters :: "string \<rightharpoonup> string"

text \<open>
  \<^verbatim>\<open>VMDeploymentRequest\<close> embeds \<^verbatim>\<open>VMRequest\<close>; the embedded struct is the field
  \<open>Base\<close>, so that the source's \<^verbatim>\<open>request.Name\<close> is \<open>VMRequest.Name (Base request)\<close>.
\<close>

record VMDeploymentRequest =
  Base :: VMRequest
  ServiceName :: string
  MeshIntegration :: "MeshIntegration option"
  PostBootTasks :: "PostBootTask list"
  AutoCleanup :: bool
  TimeoutMinutes :: int

record VMDeploymentStatus =
  VM :: "VMInfo option"
  Status :: string
  CurrentTask :: string
  CompletedTasks :: "string list"
  Error :: string
  MeshFiles :: "VMMeshFiles option"
  CreatedResources :: "string list"
  Timestamp :: int

text \<open>The first-boot configuration assembled by \<^verbatim>\<open>generateCloudInitData\<close>.\<close>

record WriteFile =
  path :: string
  content :: string
  permissions :: string

record CloudInit =
  package_update :: bool
  package_upgrade :: bool
  packages :: "string list"
  runcmd :: "string list"
  write_files :: "WriteFile list"

subsection \<open>History of a run\<close>

datatype level = InfoLevel | WarnLevel | ErrorLevel

datatype logarg = Str string | Dur duration | ErrArg "error option"

text \<open>The calls the orchestrator makes on its collaborators, with their arguments.\<close>

datatype call =
    CreateVM_call VMRequest
  | GetVM_call string
  | DeleteVM_call string
  | GenerateVMFiles_call string string string
  | CreateWorkloadEntryForVM_call string string string "(string \<times> string) list"
  | CreateServiceEntryForVM_call string string string string
  | CleanupVMResources_call string string
  | ValidateVMConnection_call string
  | Sleep_call duration

text \<open>
  An entry of the history: a log line (level, format string, arguments), a collaborator
  call that has returned (with the error it returned, if any), or an append to one of the
  two lists of the status: \<open>Recorded r\<close> for \<^verbatim>\<open>CreatedResources\<close>, \<open>Completed t\<close> for
  \<^verbatim>\<open>CompletedTasks\<close>.
\<close>

datatype effect =
    Log level string "logarg list"
  | Call call "error option"
  | Recorded string
  | Completed string

record 'w machine =
  world :: 'w
  history :: "effect list"

record 'w deployment = "'w machine" +
  status :: VMDeploymentStatus

definition emit :: "effect \<Rightarrow> ('w, 'z) machine_scheme \<Rightarrow> ('w, 'z) machine_scheme" where
  "emit e m = m\<lparr>history := history m @ [e]\<rparr>"

definition logf ::
  "level \<Rightarrow> string \<Rightarrow> logarg list \<Rightarrow> ('w, 'z) machine_scheme \<Rightarrow> ('w, 'z) machine_scheme" where
  "logf lvl fmt args m = emit (Log lvl fmt args) m"

text \<open>
  \<open>invoke c f errOf m\<close> runs the collaborator call \<open>f\<close> on the world of \<open>m\<close>, stores the
  world it leaves behind and appends the returned call to the history.
\<close>

definition invoke ::
  "call \<Rightarrow> ('w \<Rightarrow> 'r \<times> 'w) \<Rightarrow> ('r \<Rightarrow> error option) \<Rightarrow> ('w, 'z) machine_scheme
     \<Rightarrow> 'r \<times> ('w, 'z) machine_scheme" where
  "invoke c f errOf m =
     (case f (world m) of (r, w') \<Rightarrow> (r, emit (Call c (errOf r)) (m\<lparr>world := w'\<rparr>)))"

definition sumErr :: "error + 'a \<Rightarrow> error option" where
  "sumErr r = (case r of Inl e \<Rightarrow> Some e | Inr _ \<Rightarrow> None)"

subsection \<open>The collaborators\<close>

text \<open>
  What the orchestrator's code reaches outside the repository's own logic: the clock, the
  Go library functions \<^verbatim>\<open>time.ParseDuration\<close>, \<^verbatim>\<open>yaml.Marshal\<close> and
  \<^verbatim>\<open>base64.StdEncoding.EncodeToString\<close>, the Azure SDK clients, \<^verbatim>\<open>kubectl\<close> and
  \<^verbatim>\<open>ping\<close> run as commands, and the Kubernetes dynamic client. \<^verbatim>\<open>AzureService.CreateVM\<close>,
  \<^verbatim>\<open>AzureService.GetVM\<close>, \<^verbatim>\<open>IstioService.CreateWorkloadEntryForVM\<close> and
  \<^verbatim>\<open>IstioService.CreateServiceEntryForVM\<close> are taken whole, as the orchestrator sees
  them: returning a result or an error.

  \<open>ticksBeforeDone\<close> is the number of ticks that the \<^verbatim>\<open>select\<close> of \<^verbatim>\<open>waitForVMReady\<close>
  receives from its 30-second ticker before it receives from \<^verbatim>\<open>ctx.Done()\<close>: the
  context has a deadline at most ten minutes away, so this number is finite.
\<close>

record 'w env =
  now :: "'w \<Rightarrow> int"
  sleep :: "duration \<Rightarrow> 'w \<Rightarrow> 'w"
  parseDuration :: "string \<Rightarrow> duration option"
  yamlMarshal :: "CloudInit \<Rightarrow> error + string"
  base64 :: "string \<Rightarrow> string"
  ticksBeforeDone :: "ctx \<Rightarrow> 'w \<Rightarrow> nat"
  azCreateVM :: "ctx \<Rightarrow> VMRequest \<Rightarrow> 'w \<Rightarrow> (error + VMInfo) \<times> 'w"
  azGetVM :: "ctx \<Rightarrow> string \<Rightarrow> 'w \<Rightarrow> (error + VMInfo) \<times> 'w"
  computeBeginDelete :: "ctx \<Rightarrow> string \<Rightarrow> 'w \<Rightarrow> error option \<times> 'w"
  computePollUntilDone :: "ctx \<Rightarrow> string \<Rightarrow> 'w \<Rightarrow> error option \<times> 'w"
  nicBeginDelete :: "ctx \<Rightarrow> string \<Rightarrow> 'w \<Rightarrow> error option \<times> 'w"
  nicPollUntilDone :: "ctx \<Rightarrow> string \<Rightarrow> 'w \<Rightarrow> error option \<times> 'w"
  publicIPBeginDelete :: "ctx \<Rightarrow> string \<Rightarrow> 'w \<Rightarrow> error option \<times> 'w"
  publicIPPollUntilDone :: "ctx \<Rightarrow> string \<Rightarrow> 'w \<Rightarrow> error option \<times> 'w"
  istioNamespace :: string
  istioNetwork :: string
  istioClusterName :: string
  generateIstioToken :: "ctx \<Rightarrow> string \<Rightarrow> string \<Rightarrow> 'w \<Rightarrow> (error + string) \<times> 'w"
  getRootCertificate :: "ctx \<Rightarrow> 'w \<Rightarrow> (error + string) \<times> 'w"
  getIstiodAddress :: "ctx \<Rightarrow> 'w \<Rightarrow> (error + string) \<times> 'w"
  istioCreateWorkloadEntryForVM ::
    "ctx \<Rightarrow> string \<Rightarrow> string \<Rightarrow> string \<Rightarrow> (string \<times> string) list \<Rightarrow> 'w \<Rightarrow> error option \<times> 'w"
  istioCreateServiceEntryForVM ::
    "ctx \<Rightarrow> string \<Rightarrow> string \<Rightarrow> string \<Rightarrow> string \<Rightarrow> 'w \<Rightarrow> error option \<times> 'w"
  kubeDeleteWorkloadEntry :: "ctx \<Rightarrow> string \<Rightarrow> string \<Rightarrow> 'w \<Rightarrow> error option \<times> 'w"
  kubeDeleteServiceEntry :: "ctx \<Rightarrow> string \<Rightarrow> string \<Rightarrow> 'w \<Rightarrow> error option \<times> 'w"
  ping :: "ctx \<Rightarrow> string \<Rightarrow> 'w \<Rightarrow> error option \<times> 'w"

subsection \<open>\<^verbatim>\<open>AzureService.DeleteVM\<close> (azure.go)\<close>

text \<open>
  Only a failure to start or to finish the deletion of the machine itself is returned;
  failures on the network interface and on the public address are logged and dropped.
\<close>

definition deleteBestEffort ::
  "('w \<Rightarrow> error option \<times> 'w) \<Rightarrow> ('w \<Rightarrow> error option \<times> 'w) \<Rightarrow> 'w \<Rightarrow> 'w" where
  "deleteBestEffort begin poll w =
     (case begin w of
        (Some err, w1) \<Rightarrow> w1
      | (None, w1) \<Rightarrow> snd (poll w1))"

definition DeleteVM :: "'w env \<Rightarrow> ctx \<Rightarrow> string \<Rightarrow> 'w \<Rightarrow> error option \<times> 'w" where
  "DeleteVM env c vmName w =
     (case computeBeginDelete env c vmName w of
        (Some err, w1) \<Rightarrow> (Some (wrap ''failed to start VM deletion: '' err), w1)
      | (None, w1) \<Rightarrow>
          (case computePollUntilDone env c vmName w1 of
             (Some err, w2) \<Rightarrow> (Some (wrap ''failed to delete VM: '' err), w2)
           | (None, w2) \<Rightarrow>
               (let nicName = vmName @ ''-nic'';
                    w3 = deleteBestEffort (nicBeginDelete env c nicName)
                           (nicPollUntilDone env c nicName) w2;
                    publicIPName = vmName @ ''-pip'';
                    w4 = deleteBestEffort (publicIPBeginDelete env c publicIPName)
                           (publicIPPollUntilDone env c publicIPName) w3
                in (None, w4))))"

subsection \<open>\<^verbatim>\<open>IstioService\<close>: mesh files, cleanup and connection check\<close>

definition NL :: string where
  "NL = [CHR 0x0A]"

definition DQ :: string where
  "DQ = [CHR 0x22]"

definition GenerateVMFiles ::
  "'w env \<Rightarrow> ctx \<Rightarrow> string \<Rightarrow> string \<Rightarrow> string \<Rightarrow> 'w \<Rightarrow> (error + VMMeshFiles) \<times> 'w" where
  "GenerateVMFiles env c vmName vmIP namespace0 w =
     (let namespace = (if namespace0 = [] then istioNamespace env else namespace0) in
      case generateIstioToken env c vmName namespace w of
        (Inl err, w1) \<Rightarrow> (Inl (wrap ''failed to generate Istio token: '' err), w1)
      | (Inr token, w1) \<Rightarrow>
          (case getRootCertificate env c w1 of
             (Inl err, w2) \<Rightarrow> (Inl (wrap ''failed to get root certificate: '' err), w2)
           | (Inr rootCert, w2) \<Rightarrow>
               (case getIstiodAddress env c w2 of
                  (Inl err, w3) \<Rightarrow> (Inl (wrap ''failed to get Istiod address: '' err), w3)
                | (Inr istiodAddress, w3) \<Rightarrow>
                    (Inr \<lparr>ClusterEnv =
                            ''ISTIO_SERVICE_CIDR=10.0.0.0/16'' @ NL @
                            ''ISTIO_INBOUND_PORTS=*'' @ NL @
                            ''ISTIO_LOCAL_GATEWAY_PORT=15008'' @ NL @
                            ''ISTIO_PILOT_PORT=15010'' @ NL @
                            ''ISTIO_CP_ADDRESS='' @ istiodAddress @ NL,
                          MeshYAML =
                            ''apiVersion: install.istio.io/v1alpha1'' @ NL @
                            ''kind: IstioOperator'' @ NL @
                            ''metadata:'' @ NL @
                            ''  name: istio-vm-'' @ vmName @ NL @
                            ''spec:'' @ NL @
                            ''  meshConfig:'' @ NL @
                            ''    defaultConfig:'' @ NL @
                            ''      proxyMetadata:'' @ NL @
                            ''        ISTIO_META_DNS_CAPTURE: '' @ DQ @ ''true'' @ DQ @ NL @
                            ''        ISTIO_META_DNS_AUTO_ALLOCATE: '' @ DQ @ ''true'' @ DQ @ NL @
                            ''        ISTIO_META_NETWORK: '' @ istioNetwork env @ NL @
                            ''        ISTIO_META_CLUSTER_ID: '' @ istioClusterName env @ NL,
                          RootCertPEM = rootCert,
                          IstioToken = token,
                          Hosts = istiodAddress @ '' istiod.istio-system.svc''\<rparr>, w3))))"

text \<open>\<^verbatim>\<open>CleanupVMResources\<close> drops both deletion errors and always returns \<^verbatim>\<open>nil\<close>.\<close>

definition CleanupVMResources ::
  "'w env \<Rightarrow> ctx \<Rightarrow> string \<Rightarrow> string \<Rightarrow> 'w \<Rightarrow> error option \<times> 'w" where
  "CleanupVMResources env c vmName namespace0 w =
     (let namespace = (if namespace0 = [] then istioNamespace env else namespace0);
          workloadEntryName = ''vm-'' @ vmName;
          w1 = snd (kubeDeleteWorkloadEntry env c workloadEntryName namespace w);
          serviceEntryName = ''vm-'' @ vmName @ ''-service'';
          w2 = snd (kubeDeleteServiceEntry env c serviceEntryName namespace w1)
      in (None, w2))"

definition ValidateVMConnection ::
  "'w env \<Rightarrow> ctx \<Rightarrow> string \<Rightarrow> 'w \<Rightarrow> (bool \<times> error option) \<times> 'w" where
  "ValidateVMConnection env c vmIP w =
     (case ping env c vmIP w of
        (Some err, w1) \<Rightarrow> ((False, Some (wrap ''VM unreachable: '' err)), w1)
      | (None, w1) \<Rightarrow> ((True, None), w1))"

subsection \<open>The orchestrator's helpers (vm.go)\<close>

definition meshEnabled :: "VMDeploymentRequest \<Rightarrow> bool" where
  "meshEnabled request =
     (case MeshIntegration request of None \<Rightarrow> False | Some mi \<Rightarrow> Enabled mi)"

definition baseCloudInit :: CloudInit where
  "baseCloudInit =
     \<lparr>package_update = True,
      package_upgrade = True,
      packages = [''curl'', ''wget'', ''unzip'', ''jq'', ''docker.io'', ''docker-compose''],
      runcmd =
        [''systemctl enable docker'',
         ''systemctl start docker'',
         ''usermod -aG docker ubuntu'',
         ''curl -L https://istio.io/downloadIstio | sh -'',
         ''sudo mv istio-*/bin/istioctl /usr/local/bin/'',
         ''mkdir -p /etc/istio-vm''],
      write_files = []\<rparr>"

definition meshCloudInit :: "CloudInit \<Rightarrow> CloudInit" where
  "meshCloudInit cloudInit =
     cloudInit
       \<lparr>write_files := write_files cloudInit @
          [\<lparr>path = ''/etc/istio-vm/cluster.env'',
            content = ''# Placeholder for cluster.env'', permissions = ''0644''\<rparr>,
           \<lparr>path = ''/etc/istio-vm/mesh.yaml'',
            content = ''# Placeholder for mesh.yaml'', permissions = ''0644''\<rparr>,
           \<lparr>path = ''/etc/istio-vm/istio-token'',
            content = ''# Placeholder for istio-token'', permissions = ''0600''\<rparr>],
        runcmd := runcmd cloudInit @
          [''# Install Istio sidecar'',
           ''curl -LO https://storage.googleapis.com/istio-release/releases/1.19.3/deb/istio-sidecar.deb'',
           ''sudo dpkg -i istio-sidecar.deb'']\<rparr>"

definition generateCloudInitData :: "'w env \<Rightarrow> VMDeploymentRequest \<Rightarrow> error + string" where
  "generateCloudInitData env request =
     (let cloudInit = (if meshEnabled request then meshCloudInit baseCloudInit else baseCloudInit) in
      case yamlMarshal env cloudInit of
        Inl err \<Rightarrow> Inl (wrap ''failed to marshal cloud-init data: '' err)
      | Inr yamlData \<Rightarrow> Inr (base64 env (''#cloud-config'' @ NL @ yamlData)))"

text \<open>
  The loop of \<^verbatim>\<open>waitForVMReady\<close>: one iteration for each tick received before the
  context is done; when no tick is left the \<^verbatim>\<open>ctx.Done()\<close> case returns the timeout.
\<close>

fun waitLoop ::
  "'w env \<Rightarrow> ctx \<Rightarrow> string \<Rightarrow> nat \<Rightarrow> ('w, 'z) machine_scheme
     \<Rightarrow> error option \<times> ('w, 'z) machine_scheme" where
  "waitLoop env c vmName 0 m = (Some (Err ''timeout waiting for VM to be ready''), m)"
| "waitLoop env c vmName (Suc n) m =
     (case invoke (GetVM_call vmName) (azGetVM env c vmName) sumErr m of
        (Inl err, m1) \<Rightarrow>
          waitLoop env c vmName n (logf WarnLevel ''Failed to check VM status: %v'' [ErrArg (Some err)] m1)
      | (Inr vm, m1) \<Rightarrow>
          if VMInfo.Status vm = ''VM running''
          then (None, logf InfoLevel ''VM is ready: %s'' [Str vmName] m1)
          else waitLoop env c vmName n
                 (logf InfoLevel ''VM status: %s, waiting...'' [Str (VMInfo.Status vm)] m1))"

definition waitForVMReady ::
  "'w env \<Rightarrow> ctx \<Rightarrow> string \<Rightarrow> duration \<Rightarrow> ('w, 'z) machine_scheme
     \<Rightarrow> error option \<times> ('w, 'z) machine_scheme" where
  "waitForVMReady env c vmName timeout m =
     (let m1 = logf InfoLevel ''Waiting for VM to be ready: %s'' [Str vmName] m;
          c' = WithTimeout c (now env (world m1)) timeout
      in waitLoop env c' vmName (ticksBeforeDone env c' (world m1)) m1)"

definition validateVMService ::
  "ctx \<Rightarrow> VMInfo \<Rightarrow> PostBootTask \<Rightarrow> ('w, 'z) machine_scheme
     \<Rightarrow> error option \<times> ('w, 'z) machine_scheme" where
  "validateVMService c vm task m =
     (if VMInfo.Status vm \<noteq> ''VM running''
      then (Some (Err (''VM is not running: '' @ VMInfo.Status vm)), m)
      else (None,
            case Parameters task ''endpoint'' of
              Some endpoint \<Rightarrow> logf InfoLevel ''Validating endpoint: %s'' [Str endpoint] m
            | None \<Rightarrow> m))"

text \<open>
  \<^verbatim>\<open>executePostBootTask\<close>. The task's context \<open>taskCtx\<close> is derived from the run's
  context; the \<^verbatim>\<open>wait\<close> case calls \<^verbatim>\<open>time.Sleep(duration)\<close>, which takes no context,
  and the \<^verbatim>\<open>script\<close> case logs a warning and returns \<^verbatim>\<open>nil\<close>.
\<close>

definition taskTimeout :: "PostBootTask \<Rightarrow> duration" where
  "taskTimeout task =
     (if TimeoutSeconds task > 0 then int64 (int64 (TimeoutSeconds task) * Second)
      else 5 * Minute)"

definition waitDuration :: "'w env \<Rightarrow> PostBootTask \<Rightarrow> duration" where
  "waitDuration env task =
     (case Parameters task ''duration'' of
        Some durationStr \<Rightarrow>
          (case parseDuration env durationStr of Some d \<Rightarrow> d | None \<Rightarrow> 60 * Second)
      | None \<Rightarrow> 60 * Second)"

definition executePostBootTask ::
  "'w env \<Rightarrow> ctx \<Rightarrow> VMInfo \<Rightarrow> PostBootTask \<Rightarrow> ('w, 'z) machine_scheme
     \<Rightarrow> error option \<times> ('w, 'z) machine_scheme" where
  "executePostBootTask env c vm task m =
     (let m1 = logf InfoLevel ''Executing post-boot task: %s'' [Str (PostBootTask.Name task)] m;
          taskCtx = WithTimeout c (now env (world m1)) (taskTimeout task)
      in if Type task = ''wait'' then
           (let duration = waitDuration env task;
                m2 = logf InfoLevel ''Waiting for %v'' [Dur duration] m1;
                m3 = snd (invoke (Sleep_call duration) (\<lambda>w. ((), sleep env duration w))
                            (\<lambda>_. None) m2)
            in (None, m3))
         else if Type task = ''validate'' then validateVMService taskCtx vm task m1
         else if Type task = ''script'' then
           (None, logf WarnLevel ''Script execution not implemented yet: %s'' [Str (Command task)] m1)
         else (Some (Err (''unknown task type: '' @ Type task)), m1))"

text \<open>
  \<^verbatim>\<open>cleanupDeployment\<close>, the auto-cleanup of a failed run: the loop over the created
  resources logs each of them; then the machine named in the request is deleted, and a
  failure of that deletion is logged.
\<close>

definition cleanupDeployment ::
  "'w env \<Rightarrow> ctx \<Rightarrow> string \<Rightarrow> string list \<Rightarrow> ('w, 'z) machine_scheme \<Rightarrow> ('w, 'z) machine_scheme" where
  "cleanupDeployment env c vmName createdResources m =
     (let m1 = logf InfoLevel ''Auto-cleanup enabled, removing created resources for: %s''
                 [Str vmName] m;
          m2 = fold (\<lambda>resource. logf InfoLevel ''Cleaning up resource: %s'' [Str resource])
                 createdResources m1
      in case invoke (DeleteVM_call vmName) (DeleteVM env c vmName) id m2 of
           (Some err, m3) \<Rightarrow>
             logf ErrorLevel ''Failed to cleanup VM during auto-cleanup: %v'' [ErrArg (Some err)] m3
         | (None, m3) \<Rightarrow> m3)"

subsection \<open>\<^verbatim>\<open>GetVMDeploymentStatus\<close> and \<^verbatim>\<open>CleanupDeployment\<close>\<close>

definition GetVMDeploymentStatus ::
  "'w env \<Rightarrow> ctx \<Rightarrow> string \<Rightarrow> ('w, 'z) machine_scheme
     \<Rightarrow> (error + VMDeploymentStatus) \<times> ('w, 'z) machine_scheme" where
  "GetVMDeploymentStatus env c vmName m =
     (case invoke (GetVM_call vmName) (azGetVM env c vmName) sumErr m of
        (Inl err, m1) \<Rightarrow> (Inl (wrap ''failed to get VM info: '' err), m1)
      | (Inr vm, m1) \<Rightarrow>
          (Inr \<lparr>VM = Some vm, Status = ''running'', CurrentTask = [], CompletedTasks = [],
                Error = [], MeshFiles = None, CreatedResources = [],
                Timestamp = now env (world m1)\<rparr>, m1))"

definition CleanupDeployment ::
  "'w env \<Rightarrow> ctx \<Rightarrow> string \<Rightarrow> ('w, 'z) machine_scheme
     \<Rightarrow> error option \<times> ('w, 'z) machine_scheme" where
  "CleanupDeployment env c vmName m =
     (let m1 = logf InfoLevel ''Cleaning up deployment: %s'' [Str vmName] m;
          m2 = (case invoke (CleanupVMResources_call vmName []) (CleanupVMResources env c vmName [])
                       id m1 of
                  (Some err, m') \<Rightarrow>
                    logf WarnLevel ''Failed to cleanup Istio resources: %v'' [ErrArg (Some err)] m'
                | (None, m') \<Rightarrow> m')
      in case invoke (DeleteVM_call vmName) (DeleteVM env c vmName) id m2 of
           (Some err, m3) \<Rightarrow> (Some (wrap ''failed to delete VM: '' err), m3)
         | (None, m3) \<Rightarrow> (None, logf InfoLevel ''Deployment cleanup completed: %s'' [Str vmName] m3))"

subsection \<open>\<^verbatim>\<open>DeployVM\<close>\<close>

definition setCurrentTask :: "string \<Rightarrow> 'w deployment \<Rightarrow> 'w deployment" where
  "setCurrentTask t d = d\<lparr>status := (status d)\<lparr>CurrentTask := t\<rparr>\<rparr>"

definition appendCompleted :: "string \<Rightarrow> 'w deployment \<Rightarrow> 'w deployment" where
  "appendCompleted t d =
     emit (Completed t) (d\<lparr>status := (status d)\<lparr>CompletedTasks := CompletedTasks (status d) @ [t]\<rparr>\<rparr>)"

definition appendResource :: "string \<Rightarrow> 'w deployment \<Rightarrow> 'w deployment" where
  "appendResource r d =
     emit (Recorded r)
       (d\<lparr>status := (status d)\<lparr>CreatedResources := CreatedResources (status d) @ [r]\<rparr>\<rparr>)"

definition failWith :: "string \<Rightarrow> error \<Rightarrow> 'w deployment \<Rightarrow> 'w deployment" where
  "failWith p err d =
     d\<lparr>status := (status d)\<lparr>Status := ''failed'', Error := p @ errmsg err\<rparr>\<rparr>"

text \<open>
  The exit of the two failure branches that clean up: the status is marked failed, the
  auto-cleanup runs when the request asks for it, and the step's own error is returned.
\<close>

definition failAndCleanup ::
  "'w env \<Rightarrow> ctx \<Rightarrow> VMDeploymentRequest \<Rightarrow> string \<Rightarrow> error \<Rightarrow> 'w deployment
     \<Rightarrow> 'w deployment \<times> error option" where
  "failAndCleanup env c request p err d =
     (let d1 = failWith p err d;
          d2 = (if AutoCleanup request
                then cleanupDeployment env c (VMRequest.Name (Base request))
                       (CreatedResources (status d1)) d1
                else d1)
      in (d2, Some err))"

text \<open>Step 8 (final validation) and the successful return.\<close>

definition DeployVM_step8 ::
  "'w env \<Rightarrow> ctx \<Rightarrow> VMDeploymentRequest \<Rightarrow> VMInfo \<Rightarrow> 'w deployment
     \<Rightarrow> 'w deployment \<times> error option" where
  "DeployVM_step8 env c request vm d =
     (let d1 = setCurrentTask ''final_validation'' d;
          d2 = (if meshEnabled request then
                  (case invoke (ValidateVMConnection_call (PrivateIP vm))
                          (ValidateVMConnection env c (PrivateIP vm)) snd d1 of
                     ((connected, err), d') \<Rightarrow>
                       if err \<noteq> None \<or> \<not> connected
                       then logf WarnLevel ''VM mesh validation failed: %v'' [ErrArg err] d'
                       else appendCompleted ''mesh_validation_passed'' d')
                else d1);
          d3 = d2\<lparr>status := (status d2)\<lparr>Status := ''completed'', CurrentTask := [],
                                          Timestamp := now env (world d2)\<rparr>\<rparr>
      in (logf InfoLevel ''VM deployment completed successfully: %s''
            [Str (VMRequest.Name (Base request))] d3, None))"

text \<open>Step 7: the loop over the post-boot tasks.\<close>

fun runPostBootTasks ::
  "'w env \<Rightarrow> ctx \<Rightarrow> VMInfo \<Rightarrow> PostBootTask list \<Rightarrow> 'w deployment \<Rightarrow> 'w deployment" where
  "runPostBootTasks env c vm [] d = d"
| "runPostBootTasks env c vm (task # tasks) d =
     (let d1 = setCurrentTask (''executing_task_'' @ PostBootTask.Name task) d in
      case executePostBootTask env c vm task d1 of
        (Some err, d2) \<Rightarrow>
          runPostBootTasks env c vm tasks
            (logf WarnLevel ''Failed to execute post-boot task %s: %v''
               [Str (PostBootTask.Name task), ErrArg (Some err)] d2)
      | (None, d2) \<Rightarrow>
          runPostBootTasks env c vm tasks
            (appendCompleted (''task_'' @ PostBootTask.Name task @ ''_completed'') d2))"

definition DeployVM_step7 ::
  "'w env \<Rightarrow> ctx \<Rightarrow> VMDeploymentRequest \<Rightarrow> VMInfo \<Rightarrow> 'w deployment
     \<Rightarrow> 'w deployment \<times> error option" where
  "DeployVM_step7 env c request vm d =
     DeployVM_step8 env c request vm (runPostBootTasks env c vm (PostBootTasks request) d)"

text \<open>Steps 5 and 6: the optional workload entry and service entry.\<close>

definition DeployVM_step5 ::
  "'w env \<Rightarrow> ctx \<Rightarrow> VMInfo \<Rightarrow> MeshIntegration \<Rightarrow> 'w deployment \<Rightarrow> 'w deployment" where
  "DeployVM_step5 env c vm mi d =
     (if CreateWorkloadEntry mi then
        (let d1 = setCurrentTask ''creating_workload_entry'' d in
         case invoke (CreateWorkloadEntryForVM_call (VMInfo.Name vm) (PrivateIP vm) (Namespace mi) (Labels mi))
                (istioCreateWorkloadEntryForVM env c (VMInfo.Name vm) (PrivateIP vm) (Namespace mi) (Labels mi))
                id d1 of
           (Some err, d2) \<Rightarrow>
             logf WarnLevel ''Failed to create WorkloadEntry: %v'' [ErrArg (Some err)] d2
         | (None, d2) \<Rightarrow>
             appendCompleted ''workload_entry_created''
               (appendResource (''workloadentry:'' @ ''vm-'' @ VMInfo.Name vm) d2))
      else d)"

definition DeployVM_step6 ::
  "'w env \<Rightarrow> ctx \<Rightarrow> VMDeploymentRequest \<Rightarrow> VMInfo \<Rightarrow> MeshIntegration \<Rightarrow> 'w deployment
     \<Rightarrow> 'w deployment" where
  "DeployVM_step6 env c request vm mi d =
     (if CreateServiceEntry mi \<and> ServiceName request \<noteq> [] then
        (let d1 = setCurrentTask ''creating_service_entry'' d in
         case invoke (CreateServiceEntryForVM_call (VMInfo.Name vm) (PrivateIP vm) (ServiceName request) (Namespace mi))
                (istioCreateServiceEntryForVM env c (VMInfo.Name vm) (PrivateIP vm) (ServiceName request) (Namespace mi))
                id d1 of
           (Some err, d2) \<Rightarrow>
             logf WarnLevel ''Failed to create ServiceEntry: %v'' [ErrArg (Some err)] d2
         | (None, d2) \<Rightarrow>
             appendCompleted ''service_entry_created''
               (appendResource (''serviceentry:'' @ ''vm-'' @ VMInfo.Name vm @ ''-service'') d2))
      else d)"

text \<open>Step 4: the mesh files, fatal when they cannot be generated; then steps 5 to 8.\<close>

definition DeployVM_step4 ::
  "'w env \<Rightarrow> ctx \<Rightarrow> VMDeploymentRequest \<Rightarrow> VMInfo \<Rightarrow> 'w deployment
     \<Rightarrow> 'w deployment \<times> error option" where
  "DeployVM_step4 env c request vm d =
     (case MeshIntegration request of
        None \<Rightarrow> DeployVM_step7 env c request vm d
      | Some mi \<Rightarrow>
          if Enabled mi then
            (let d1 = setCurrentTask ''generating_mesh_files'' d in
             case invoke (GenerateVMFiles_call (VMInfo.Name vm) (PrivateIP vm) (Namespace mi))
                    (GenerateVMFiles env c (VMInfo.Name vm) (PrivateIP vm) (Namespace mi)) sumErr d1 of
               (Inl err, d2) \<Rightarrow>
                 failAndCleanup env c request ''failed to generate mesh files: '' err d2
             | (Inr meshFiles, d2) \<Rightarrow>
                 (let d3 = appendCompleted ''mesh_files_generated''
                             (d2\<lparr>status := (status d2)\<lparr>MeshFiles := Some meshFiles\<rparr>\<rparr>);
                      d4 = DeployVM_step5 env c vm mi d3;
                      d5 = DeployVM_step6 env c request vm mi d4
                  in DeployVM_step7 env c request vm d5))
          else DeployVM_step7 env c request vm d)"

text \<open>Step 3: wait until the machine runs, for at most ten minutes.\<close>

definition DeployVM_step3 ::
  "'w env \<Rightarrow> ctx \<Rightarrow> VMDeploymentRequest \<Rightarrow> VMInfo \<Rightarrow> 'w deployment
     \<Rightarrow> 'w deployment \<times> error option" where
  "DeployVM_step3 env c request vm d =
     (let d1 = setCurrentTask ''waiting_for_vm_ready'' d in
      case waitForVMReady env c (VMInfo.Name vm) (10 * Minute) d1 of
        (Some err, d2) \<Rightarrow> failAndCleanup env c request ''VM failed to become ready: '' err d2
      | (None, d2) \<Rightarrow> DeployVM_step4 env c request vm (appendCompleted ''vm_ready'' d2))"

text \<open>Step 2: create the machine and record it.\<close>

definition DeployVM_step2 ::
  "'w env \<Rightarrow> ctx \<Rightarrow> VMDeploymentRequest \<Rightarrow> 'w deployment \<Rightarrow> 'w deployment \<times> error option" where
  "DeployVM_step2 env c request d =
     (let d1 = setCurrentTask ''creating_vm'' d in
      case invoke (CreateVM_call (Base request)) (azCreateVM env c (Base request)) sumErr d1 of
        (Inl err, d2) \<Rightarrow> (failWith ''failed to create VM: '' err d2, Some err)
      | (Inr vm, d2) \<Rightarrow>
          (let d3 = d2\<lparr>status := (status d2)\<lparr>VM := Some vm\<rparr>\<rparr>;
               d4 = appendResource (''vm:'' @ VMInfo.Name vm) d3;
               d5 = appendCompleted ''vm_created'' d4
           in DeployVM_step3 env c request vm d5))"

text \<open>
  \<^verbatim>\<open>DeployVM\<close>: the initial status, the run's deadline (thirty minutes unless the request
  gives a positive number of minutes), step 1 (the cloud-init data), then steps 2 to 8.
\<close>

definition deployTimeout :: "VMDeploymentRequest \<Rightarrow> duration" where
  "deployTimeout request =
     (if TimeoutMinutes request > 0 then int64 (int64 (TimeoutMinutes request) * Minute)
      else 30 * Minute)"

definition DeployVM ::
  "'w env \<Rightarrow> ctx \<Rightarrow> VMDeploymentRequest \<Rightarrow> 'w \<Rightarrow> 'w deployment \<times> error option" where
  "DeployVM env c0 request w =
     (let d0 = logf InfoLevel ''Starting VM deployment: %s'' [Str (VMRequest.Name (Base request))]
                 \<lparr>world = w, history = [],
                  status = \<lparr>VM = None, Status = ''initializing'',
                            CurrentTask = ''preparing_deployment'', CompletedTasks = [],
                            Error = [], MeshFiles = None, CreatedResources = [],
                            Timestamp = now env w\<rparr>\<rparr>;
          c = WithTimeout c0 (now env (world d0)) (deployTimeout request);
          d1 = setCurrentTask ''generating_cloud_init'' d0
      in case generateCloudInitData env request of
           Inl err \<Rightarrow> (failWith ''failed to generate cloud-init data: '' err d1, Some err)
         | Inr cloudInitData \<Rightarrow>
             (let request' = request\<lparr>Base := (Base request)\<lparr>CloudInitData := cloudInitData\<rparr>\<rparr>;
                  d2 = appendCompleted ''cloud_init_generated'' d1
              in DeployVM_step2 env c request' d2))"

section \<open>Reading a history\<close>

text \<open>The collaborator calls of a history, in order.\<close>

fun calls :: "effect list \<Rightarrow> call list" where
  "calls [] = []"
| "calls (Call c r # h) = c # calls h"
| "calls (e # h) = calls h"

text \<open>The resources and the tasks appended to the status, in order.\<close>

fun recorded :: "effect list \<Rightarrow> string list" where
  "recorded [] = []"
| "recorded (Recorded r # h) = r # recorded h"
| "recorded (e # h) = recorded h"

fun completed :: "effect list \<Rightarrow> string list" where
  "completed [] = []"
| "completed (Completed t # h) = t # completed h"
| "completed (e # h) = completed h"

text \<open>The names of the tasks that \<^verbatim>\<open>executePostBootTask\<close> was entered for, in order.\<close>

fun executed :: "effect list \<Rightarrow> string list" where
  "executed [] = []"
| "executed (Log InfoLevel fmt [Str n] # h) =
     (if fmt = ''Executing post-boot task: %s'' then n # executed h else executed h)"
| "executed (e # h) = executed h"

text \<open>
  Whether \<^verbatim>\<open>executePostBootTask\<close> returns \<^verbatim>\<open>nil\<close> for a task: it depends on the task's
  type and, for \<^verbatim>\<open>validate\<close>, on the status of the machine as \<^verbatim>\<open>CreateVM\<close> returned it.
\<close>

definition taskSucceeds :: "VMInfo \<Rightarrow> PostBootTask \<Rightarrow> bool" where
  "taskSucceeds vm task =
     (Type task = ''wait'' \<or> Type task = ''script'' \<or>
      (Type task = ''validate'' \<and> VMInfo.Status vm = ''VM running''))"

definition taskEntry :: "PostBootTask \<Rightarrow> string" where
  "taskEntry task = ''task_'' @ PostBootTask.Name task @ ''_completed''"

section \<open>The shape of a run\<close>

text \<open>
  Auxiliary notions for reasoning about whole runs: the status lists agree with the
  appends in the history, and the history of a run is a sequence of segments, one for each
  stage that ran.
\<close>

definition consistent :: "'w deployment \<Rightarrow> bool" where
  "consistent d \<longleftrightarrow>
     CreatedResources (status d) = recorded (history d) \<and>
     CompletedTasks (status d) = completed (history d)"

definition doneLog :: "string \<Rightarrow> effect" where
  "doneLog vmName = Log InfoLevel ''VM deployment completed successfully: %s'' [Str vmName]"

definition startLog :: "string \<Rightarrow> effect" where
  "startLog vmName = Log InfoLevel ''Starting VM deployment: %s'' [Str vmName]"

fun waitEffect :: "effect \<Rightarrow> bool" where
  "waitEffect (Log lvl fmt args) =
     (fmt \<in> {''Waiting for VM to be ready: %s'', ''Failed to check VM status: %v'',
              ''VM is ready: %s'', ''VM status: %s, waiting...''})"
| "waitEffect (Call (GetVM_call n) r) = True"
| "waitEffect e = False"

text \<open>The manifest entries that the auto-cleanup logged, in order.\<close>

fun cleaned :: "effect list \<Rightarrow> string list" where
  "cleaned [] = []"
| "cleaned (Log InfoLevel fmt [Str r] # h) =
     (if fmt = ''Cleaning up resource: %s'' then r # cleaned h else cleaned h)"
| "cleaned (e # h) = cleaned h"

text \<open>The names of the tasks whose failure the loop over the tasks logged, in order.\<close>

fun failedTasks :: "effect list \<Rightarrow> string list" where
  "failedTasks [] = []"
| "failedTasks (Log WarnLevel fmt [Str n, ErrArg e] # h) =
     (if fmt = ''Failed to execute post-boot task %s: %v'' then n # failedTasks h
      else failedTasks h)"
| "failedTasks (e # h) = failedTasks h"

text \<open>The deletion and deregistration calls among the calls of a history.\<close>

fun cleanupCalls :: "call list \<Rightarrow> call list" where
  "cleanupCalls [] = []"
| "cleanupCalls (DeleteVM_call n # cs) = DeleteVM_call n # cleanupCalls cs"
| "cleanupCalls (CleanupVMResources_call n ns # cs) = CleanupVMResources_call n ns # cleanupCalls cs"
| "cleanupCalls (c # cs) = cleanupCalls cs"

definition taskEvents :: "'w env \<Rightarrow> VMInfo \<Rightarrow> PostBootTask \<Rightarrow> effect list" where
  "taskEvents env vm task =
     Log InfoLevel ''Executing post-boot task: %s'' [Str (PostBootTask.Name task)] #
     (if Type task = ''wait'' then
        [Log InfoLevel ''Waiting for %v'' [Dur (waitDuration env task)],
         Call (Sleep_call (waitDuration env task)) None,
         Completed (taskEntry task)]
      else if Type task = ''validate'' then
        (if VMInfo.Status vm \<noteq> ''VM running'' then
           [Log WarnLevel ''Failed to execute post-boot task %s: %v''
              [Str (PostBootTask.Name task),
               ErrArg (Some (Err (''VM is not running: '' @ VMInfo.Status vm)))]]
         else
           (case Parameters task ''endpoint'' of
              Some endpoint \<Rightarrow> [Log InfoLevel ''Validating endpoint: %s'' [Str endpoint]]
            | None \<Rightarrow> []) @ [Completed (taskEntry task)])
      else if Type task = ''script'' then
        [Log WarnLevel ''Script execution not implemented yet: %s'' [Str (Command task)],
         Completed (taskEntry task)]
      else
        [Log WarnLevel ''Failed to execute post-boot task %s: %v''
           [Str (PostBootTask.Name task), ErrArg (Some (Err (''unknown task type: '' @ Type task)))]])"

definition cleanupEvents :: "string \<Rightarrow> string list \<Rightarrow> error option \<Rightarrow> effect list" where
  "cleanupEvents vmName rs r =
     Log InfoLevel ''Auto-cleanup enabled, removing created resources for: %s'' [Str vmName] #
     map (\<lambda>resource. Log InfoLevel ''Cleaning up resource: %s'' [Str resource]) rs @
     Call (DeleteVM_call vmName) r #
     (case r of
        Some err \<Rightarrow> [Log ErrorLevel ''Failed to cleanup VM during auto-cleanup: %v'' [ErrArg (Some err)]]
      | None \<Rightarrow> [])"

inductive exit_events :: "bool \<Rightarrow> string \<Rightarrow> string list \<Rightarrow> effect list \<Rightarrow> bool"
  for autoCleanup vmName rs where
  no_cleanup: "\<not> autoCleanup \<Longrightarrow> exit_events autoCleanup vmName rs []"
| cleanup: "autoCleanup \<Longrightarrow> exit_events autoCleanup vmName rs (cleanupEvents vmName rs r)"

inductive workload_events :: "VMInfo \<Rightarrow> MeshIntegration \<Rightarrow> effect list \<Rightarrow> bool" for vm mi where
  workload_skipped: "\<not> CreateWorkloadEntry mi \<Longrightarrow> workload_events vm mi []"
| workload_failed: "CreateWorkloadEntry mi \<Longrightarrow>
     workload_events vm mi
       [Call (CreateWorkloadEntryForVM_call (VMInfo.Name vm) (PrivateIP vm) (Namespace mi) (Labels mi)) (Some e),
        Log WarnLevel ''Failed to create WorkloadEntry: %v'' [ErrArg (Some e)]]"
| workload_created: "CreateWorkloadEntry mi \<Longrightarrow>
     workload_events vm mi
       [Call (CreateWorkloadEntryForVM_call (VMInfo.Name vm) (PrivateIP vm) (Namespace mi) (Labels mi)) None,
        Recorded (''workloadentry:'' @ ''vm-'' @ VMInfo.Name vm),
        Completed ''workload_entry_created'']"

inductive service_events ::
  "string \<Rightarrow> VMInfo \<Rightarrow> MeshIntegration \<Rightarrow> effect list \<Rightarrow> bool" for serviceName vm mi where
  service_skipped: "\<not> (CreateServiceEntry mi \<and> serviceName \<noteq> []) \<Longrightarrow>
     service_events serviceName vm mi []"
| service_failed: "CreateServiceEntry mi \<Longrightarrow> serviceName \<noteq> [] \<Longrightarrow>
     service_events serviceName vm mi
       [Call (CreateServiceEntryForVM_call (VMInfo.Name vm) (PrivateIP vm) serviceName (Namespace mi)) (Some e),
        Log WarnLevel ''Failed to create ServiceEntry: %v'' [ErrArg (Some e)]]"
| service_created: "CreateServiceEntry mi \<Longrightarrow> serviceName \<noteq> [] \<Longrightarrow>
     service_events serviceName vm mi
       [Call (CreateServiceEntryForVM_call (VMInfo.Name vm) (PrivateIP vm) serviceName (Namespace mi)) None,
        Recorded (''serviceentry:'' @ ''vm-'' @ VMInfo.Name vm @ ''-service''),
        Completed ''service_entry_created'']"

inductive final_events :: "bool \<Rightarrow> VMInfo \<Rightarrow> effect list \<Rightarrow> bool" for mesh vm where
  validation_skipped: "\<not> mesh \<Longrightarrow> final_events mesh vm []"
| validation_failed: "mesh \<Longrightarrow>
     final_events mesh vm
       [Call (ValidateVMConnection_call (PrivateIP vm)) (Some e),
        Log WarnLevel ''VM mesh validation failed: %v'' [ErrArg (Some e)]]"
| validation_passed: "mesh \<Longrightarrow>
     final_events mesh vm
       [Call (ValidateVMConnection_call (PrivateIP vm)) None, Completed ''mesh_validation_passed'']"

inductive mesh_events ::
  "string \<Rightarrow> VMInfo \<Rightarrow> MeshIntegration option \<Rightarrow> effect list \<Rightarrow> bool" for serviceName vm where
  mesh_absent: "mesh_events serviceName vm None []"
| mesh_disabled: "\<not> Enabled mi \<Longrightarrow> mesh_events serviceName vm (Some mi) []"
| mesh_enabled: "Enabled mi \<Longrightarrow>
     workload_events vm mi A \<Longrightarrow> service_events serviceName vm mi B \<Longrightarrow>
     mesh_events serviceName vm (Some mi)
       ([Call (GenerateVMFiles_call (VMInfo.Name vm) (PrivateIP vm) (Namespace mi)) None,
         Completed ''mesh_files_generated''] @ A @ B)"

definition tasksEvents :: "'w env \<Rightarrow> VMInfo \<Rightarrow> PostBootTask list \<Rightarrow> effect list" where
  "tasksEvents env vm tasks = concat (map (taskEvents env vm) tasks)"

fun isCreate :: "effect \<Rightarrow> bool" where
  "isCreate (Call (CreateVM_call rq) r) = True"
| "isCreate e = False"

text \<open>
  Two statuses that agree in every field except the time stamp and the presence of the
  \<^verbatim>\<open>mesh_validation_passed\<close> entry among the completed tasks.
\<close>

definition sameUpToValidation :: "VMDeploymentStatus \<Rightarrow> VMDeploymentStatus \<Rightarrow> bool" where
  "sameUpToValidation s s' \<longleftrightarrow>
     VM s' = VM s \<and> Status s' = Status s \<and> CurrentTask s' = CurrentTask s \<and>
     Error s' = Error s \<and> MeshFiles s' = MeshFiles s \<and>
     CreatedResources s' = CreatedResources s \<and>
     filter (\<lambda>t. t \<noteq> ''mesh_validation_passed'') (CompletedTasks s') =
       filter (\<lambda>t. t \<noteq> ''mesh_validation_passed'') (CompletedTasks s)"

subsection \<open>The cleanup as the specification words it\<close>





section \<open>A simulated environment\<close>

text \<open>
  A small world for running the orchestrator on concrete requests: a clock and the names
  of the machines that exist. The list \<open>faults\<close> names the collaborator calls that fail.
\<close>

record simWorld =
  clock :: int
  vms :: "string list"

definition simInfo :: "string \<Rightarrow> VMInfo" where
  "simInfo n =
     \<lparr>VMInfo.Name = n, ResourceGroup = ''rg'', Status = ''VM running'', Size = ''Standard_B2s'',
      PrivateIP = ''10.0.0.4'', PublicIP = [], Tags = [], CreatedTime = 0\<rparr>"

definition failIf :: "bool \<Rightarrow> string \<Rightarrow> 'w \<Rightarrow> error option \<times> 'w" where
  "failIf b msg w = (if b then (Some (Err msg), w) else (None, w))"

definition simEnv :: "string list \<Rightarrow> simWorld env" where
  "simEnv faults =
     \<lparr>now = clock,
      sleep = (\<lambda>d w. w\<lparr>clock := clock w + max 0 d\<rparr>),
      parseDuration =
        (\<lambda>s. if s = ''2m'' then Some (2 * Minute) else if s = ''1s'' then Some Second else None),
      yamlMarshal =
        (\<lambda>ci. if ''yaml'' \<in> set faults then Inl (Err ''yaml: error'') else Inr ''runcmd: []''),
      base64 = id,
      ticksBeforeDone = (\<lambda>c w. 2),
      azCreateVM =
        (\<lambda>c r w. if ''create'' \<in> set faults then (Inl (Err ''quota exceeded''), w)
                  else (Inr (simInfo (VMRequest.Name r)), w\<lparr>vms := VMRequest.Name r # vms w\<rparr>)),
      azGetVM =
        (\<lambda>c n w. if ''get'' \<in> set faults \<or> n \<notin> set (vms w)
                  then (Inl (Err ''failed to get VM: not found''), w)
                  else (Inr (simInfo n), w)),
      computeBeginDelete =
        (\<lambda>c n w. if ''delete'' \<in> set faults then (Some (Err ''forbidden''), w)
                  else (None, w\<lparr>vms := removeAll n (vms w)\<rparr>)),
      computePollUntilDone = (\<lambda>c n w. (None, w)),
      nicBeginDelete = (\<lambda>c n w. (None, w)),
      nicPollUntilDone = (\<lambda>c n w. (None, w)),
      publicIPBeginDelete = (\<lambda>c n w. (None, w)),
      publicIPPollUntilDone = (\<lambda>c n w. (None, w)),
      istioNamespace = ''istio-system'',
      istioNetwork = ''vm-network'',
      istioClusterName = ''cluster1'',
      generateIstioToken =
        (\<lambda>c n ns w. if ''generate'' \<in> set faults then (Inl (Err ''failed to create token''), w)
                     else (Inr ''token'', w)),
      getRootCertificate = (\<lambda>c w. (Inr ''cert'', w)),
      getIstiodAddress = (\<lambda>c w. (Inr ''10.1.0.1:15012'', w)),
      istioCreateWorkloadEntryForVM =
        (\<lambda>c n ip ns ls. failIf (''workload'' \<in> set faults) ''workload entry rejected''),
      istioCreateServiceEntryForVM =
        (\<lambda>c n ip s ns. failIf (''service'' \<in> set faults) ''service entry rejected''),
      kubeDeleteWorkloadEntry = (\<lambda>c n ns w. (None, w)),
      kubeDeleteServiceEntry = (\<lambda>c n ns w. (None, w)),
      ping = (\<lambda>c ip. failIf (''ping'' \<in> set faults) ''exit status 1'')\<rparr>"

definition simStart :: simWorld where
  "simStart = \<lparr>clock = 0, vms = []\<rparr>"

definition simMachine :: "simWorld machine" where
  "simMachine = \<lparr>world = simStart, history = []\<rparr>"

definition simTask :: "string \<Rightarrow> string \<Rightarrow> PostBootTask" where
  "simTask n ty =
     \<lparr>PostBootTask.Name = n, Type = ty, Command = ''uptime'', ExpectedResult = [],
      TimeoutSeconds = 0, RetryCount = 2, Parameters = [''duration'' \<mapsto> ''2m'']\<rparr>"

text \<open>
  A request for the machine \<open>vm1\<close> with mesh integration enabled that asks for a workload
  entry, for a service entry and for the auto-cleanup, with a deadline of one minute; the
  service name and the post-boot tasks are parameters.
\<close>

definition simRequest :: "string \<Rightarrow> PostBootTask list \<Rightarrow> VMDeploymentRequest" where
  "simRequest serviceName tasks =
     \<lparr>Base = \<lparr>VMRequest.Name = ''vm1'', Size = [], Image = None, Networking = None,
               CloudInitData = [], Tags = [], AdminUsername = [], SSHPublicKey = ''ssh-rsa AAAA''\<rparr>,
      ServiceName = serviceName,
      MeshIntegration = Some \<lparr>Enabled = True, Namespace = [], Labels = [], ServicePorts = [],
                               CreateWorkloadEntry = True, CreateServiceEntry = True\<rparr>,
      PostBootTasks = tasks,
      AutoCleanup = True,
      TimeoutMinutes = 1\<rparr>"


section \<open>Evaluation and basic facts\<close>

lemmas sim_defs = simEnv_def simRequest_def simStart_def simMachine_def simInfo_def simTask_def
  failIf_def

lemmas machine_defs = invoke_def logf_def emit_def sumErr_def setCurrentTask_def
  appendCompleted_def appendResource_def failWith_def

lemmas model_defs = DeployVM_def DeployVM_step2_def DeployVM_step3_def DeployVM_step4_def
  DeployVM_step5_def DeployVM_step6_def DeployVM_step7_def DeployVM_step8_def failAndCleanup_def
  cleanupDeployment_def executePostBootTask_def waitForVMReady_def generateCloudInitData_def
  meshEnabled_def wrap_def DeleteVM_def deleteBestEffort_def GenerateVMFiles_def
  CleanupVMResources_def ValidateVMConnection_def WithTimeout_def deployTimeout_def
  taskTimeout_def waitDuration_def validateVMService_def Minute_def Second_def int64_def
  CleanupDeployment_def GetVMDeploymentStatus_def

lemmas run_defs = model_defs machine_defs sim_defs Let_def numeral_2_eq_2

subsection \<open>Histories and machine states\<close>
lemma calls_append [simp]: "calls (h @ h') = calls h @ calls h'"
  by (induction h rule: calls.induct) simp_all

lemma recorded_append [simp]: "recorded (h @ h') = recorded h @ recorded h'"
  by (induction h rule: recorded.induct) simp_all

lemma completed_append [simp]: "completed (h @ h') = completed h @ completed h'"
  by (induction h rule: completed.induct) simp_all

lemma executed_append [simp]: "executed (h @ h') = executed h @ executed h'"
  by (induction h rule: executed.induct) simp_all

lemma cleaned_append [simp]: "cleaned (h @ h') = cleaned h @ cleaned h'"
  by (induction h rule: cleaned.induct) simp_all

lemma failedTasks_append [simp]: "failedTasks (h @ h') = failedTasks h @ failedTasks h'"
  by (induction h rule: failedTasks.induct) simp_all

lemma cleanupCalls_append [simp]: "cleanupCalls (cs @ cs') = cleanupCalls cs @ cleanupCalls cs'"
  by (induction cs rule: cleanupCalls.induct) simp_all

lemma emit_simps [simp]:
  "history (emit e m) = history m @ [e]"
  "world (emit e m) = world m"
  by (simp_all add: emit_def)

lemma emit_status [simp]: "status (emit e d) = status d"
  by (simp add: emit_def)

lemma logf_simps [simp]:
  "history (logf lvl fmt args m) = history m @ [Log lvl fmt args]"
  "world (logf lvl fmt args m) = world m"
  by (simp_all add: logf_def)

lemma logf_status [simp]: "status (logf lvl fmt args d) = status d"
  by (simp add: logf_def)

lemma invoke_cases:
  obtains r w' where "f (world m) = (r, w')"
    and "invoke c f errOf m = (r, emit (Call c (errOf r)) (m\<lparr>world := w'\<rparr>))"
  by (cases "f (world m)") (simp add: invoke_def)

lemma invoke_facts:
  assumes "invoke c f errOf m = (r, m')"
  shows "history m' = history m @ [Call c (errOf r)]"
    and "fst (f (world m)) = r" and "world m' = snd (f (world m))"
  using assms by (auto simp: invoke_def split: prod.splits)

lemma invoke_status:
  fixes d :: "'w deployment"
  assumes "invoke c f errOf d = (r, d')"
  shows "status d' = status d"
  using assms by (auto simp: invoke_def split: prod.splits)

lemma setCurrentTask_simps [simp]:
  "history (setCurrentTask t d) = history d"
  "world (setCurrentTask t d) = world d"
  "VM (status (setCurrentTask t d)) = VM (status d)"
  "Status (status (setCurrentTask t d)) = Status (status d)"
  "Error (status (setCurrentTask t d)) = Error (status d)"
  "CompletedTasks (status (setCurrentTask t d)) = CompletedTasks (status d)"
  "CreatedResources (status (setCurrentTask t d)) = CreatedResources (status d)"
  by (simp_all add: setCurrentTask_def)

lemma appendCompleted_simps [simp]:
  "history (appendCompleted t d) = history d @ [Completed t]"
  "world (appendCompleted t d) = world d"
  "VM (status (appendCompleted t d)) = VM (status d)"
  "Status (status (appendCompleted t d)) = Status (status d)"
  "Error (status (appendCompleted t d)) = Error (status d)"
  "CompletedTasks (status (appendCompleted t d)) = CompletedTasks (status d) @ [t]"
  "CreatedResources (status (appendCompleted t d)) = CreatedResources (status d)"
  by (simp_all add: appendCompleted_def)

lemma appendResource_simps [simp]:
  "history (appendResource r d) = history d @ [Recorded r]"
  "world (appendResource r d) = world d"
  "VM (status (appendResource r d)) = VM (status d)"
  "Status (status (appendResource r d)) = Status (status d)"
  "Error (status (appendResource r d)) = Error (status d)"
  "CompletedTasks (status (appendResource r d)) = CompletedTasks (status d)"
  "CreatedResources (status (appendResource r d)) = CreatedResources (status d) @ [r]"
  by (simp_all add: appendResource_def)

lemma failWith_simps [simp]:
  "history (failWith p e d) = history d"
  "world (failWith p e d) = world d"
  "VM (status (failWith p e d)) = VM (status d)"
  "Status (status (failWith p e d)) = ''failed''"
  "Error (status (failWith p e d)) = p @ errmsg e"
  "CompletedTasks (status (failWith p e d)) = CompletedTasks (status d)"
  "CreatedResources (status (failWith p e d)) = CreatedResources (status d)"
  by (simp_all add: failWith_def)



lemma fold_logf_history:
  "history (fold (\<lambda>x. logf lvl fmt [Str x]) rs m) = history m @ map (\<lambda>x. Log lvl fmt [Str x]) rs"
  by (induction rs arbitrary: m) simp_all

lemma fold_logf_status:
  fixes d :: "'w deployment"
  shows "status (fold (\<lambda>x. logf lvl fmt [Str x]) rs d) = status d"
  by (induction rs arbitrary: d) simp_all

lemma cleanupDeployment_history:
  "\<exists>r. history (cleanupDeployment env c vmName rs m) = history m @ cleanupEvents vmName rs r"
proof -
  let ?m2 = "fold (\<lambda>resource. logf InfoLevel ''Cleaning up resource: %s'' [Str resource]) rs
               (logf InfoLevel ''Auto-cleanup enabled, removing created resources for: %s'' [Str vmName] m)"
  obtain r m3 where inv: "invoke (DeleteVM_call vmName) (DeleteVM env c vmName) id ?m2 = (r, m3)"
    by (cases "invoke (DeleteVM_call vmName) (DeleteVM env c vmName) id ?m2")
  from invoke_facts(1) [OF inv]
  have "history (cleanupDeployment env c vmName rs m) = history m @ cleanupEvents vmName rs r"
    using inv by (cases r) (simp_all add: cleanupDeployment_def Let_def cleanupEvents_def fold_logf_history)
  then show ?thesis ..
qed

lemma cleanupDeployment_status:
  fixes d :: "'w deployment"
  shows "status (cleanupDeployment env c vmName rs d) = status d"
proof -
  let ?m2 = "fold (\<lambda>resource. logf InfoLevel ''Cleaning up resource: %s'' [Str resource]) rs
               (logf InfoLevel ''Auto-cleanup enabled, removing created resources for: %s'' [Str vmName] d)"
  obtain r m3 where inv: "invoke (DeleteVM_call vmName) (DeleteVM env c vmName) id ?m2 = (r, m3)"
    by (cases "invoke (DeleteVM_call vmName) (DeleteVM env c vmName) id ?m2")
  from invoke_status [OF inv] show ?thesis
    using inv by (cases r) (simp_all add: cleanupDeployment_def Let_def fold_logf_status)
qed

lemma failAndCleanup_facts:
  assumes "failAndCleanup env c request p e d = (d', err)"
  shows "err = Some e" and "Status (status d') = ''failed''" and "Error (status d') = p @ errmsg e"
    and "VM (status d') = VM (status d)"
    and "CompletedTasks (status d') = CompletedTasks (status d)"
    and "CreatedResources (status d') = CreatedResources (status d)"
    and "\<exists>X. history d' = history d @ X \<and> exit_events (AutoCleanup request) (VMRequest.Name (Base request)) (CreatedResources (status d)) X"
proof -
  from assms show "err = Some e" and "Status (status d') = ''failed''"
    and "Error (status d') = p @ errmsg e" and "VM (status d') = VM (status d)"
    and "CompletedTasks (status d') = CompletedTasks (status d)"
    and "CreatedResources (status d') = CreatedResources (status d)"
    by (auto simp: failAndCleanup_def Let_def cleanupDeployment_status split: if_splits)
  show "\<exists>X. history d' = history d @ X \<and> exit_events (AutoCleanup request) (VMRequest.Name (Base request)) (CreatedResources (status d)) X"
  proof (cases "AutoCleanup request")
    case False
    with assms have "history d' = history d @ []"
      by (auto simp: failAndCleanup_def Let_def)
    with False show ?thesis by (blast intro: exit_events.no_cleanup)
  next
    case True
    obtain r where "history (cleanupDeployment env c (VMRequest.Name (Base request))
        (CreatedResources (status d)) (failWith p e d)) =
          history d @ cleanupEvents (VMRequest.Name (Base request)) (CreatedResources (status d)) r"
      using cleanupDeployment_history [of env c "VMRequest.Name (Base request)"
          "CreatedResources (status d)" "failWith p e d"] by auto
    with True assms have "history d' = history d @
        cleanupEvents (VMRequest.Name (Base request)) (CreatedResources (status d)) r"
      by (auto simp: failAndCleanup_def Let_def)
    with True show ?thesis by (blast intro: exit_events.cleanup)
  qed
qed




lemma waitLoop_history:
  "waitLoop env c vmName k m = (r, m') \<Longrightarrow>
   \<exists>W. history m' = history m @ W \<and> list_all waitEffect W"
proof (induction k arbitrary: m)
  case 0
  then show ?case by simp
next
  case (Suc k)
  obtain g m1 where inv: "invoke (GetVM_call vmName) (azGetVM env c vmName) sumErr m = (g, m1)"
    by (cases "invoke (GetVM_call vmName) (azGetVM env c vmName) sumErr m")
  note h1 = invoke_facts(1) [OF inv]
  show ?case
  proof (cases g)
    case (Inl err)
    with Suc.prems inv have "waitLoop env c vmName k
        (logf WarnLevel ''Failed to check VM status: %v'' [ErrArg (Some err)] m1) = (r, m')"
      by simp
    from Suc.IH [OF this] h1 show ?thesis by auto
  next
    case (Inr vm)
    show ?thesis
    proof (cases "VMInfo.Status vm = ''VM running''")
      case True
      with Suc.prems inv Inr h1 show ?thesis by auto
    next
      case False
      with Suc.prems inv Inr have "waitLoop env c vmName k
          (logf InfoLevel ''VM status: %s, waiting...'' [Str (VMInfo.Status vm)] m1) = (r, m')"
        by simp
      from Suc.IH [OF this] h1 show ?thesis by auto
    qed
  qed
qed

lemma waitLoop_status:
  fixes d :: "'w deployment"
  shows "waitLoop env c vmName k d = (r, d') \<Longrightarrow> status d' = status d"
proof (induction k arbitrary: d)
  case 0
  then show ?case by simp
next
  case (Suc k)
  obtain g d1 where inv: "invoke (GetVM_call vmName) (azGetVM env c vmName) sumErr d = (g, d1)"
    by (cases "invoke (GetVM_call vmName) (azGetVM env c vmName) sumErr d")
  note s1 = invoke_status [OF inv]
  show ?case
  proof (cases g)
    case (Inl err)
    with Suc.prems inv have "waitLoop env c vmName k
        (logf WarnLevel ''Failed to check VM status: %v'' [ErrArg (Some err)] d1) = (r, d')"
      by simp
    from Suc.IH [OF this] s1 show ?thesis by simp
  next
    case (Inr vm)
    show ?thesis
    proof (cases "VMInfo.Status vm = ''VM running''")
      case True
      with Suc.prems inv Inr s1 show ?thesis by auto
    next
      case False
      with Suc.prems inv Inr have "waitLoop env c vmName k
          (logf InfoLevel ''VM status: %s, waiting...'' [Str (VMInfo.Status vm)] d1) = (r, d')"
        by simp
      from Suc.IH [OF this] s1 show ?thesis by simp
    qed
  qed
qed

lemma waitForVMReady_history:
  assumes "waitForVMReady env c vmName t m = (r, m')"
  shows "\<exists>W. history m' = history m @ W \<and> list_all waitEffect W"
proof -
  from assms obtain W where
    "history m' = history (logf InfoLevel ''Waiting for VM to be ready: %s'' [Str vmName] m) @ W"
    and "list_all waitEffect W"
    unfolding waitForVMReady_def Let_def by (blast dest: waitLoop_history)
  then have "history m' = history m @ (Log InfoLevel ''Waiting for VM to be ready: %s'' [Str vmName] # W)
      \<and> list_all waitEffect (Log InfoLevel ''Waiting for VM to be ready: %s'' [Str vmName] # W)"
    by simp
  then show ?thesis by blast
qed

lemma waitForVMReady_status:
  fixes d :: "'w deployment"
  shows "waitForVMReady env c vmName t d = (r, d') \<Longrightarrow> status d' = status d"
  unfolding waitForVMReady_def Let_def by (drule waitLoop_status) simp

text \<open>The only error of the wait is the timeout of its \<^verbatim>\<open>ctx.Done()\<close> case.\<close>

lemma waitLoop_error:
  "waitLoop env c vmName k m = (Some e, m') \<Longrightarrow> e = Err ''timeout waiting for VM to be ready''"
  by (induction k arbitrary: m) (auto split: prod.splits sum.splits if_splits)

lemma waitForVMReady_error:
  "waitForVMReady env c vmName t m = (Some e, m') \<Longrightarrow> e = Err ''timeout waiting for VM to be ready''"
  unfolding waitForVMReady_def Let_def by (rule waitLoop_error)

text \<open>One iteration of the loop over the tasks.\<close>

lemma executePostBootTask_result:
  "fst (executePostBootTask env c vm task m) = None \<longleftrightarrow> taskSucceeds vm task"
  by (simp add: executePostBootTask_def validateVMService_def Let_def taskSucceeds_def)

lemma executePostBootTask_status:
  fixes d :: "'w deployment"
  shows "status (snd (executePostBootTask env c vm task d)) = status d"
  by (simp add: executePostBootTask_def validateVMService_def Let_def invoke_def
      split: option.splits)

lemma runPostBootTasks_history:
  "history (runPostBootTasks env c vm tasks d) = history d @ tasksEvents env vm tasks"
proof (induction tasks arbitrary: d)
  case Nil
  then show ?case by (simp add: tasksEvents_def)
next
  case (Cons task tasks)
  show ?case
    by (simp add: Cons.IH tasksEvents_def taskEvents_def executePostBootTask_def
        validateVMService_def Let_def invoke_def taskEntry_def split: option.splits)
qed

lemma runPostBootTasks_status:
  "VM (status (runPostBootTasks env c vm tasks d)) = VM (status d) \<and>
   Status (status (runPostBootTasks env c vm tasks d)) = Status (status d) \<and>
   Error (status (runPostBootTasks env c vm tasks d)) = Error (status d) \<and>
   CreatedResources (status (runPostBootTasks env c vm tasks d)) = CreatedResources (status d)"
proof (induction tasks arbitrary: d)
  case Nil
  then show ?case by simp
next
  case (Cons task tasks)
  show ?case
    by (cases "executePostBootTask env c vm task
          (setCurrentTask (''executing_task_'' @ PostBootTask.Name task) d)")
       (use executePostBootTask_status [of env c vm task
          "setCurrentTask (''executing_task_'' @ PostBootTask.Name task) d"]
        in \<open>auto simp: Cons.IH Let_def split: option.splits\<close>)
qed

lemma runPostBootTasks_consistent:
  "consistent d \<Longrightarrow> consistent (runPostBootTasks env c vm tasks d)"
proof (induction tasks arbitrary: d)
  case Nil
  then show ?case by simp
next
  case (Cons task tasks)
  let ?d1 = "setCurrentTask (''executing_task_'' @ PostBootTask.Name task) d"
  obtain r d2 where ex: "executePostBootTask env c vm task ?d1 = (r, d2)"
    by (cases "executePostBootTask env c vm task ?d1")
  have st: "status d2 = status ?d1"
    using executePostBootTask_status [of env c vm task ?d1] ex by simp
  have "recorded (history d2) = recorded (history d) \<and> completed (history d2) = completed (history d)"
    using ex by (auto simp: executePostBootTask_def validateVMService_def Let_def invoke_def
        split: option.splits if_splits)
  with Cons.prems st have c2: "consistent d2"
    by (simp add: consistent_def)
  show ?case
  proof (cases r)
    case None
    from c2 have "consistent (appendCompleted (''task_'' @ PostBootTask.Name task @ ''_completed'') d2)"
      by (simp add: consistent_def)
    from Cons.IH [OF this] ex None show ?thesis by (simp add: Let_def)
  next
    case (Some err)
    from c2 have "consistent (logf WarnLevel ''Failed to execute post-boot task %s: %v''
               [Str (PostBootTask.Name task), ErrArg (Some err)] d2)"
      by (simp add: consistent_def)
    from Cons.IH [OF this] ex Some show ?thesis by (simp add: Let_def)
  qed
qed




lemma ValidateVMConnection_cases:
  obtains (reachable) w' where "ValidateVMConnection env c ip w = ((True, None), w')"
  | (unreachable) e w' where "ValidateVMConnection env c ip w = ((False, Some e), w')"
proof (cases "ping env c ip w")
  case (Pair r w')
  then show ?thesis
    by (cases r) (auto simp: ValidateVMConnection_def intro: reachable unreachable)
qed

lemma step8_facts:
  assumes "DeployVM_step8 env c request vm d = (d', err)"
  shows "err = None" and "Status (status d') = ''completed''"
    and "VM (status d') = VM (status d)" and "Error (status d') = Error (status d)"
    and "consistent d \<Longrightarrow> consistent d'"
    and "\<exists>V. history d' = history d @ V @ [doneLog (VMRequest.Name (Base request))] \<and> final_events (meshEnabled request) vm V"
proof -
  let ?d1 = "setCurrentTask ''final_validation'' d"
  let ?ip = "PrivateIP vm"
  have ex: "\<exists>V. history d' = history d @ V @ [doneLog (VMRequest.Name (Base request))] \<and> final_events (meshEnabled request) vm V"
  proof (cases "meshEnabled request")
    case False
    with assms have "history d' = history d @ [] @ [doneLog (VMRequest.Name (Base request))]"
      by (auto simp: DeployVM_step8_def Let_def doneLog_def)
    with False show ?thesis
      by (blast intro: final_events.validation_skipped)
  next
    case True
    show ?thesis
    proof (cases rule: ValidateVMConnection_cases [of env c ?ip "world ?d1"])
      case (reachable w')
      with True assms have "history d' = history d @
          [Call (ValidateVMConnection_call ?ip) None, Completed ''mesh_validation_passed''] @
          [doneLog (VMRequest.Name (Base request))]"
        by (auto simp: DeployVM_step8_def Let_def invoke_def doneLog_def)
      with True show ?thesis
        by (blast intro: final_events.validation_passed)
    next
      case (unreachable e w')
      with True assms have "history d' = history d @
          [Call (ValidateVMConnection_call ?ip) (Some e),
           Log WarnLevel ''VM mesh validation failed: %v'' [ErrArg (Some e)]] @ [doneLog (VMRequest.Name (Base request))]"
        by (auto simp: DeployVM_step8_def Let_def invoke_def doneLog_def)
      with True show ?thesis
        by (blast intro: final_events.validation_failed)
    qed
  qed
  have "err = None \<and> Status (status d') = ''completed'' \<and> VM (status d') = VM (status d) \<and>
      Error (status d') = Error (status d) \<and> (consistent d \<longrightarrow> consistent d')"
  proof (cases "meshEnabled request")
    case False
    with assms show ?thesis
      by (auto simp: DeployVM_step8_def Let_def consistent_def)
  next
    case True
    show ?thesis
    proof (cases rule: ValidateVMConnection_cases [of env c ?ip "world ?d1"])
      case (reachable w')
      with True assms show ?thesis
        by (auto simp: DeployVM_step8_def Let_def invoke_def consistent_def)
    next
      case (unreachable e w')
      with True assms show ?thesis
        by (auto simp: DeployVM_step8_def Let_def invoke_def consistent_def)
    qed
  qed
  with ex
  show "err = None" and "Status (status d') = ''completed''"
    and "VM (status d') = VM (status d)" and "Error (status d') = Error (status d)"
    and "consistent d \<Longrightarrow> consistent d'"
    and "\<exists>V. history d' = history d @ V @ [doneLog (VMRequest.Name (Base request))] \<and> final_events (meshEnabled request) vm V"
    by blast+
qed

lemma step7_facts:
  assumes "DeployVM_step7 env c request vm d = (d', err)"
  shows "err = None" and "Status (status d') = ''completed''"
    and "VM (status d') = VM (status d)" and "Error (status d') = Error (status d)"
    and "consistent d \<Longrightarrow> consistent d'"
    and "\<exists>V. history d' = history d @ tasksEvents env vm (PostBootTasks request) @ V @ [doneLog (VMRequest.Name (Base request))]
           \<and> final_events (meshEnabled request) vm V"
  using assms step8_facts [of env c request vm "runPostBootTasks env c vm (PostBootTasks request) d" d' err]
    runPostBootTasks_status [of env c vm "PostBootTasks request" d]
    runPostBootTasks_consistent [of d env c vm "PostBootTasks request"]
  by (simp_all add: DeployVM_step7_def runPostBootTasks_history)

lemma step5_facts:
  shows "VM (status (DeployVM_step5 env c vm mi d)) = VM (status d)"
    and "Status (status (DeployVM_step5 env c vm mi d)) = Status (status d)"
    and "Error (status (DeployVM_step5 env c vm mi d)) = Error (status d)"
    and "consistent d \<Longrightarrow> consistent (DeployVM_step5 env c vm mi d)"
    and "\<exists>A. history (DeployVM_step5 env c vm mi d) = history d @ A \<and> workload_events vm mi A"
proof -
  let ?d1 = "setCurrentTask ''creating_workload_entry'' d"
  let ?call = "CreateWorkloadEntryForVM_call (VMInfo.Name vm) (PrivateIP vm) (Namespace mi) (Labels mi)"
  obtain r d2 where inv: "invoke ?call
      (istioCreateWorkloadEntryForVM env c (VMInfo.Name vm) (PrivateIP vm) (Namespace mi) (Labels mi))
      id ?d1 = (r, d2)"
    by (cases "invoke ?call
      (istioCreateWorkloadEntryForVM env c (VMInfo.Name vm) (PrivateIP vm) (Namespace mi) (Labels mi))
      id ?d1")
  note h = invoke_facts(1) [OF inv] and st = invoke_status [OF inv]
  show "VM (status (DeployVM_step5 env c vm mi d)) = VM (status d)"
    and "Status (status (DeployVM_step5 env c vm mi d)) = Status (status d)"
    and "Error (status (DeployVM_step5 env c vm mi d)) = Error (status d)"
    and "consistent d \<Longrightarrow> consistent (DeployVM_step5 env c vm mi d)"
    using inv h st by (auto simp: DeployVM_step5_def Let_def consistent_def split: option.splits)
  show "\<exists>A. history (DeployVM_step5 env c vm mi d) = history d @ A \<and> workload_events vm mi A"
  proof (cases "CreateWorkloadEntry mi")
    case False
    then have "history (DeployVM_step5 env c vm mi d) = history d @ []"
      by (simp add: DeployVM_step5_def)
    with False show ?thesis by (blast intro: workload_events.workload_skipped)
  next
    case True
    show ?thesis
    proof (cases r)
      case None
      with True inv h have "history (DeployVM_step5 env c vm mi d) = history d @
          [Call ?call None, Recorded (''workloadentry:'' @ ''vm-'' @ VMInfo.Name vm),
           Completed ''workload_entry_created'']"
        by (simp add: DeployVM_step5_def Let_def)
      with True show ?thesis by (blast intro: workload_events.workload_created)
    next
      case (Some e)
      with True inv h have "history (DeployVM_step5 env c vm mi d) = history d @
          [Call ?call (Some e), Log WarnLevel ''Failed to create WorkloadEntry: %v'' [ErrArg (Some e)]]"
        by (simp add: DeployVM_step5_def Let_def)
      with True show ?thesis by (blast intro: workload_events.workload_failed)
    qed
  qed
qed

lemma step6_facts:
  shows "VM (status (DeployVM_step6 env c request vm mi d)) = VM (status d)"
    and "Status (status (DeployVM_step6 env c request vm mi d)) = Status (status d)"
    and "Error (status (DeployVM_step6 env c request vm mi d)) = Error (status d)"
    and "consistent d \<Longrightarrow> consistent (DeployVM_step6 env c request vm mi d)"
    and "\<exists>B. history (DeployVM_step6 env c request vm mi d) = history d @ B \<and>
           service_events (ServiceName request) vm mi B"
proof -
  let ?d1 = "setCurrentTask ''creating_service_entry'' d"
  let ?call = "CreateServiceEntryForVM_call (VMInfo.Name vm) (PrivateIP vm) (ServiceName request) (Namespace mi)"
  obtain r d2 where inv: "invoke ?call
      (istioCreateServiceEntryForVM env c (VMInfo.Name vm) (PrivateIP vm) (ServiceName request) (Namespace mi))
      id ?d1 = (r, d2)"
    by (cases "invoke ?call
      (istioCreateServiceEntryForVM env c (VMInfo.Name vm) (PrivateIP vm) (ServiceName request) (Namespace mi))
      id ?d1")
  note h = invoke_facts(1) [OF inv] and st = invoke_status [OF inv]
  show "VM (status (DeployVM_step6 env c request vm mi d)) = VM (status d)"
    and "Status (status (DeployVM_step6 env c request vm mi d)) = Status (status d)"
    and "Error (status (DeployVM_step6 env c request vm mi d)) = Error (status d)"
    and "consistent d \<Longrightarrow> consistent (DeployVM_step6 env c request vm mi d)"
    using inv h st by (auto simp: DeployVM_step6_def Let_def consistent_def split: option.splits)
  show "\<exists>B. history (DeployVM_step6 env c request vm mi d) = history d @ B \<and>
           service_events (ServiceName request) vm mi B"
  proof (cases "CreateServiceEntry mi \<and> ServiceName request \<noteq> []")
    case False
    then have "history (DeployVM_step6 env c request vm mi d) = history d @ []"
      by (auto simp: DeployVM_step6_def)
    with False show ?thesis by (blast intro: service_events.service_skipped)
  next
    case True
    show ?thesis
    proof (cases r)
      case None
      with True inv h have "history (DeployVM_step6 env c request vm mi d) = history d @
          [Call ?call None, Recorded (''serviceentry:'' @ ''vm-'' @ VMInfo.Name vm @ ''-service''),
           Completed ''service_entry_created'']"
        by (simp add: DeployVM_step6_def Let_def)
      with True show ?thesis by (blast intro: service_events.service_created)
    next
      case (Some e)
      with True inv h have "history (DeployVM_step6 env c request vm mi d) = history d @
          [Call ?call (Some e), Log WarnLevel ''Failed to create ServiceEntry: %v'' [ErrArg (Some e)]]"
        by (simp add: DeployVM_step6_def Let_def)
      with True show ?thesis by (blast intro: service_events.service_failed)
    qed
  qed
qed


lemma exit_events_lists:
  assumes "exit_events a n rs X"
  shows "recorded X = []" and "completed X = []" and "executed X = []"
    and "calls X = (if a then [DeleteVM_call n] else [])"
proof -
  have m: "recorded (map (\<lambda>x. Log InfoLevel f [Str x]) xs) = [] \<and>
      completed (map (\<lambda>x. Log InfoLevel f [Str x]) xs) = [] \<and>
      calls (map (\<lambda>x. Log InfoLevel f [Str x]) xs) = []" for f xs
    by (induction xs) simp_all
  have e: "executed (map (\<lambda>x. Log InfoLevel ''Cleaning up resource: %s'' [Str x]) xs) = []" for xs
    by (induction xs) simp_all
  from assms show "recorded X = []" and "completed X = []" and "executed X = []"
    and "calls X = (if a then [DeleteVM_call n] else [])"
    by (auto elim!: exit_events.cases simp: cleanupEvents_def m e split: option.splits)
qed

lemma step4_consistent:
  assumes "DeployVM_step4 env c request vm d = (d', err)" and "consistent d"
  shows "consistent d'"
proof (cases "MeshIntegration request")
  case None
  with assms show ?thesis by (auto simp: DeployVM_step4_def dest: step7_facts(5))
next
  case (Some mi)
  show ?thesis
  proof (cases "Enabled mi")
    case False
    with Some assms show ?thesis by (auto simp: DeployVM_step4_def dest: step7_facts(5))
  next
    case True
    let ?d1 = "setCurrentTask ''generating_mesh_files'' d"
    let ?call = "GenerateVMFiles_call (VMInfo.Name vm) (PrivateIP vm) (Namespace mi)"
    obtain r d2 where inv: "invoke ?call
        (GenerateVMFiles env c (VMInfo.Name vm) (PrivateIP vm) (Namespace mi)) sumErr ?d1 = (r, d2)"
      by (cases "invoke ?call
        (GenerateVMFiles env c (VMInfo.Name vm) (PrivateIP vm) (Namespace mi)) sumErr ?d1")
    note h = invoke_facts(1) [OF inv] and st = invoke_status [OF inv]
    from assms(2) h st have c2: "consistent d2"
      by (simp add: consistent_def)
    show ?thesis
    proof (cases r)
      case (Inl e)
      with Some True inv assms(1)
      have f: "failAndCleanup env c request ''failed to generate mesh files: '' e d2 = (d', err)"
        by (simp add: DeployVM_step4_def Let_def)
      from failAndCleanup_facts(7) [OF f] obtain X where
        "history d' = history d2 @ X"
        "exit_events (AutoCleanup request) (VMRequest.Name (Base request)) (CreatedResources (status d2)) X"
        by blast
      with c2 failAndCleanup_facts(5,6) [OF f] show ?thesis
        by (simp add: consistent_def exit_events_lists)
    next
      case (Inr meshFiles)
      let ?d3 = "appendCompleted ''mesh_files_generated''
                   (d2\<lparr>status := (status d2)\<lparr>MeshFiles := Some meshFiles\<rparr>\<rparr>)"
      from c2 have "consistent ?d3"
        by (simp add: consistent_def)
      then have "consistent (DeployVM_step6 env c request vm mi (DeployVM_step5 env c vm mi ?d3))"
        by (intro step6_facts(4) step5_facts(4))
      moreover from Some True inv Inr assms(1)
      have "DeployVM_step7 env c request vm
          (DeployVM_step6 env c request vm mi (DeployVM_step5 env c vm mi ?d3)) = (d', err)"
        by (simp add: DeployVM_step4_def Let_def)
      ultimately show ?thesis by (rule step7_facts(5) [rotated])
    qed
  qed
qed

lemma step4_VM:
  assumes "DeployVM_step4 env c request vm d = (d', err)"
  shows "VM (status d') = VM (status d)"
proof (cases "MeshIntegration request")
  case None
  with assms show ?thesis by (auto simp: DeployVM_step4_def dest: step7_facts(3))
next
  case (Some mi)
  show ?thesis
  proof (cases "Enabled mi")
    case False
    with Some assms show ?thesis by (auto simp: DeployVM_step4_def dest: step7_facts(3))
  next
    case True
    let ?d1 = "setCurrentTask ''generating_mesh_files'' d"
    let ?call = "GenerateVMFiles_call (VMInfo.Name vm) (PrivateIP vm) (Namespace mi)"
    obtain r d2 where inv: "invoke ?call
        (GenerateVMFiles env c (VMInfo.Name vm) (PrivateIP vm) (Namespace mi)) sumErr ?d1 = (r, d2)"
      by (cases "invoke ?call
        (GenerateVMFiles env c (VMInfo.Name vm) (PrivateIP vm) (Namespace mi)) sumErr ?d1")
    note st = invoke_status [OF inv]
    show ?thesis
    proof (cases r)
      case (Inl e)
      with Some True inv assms
      have f: "failAndCleanup env c request ''failed to generate mesh files: '' e d2 = (d', err)"
        by (simp add: DeployVM_step4_def Let_def)
      from failAndCleanup_facts(4) [OF f] st show ?thesis by simp
    next
      case (Inr meshFiles)
      let ?d3 = "appendCompleted ''mesh_files_generated''
                   (d2\<lparr>status := (status d2)\<lparr>MeshFiles := Some meshFiles\<rparr>\<rparr>)"
      from Some True inv Inr assms
      have "DeployVM_step7 env c request vm
          (DeployVM_step6 env c request vm mi (DeployVM_step5 env c vm mi ?d3)) = (d', err)"
        by (simp add: DeployVM_step4_def Let_def)
      from step7_facts(3) [OF this] st show ?thesis
        by (simp add: step6_facts(1) step5_facts(1))
    qed
  qed
qed

lemma step4_cases:
  assumes run: "DeployVM_step4 env c request vm d = (d', err)"
  obtains (mesh_failed) mi e X where
      "MeshIntegration request = Some mi" and "Enabled mi" and "err = Some e"
      and "Status (status d') = ''failed''"
      and "Error (status d') = ''failed to generate mesh files: '' @ errmsg e"
      and "history d' = history d @
             Call (GenerateVMFiles_call (VMInfo.Name vm) (PrivateIP vm) (Namespace mi)) (Some e) # X"
      and "exit_events (AutoCleanup request) (VMRequest.Name (Base request))
             (CreatedResources (status d)) X"
  | (completed) M V where
      "err = None" and "Status (status d') = ''completed''"
      and "Error (status d') = Error (status d)"
      and "history d' = history d @ M @ tasksEvents env vm (PostBootTasks request) @ V @
             [doneLog (VMRequest.Name (Base request))]"
      and "mesh_events (ServiceName request) vm (MeshIntegration request) M"
      and "final_events (meshEnabled request) vm V"
proof (cases "MeshIntegration request")
  case None
  with run have r7: "DeployVM_step7 env c request vm d = (d', err)"
    by (simp add: DeployVM_step4_def)
  from step7_facts(6) [OF r7] obtain V where
    "history d' = history d @ [] @ tasksEvents env vm (PostBootTasks request) @ V @
       [doneLog (VMRequest.Name (Base request))]"
    "final_events (meshEnabled request) vm V" by auto
  moreover have "mesh_events (ServiceName request) vm (MeshIntegration request) []"
    using None by (simp add: mesh_events.mesh_absent)
  ultimately show ?thesis
    using step7_facts(1,2,4) [OF r7] by (intro completed [of "[]" V]) simp_all
next
  case (Some mi)
  show ?thesis
  proof (cases "Enabled mi")
    case False
    with Some run have r7: "DeployVM_step7 env c request vm d = (d', err)"
      by (simp add: DeployVM_step4_def)
    from step7_facts(6) [OF r7] obtain V where
      "history d' = history d @ [] @ tasksEvents env vm (PostBootTasks request) @ V @
         [doneLog (VMRequest.Name (Base request))]"
      "final_events (meshEnabled request) vm V" by auto
    moreover have "mesh_events (ServiceName request) vm (MeshIntegration request) []"
      using Some False by (simp add: mesh_events.mesh_disabled)
    ultimately show ?thesis
      using step7_facts(1,2,4) [OF r7] by (intro completed [of "[]" V]) simp_all
  next
    case True
    let ?d1 = "setCurrentTask ''generating_mesh_files'' d"
    let ?call = "GenerateVMFiles_call (VMInfo.Name vm) (PrivateIP vm) (Namespace mi)"
    obtain r d2 where inv: "invoke ?call
        (GenerateVMFiles env c (VMInfo.Name vm) (PrivateIP vm) (Namespace mi)) sumErr ?d1 = (r, d2)"
      by (cases "invoke ?call
        (GenerateVMFiles env c (VMInfo.Name vm) (PrivateIP vm) (Namespace mi)) sumErr ?d1")
    note h = invoke_facts(1) [OF inv] and st = invoke_status [OF inv]
    show ?thesis
    proof (cases r)
      case (Inl e)
      with Some True inv run
      have f: "failAndCleanup env c request ''failed to generate mesh files: '' e d2 = (d', err)"
        by (simp add: DeployVM_step4_def Let_def)
      from failAndCleanup_facts(7) [OF f] obtain X where
        "history d' = history d2 @ X"
        "exit_events (AutoCleanup request) (VMRequest.Name (Base request)) (CreatedResources (status d2)) X"
        by blast
      with h st Inl have
        "history d' = history d @ Call ?call (Some e) # X"
        "exit_events (AutoCleanup request) (VMRequest.Name (Base request)) (CreatedResources (status d)) X"
        by (simp_all add: sumErr_def)
      with Some True failAndCleanup_facts(1,2,3) [OF f] show ?thesis
        by (intro mesh_failed [of mi e X]) simp_all
    next
      case (Inr meshFiles)
      let ?d3 = "appendCompleted ''mesh_files_generated''
                   (d2\<lparr>status := (status d2)\<lparr>MeshFiles := Some meshFiles\<rparr>\<rparr>)"
      let ?d4 = "DeployVM_step5 env c vm mi ?d3"
      let ?d5 = "DeployVM_step6 env c request vm mi ?d4"
      from Some True inv Inr run
      have r7: "DeployVM_step7 env c request vm ?d5 = (d', err)"
        by (simp add: DeployVM_step4_def Let_def)
      obtain A where A: "history ?d4 = history ?d3 @ A" "workload_events vm mi A"
        using step5_facts(5) [of env c vm mi ?d3] by blast
      obtain B where B: "history ?d5 = history ?d4 @ B" "service_events (ServiceName request) vm mi B"
        using step6_facts(5) [of env c request vm mi ?d4] by blast
      from step7_facts(6) [OF r7] obtain V where
        V: "history d' = history ?d5 @ tasksEvents env vm (PostBootTasks request) @ V @
             [doneLog (VMRequest.Name (Base request))]"
        "final_events (meshEnabled request) vm V" by auto
      let ?M = "[Call ?call None, Completed ''mesh_files_generated''] @ A @ B"
      from V(1) A(1) B(1) h Inr
      have "history d' = history d @ ?M @ tasksEvents env vm (PostBootTasks request) @ V @
             [doneLog (VMRequest.Name (Base request))]"
        by (simp add: sumErr_def)
      moreover have "mesh_events (ServiceName request) vm (MeshIntegration request) ?M"
        using Some mesh_events.mesh_enabled [OF True A(2) B(2)] by simp
      moreover have "Error (status d') = Error (status d)"
        using step7_facts(4) [OF r7] st
        by (simp add: step6_facts(3) step5_facts(3))
      ultimately show ?thesis
        using step7_facts(1,2) [OF r7] V(2) by (intro completed [of ?M V]) simp_all
    qed
  qed
qed


lemma waitEffect_lists:
  assumes "list_all waitEffect W"
  shows "recorded W = []" and "completed W = []"
  using assms by (induction W rule: recorded.induct) simp_all

lemma step3_consistent:
  assumes run: "DeployVM_step3 env c request vm d = (d', err)" and "consistent d"
  shows "consistent d'"
proof -
  let ?d1 = "setCurrentTask ''waiting_for_vm_ready'' d"
  obtain r d2 where w: "waitForVMReady env c (VMInfo.Name vm) (10 * Minute) ?d1 = (r, d2)"
    by (cases "waitForVMReady env c (VMInfo.Name vm) (10 * Minute) ?d1")
  from waitForVMReady_history [OF w] obtain W where W: "history d2 = history d @ W" "list_all waitEffect W"
    by auto
  note st = waitForVMReady_status [OF w]
  from assms(2) W st have c2: "consistent d2"
    by (simp add: consistent_def waitEffect_lists)
  show ?thesis
  proof (cases r)
    case (Some e)
    with run w have f: "failAndCleanup env c request ''VM failed to become ready: '' e d2 = (d', err)"
      by (simp add: DeployVM_step3_def Let_def)
    from failAndCleanup_facts(7) [OF f] obtain X where
      "history d' = history d2 @ X"
      "exit_events (AutoCleanup request) (VMRequest.Name (Base request)) (CreatedResources (status d2)) X"
      by blast
    with c2 failAndCleanup_facts(5,6) [OF f] show ?thesis
      by (simp add: consistent_def exit_events_lists)
  next
    case None
    with run w have "DeployVM_step4 env c request vm (appendCompleted ''vm_ready'' d2) = (d', err)"
      by (simp add: DeployVM_step3_def Let_def)
    moreover from c2 have "consistent (appendCompleted ''vm_ready'' d2)"
      by (simp add: consistent_def)
    ultimately show ?thesis by (rule step4_consistent)
  qed
qed

lemma step3_VM:
  assumes run: "DeployVM_step3 env c request vm d = (d', err)"
  shows "VM (status d') = VM (status d)"
proof -
  let ?d1 = "setCurrentTask ''waiting_for_vm_ready'' d"
  obtain r d2 where w: "waitForVMReady env c (VMInfo.Name vm) (10 * Minute) ?d1 = (r, d2)"
    by (cases "waitForVMReady env c (VMInfo.Name vm) (10 * Minute) ?d1")
  note st = waitForVMReady_status [OF w]
  show ?thesis
  proof (cases r)
    case (Some e)
    with run w have f: "failAndCleanup env c request ''VM failed to become ready: '' e d2 = (d', err)"
      by (simp add: DeployVM_step3_def Let_def)
    from failAndCleanup_facts(4) [OF f] st show ?thesis by simp
  next
    case None
    with run w have "DeployVM_step4 env c request vm (appendCompleted ''vm_ready'' d2) = (d', err)"
      by (simp add: DeployVM_step3_def Let_def)
    from step4_VM [OF this] st show ?thesis by simp
  qed
qed

lemma step3_cases:
  assumes run: "DeployVM_step3 env c request vm d = (d', err)"
  obtains (wait_failed) e W X where
      "err = Some e" and "Status (status d') = ''failed''"
      and "Error (status d') = ''VM failed to become ready: '' @ errmsg e"
      and "history d' = history d @ W @ X" and "list_all waitEffect W"
      and "exit_events (AutoCleanup request) (VMRequest.Name (Base request))
             (CreatedResources (status d)) X"
      and "e = Err ''timeout waiting for VM to be ready''"
  | (mesh_failed) mi e W X where
      "MeshIntegration request = Some mi" and "Enabled mi" and "err = Some e"
      and "Status (status d') = ''failed''"
      and "Error (status d') = ''failed to generate mesh files: '' @ errmsg e"
      and "history d' = history d @ W @ Completed ''vm_ready'' #
             Call (GenerateVMFiles_call (VMInfo.Name vm) (PrivateIP vm) (Namespace mi)) (Some e) # X"
      and "list_all waitEffect W"
      and "exit_events (AutoCleanup request) (VMRequest.Name (Base request))
             (CreatedResources (status d)) X"
  | (completed) W M V where
      "err = None" and "Status (status d') = ''completed''"
      and "Error (status d') = Error (status d)"
      and "history d' = history d @ W @ Completed ''vm_ready'' # M @
             tasksEvents env vm (PostBootTasks request) @ V @ [doneLog (VMRequest.Name (Base request))]"
      and "list_all waitEffect W"
      and "mesh_events (ServiceName request) vm (MeshIntegration request) M"
      and "final_events (meshEnabled request) vm V"
proof -
  let ?d1 = "setCurrentTask ''waiting_for_vm_ready'' d"
  obtain r d2 where w: "waitForVMReady env c (VMInfo.Name vm) (10 * Minute) ?d1 = (r, d2)"
    by (cases "waitForVMReady env c (VMInfo.Name vm) (10 * Minute) ?d1")
  from waitForVMReady_history [OF w] obtain W where W: "history d2 = history d @ W" "list_all waitEffect W"
    by auto
  note st = waitForVMReady_status [OF w]
  show ?thesis
  proof (cases r)
    case (Some e)
    with run w have f: "failAndCleanup env c request ''VM failed to become ready: '' e d2 = (d', err)"
      by (simp add: DeployVM_step3_def Let_def)
    from failAndCleanup_facts(7) [OF f] obtain X where
      "history d' = history d2 @ X"
      "exit_events (AutoCleanup request) (VMRequest.Name (Base request)) (CreatedResources (status d2)) X"
      by blast
    moreover from w Some have "e = Err ''timeout waiting for VM to be ready''"
      by (simp add: waitForVMReady_error)
    ultimately show ?thesis
      using W st failAndCleanup_facts(1,2,3) [OF f]
      by (intro wait_failed [of e W X]) simp_all
  next
    case None
    let ?d3 = "appendCompleted ''vm_ready'' d2"
    from None run w have r4: "DeployVM_step4 env c request vm ?d3 = (d', err)"
      by (simp add: DeployVM_step3_def Let_def)
    note mf = mesh_failed and cp = completed
    from r4 show ?thesis
    proof (cases rule: step4_cases)
      case (mesh_failed mi e X)
      with W st show ?thesis
        by (intro mf [of mi e W X]) simp_all
    next
      case (completed M V)
      with W st show ?thesis
        by (intro cp [of W M V]) simp_all
    qed
  qed
qed

lemma meshEnabled_Base [simp]: "meshEnabled (request\<lparr>Base := b\<rparr>) = meshEnabled request"
  by (simp add: meshEnabled_def)

lemma DeployVM_consistent:
  assumes run: "DeployVM env c0 request w = (d, err)"
  shows "consistent d"
proof (cases "generateCloudInitData env request")
  case (Inl e)
  with run show ?thesis
    by (auto simp: DeployVM_def Let_def consistent_def)
next
  case (Inr cloudInitData)
  let ?request = "request\<lparr>Base := (Base request)\<lparr>CloudInitData := cloudInitData\<rparr>\<rparr>"
  let ?c = "WithTimeout c0 (now env w) (deployTimeout request)"
  let ?d0 = "logf InfoLevel ''Starting VM deployment: %s'' [Str (VMRequest.Name (Base request))]
                 \<lparr>world = w, history = [],
                  status = \<lparr>VM = None, Status = ''initializing'',
                            CurrentTask = ''preparing_deployment'', CompletedTasks = [],
                            Error = [], MeshFiles = None, CreatedResources = [],
                            Timestamp = now env w\<rparr>\<rparr>"
  let ?d2 = "appendCompleted ''cloud_init_generated'' (setCurrentTask ''generating_cloud_init'' ?d0)"
  let ?d3 = "setCurrentTask ''creating_vm'' ?d2"
  from Inr run have r2: "DeployVM_step2 env ?c ?request ?d2 = (d, err)"
    by (simp add: DeployVM_def Let_def)
  have c3: "consistent ?d3"
    by (simp add: consistent_def)
  obtain r d4 where inv: "invoke (CreateVM_call (Base ?request)) (azCreateVM env ?c (Base ?request))
      sumErr ?d3 = (r, d4)"
    by (cases "invoke (CreateVM_call (Base ?request)) (azCreateVM env ?c (Base ?request)) sumErr ?d3")
  note h = invoke_facts(1) [OF inv] and st = invoke_status [OF inv]
  from c3 h st have c4: "consistent d4"
    by (simp add: consistent_def)
  show ?thesis
  proof (cases r)
    case (Inl e)
    with r2 inv have "d = failWith ''failed to create VM: '' e d4"
      by (simp add: DeployVM_step2_def Let_def)
    with c4 show ?thesis by (simp add: consistent_def)
  next
    case (Inr vm)
    let ?d7 = "appendCompleted ''vm_created''
                 (appendResource (''vm:'' @ VMInfo.Name vm) (d4\<lparr>status := (status d4)\<lparr>VM := Some vm\<rparr>\<rparr>))"
    from Inr r2 inv have "DeployVM_step3 env ?c ?request vm ?d7 = (d, err)"
      by (simp add: DeployVM_step2_def Let_def)
    moreover from c4 have "consistent ?d7"
      by (simp add: consistent_def)
    ultimately show ?thesis by (rule step3_consistent)
  qed
qed

lemma DeployVM_cases:
  assumes run: "DeployVM env c0 request w = (d, err)"
  obtains (cloud_init_failed) e where
      "err = Some e" and "Status (status d) = ''failed''"
      and "Error (status d) = ''failed to generate cloud-init data: '' @ errmsg e"
      and "VM (status d) = None"
      and "history d = [startLog (VMRequest.Name (Base request))]"
      and "generateCloudInitData env request = Inl e"
  | (create_failed) e rq where
      "err = Some e" and "Status (status d) = ''failed''"
      and "Error (status d) = ''failed to create VM: '' @ errmsg e"
      and "VM (status d) = None"
      and "history d = [startLog (VMRequest.Name (Base request)), Completed ''cloud_init_generated'',
             Call (CreateVM_call rq) (Some e)]"
      and "generateCloudInitData env request = Inr (CloudInitData rq)"
      and "rq = (Base request)\<lparr>CloudInitData := CloudInitData rq\<rparr>"
  | (wait_failed) e rq vm W X where
      "err = Some e" and "Status (status d) = ''failed''"
      and "Error (status d) = ''VM failed to become ready: '' @ errmsg e"
      and "VM (status d) = Some vm"
      and "history d = [startLog (VMRequest.Name (Base request)), Completed ''cloud_init_generated'',
             Call (CreateVM_call rq) None, Recorded (''vm:'' @ VMInfo.Name vm),
             Completed ''vm_created''] @ W @ X"
      and "list_all waitEffect W"
      and "exit_events (AutoCleanup request) (VMRequest.Name (Base request))
             [''vm:'' @ VMInfo.Name vm] X"
      and "generateCloudInitData env request = Inr (CloudInitData rq)"
      and "rq = (Base request)\<lparr>CloudInitData := CloudInitData rq\<rparr>"
      and "e = Err ''timeout waiting for VM to be ready''"
  | (mesh_failed) mi e rq vm W X where
      "MeshIntegration request = Some mi" and "Enabled mi"
      and "err = Some e" and "Status (status d) = ''failed''"
      and "Error (status d) = ''failed to generate mesh files: '' @ errmsg e"
      and "VM (status d) = Some vm"
      and "history d = [startLog (VMRequest.Name (Base request)), Completed ''cloud_init_generated'',
             Call (CreateVM_call rq) None, Recorded (''vm:'' @ VMInfo.Name vm),
             Completed ''vm_created''] @ W @ Completed ''vm_ready'' #
             Call (GenerateVMFiles_call (VMInfo.Name vm) (PrivateIP vm) (Namespace mi)) (Some e) # X"
      and "list_all waitEffect W"
      and "exit_events (AutoCleanup request) (VMRequest.Name (Base request))
             [''vm:'' @ VMInfo.Name vm] X"
      and "generateCloudInitData env request = Inr (CloudInitData rq)"
      and "rq = (Base request)\<lparr>CloudInitData := CloudInitData rq\<rparr>"
  | (completed) rq vm W M V where
      "err = None" and "Status (status d) = ''completed''" and "Error (status d) = []"
      and "VM (status d) = Some vm"
      and "history d = [startLog (VMRequest.Name (Base request)), Completed ''cloud_init_generated'',
             Call (CreateVM_call rq) None, Recorded (''vm:'' @ VMInfo.Name vm),
             Completed ''vm_created''] @ W @ Completed ''vm_ready'' # M @
             tasksEvents env vm (PostBootTasks request) @ V @ [doneLog (VMRequest.Name (Base request))]"
      and "list_all waitEffect W"
      and "mesh_events (ServiceName request) vm (MeshIntegration request) M"
      and "final_events (meshEnabled request) vm V"
      and "generateCloudInitData env request = Inr (CloudInitData rq)"
      and "rq = (Base request)\<lparr>CloudInitData := CloudInitData rq\<rparr>"
proof (cases "generateCloudInitData env request")
  case (Inl e)
  with run show ?thesis
    by (intro cloud_init_failed [of e]) (auto simp: DeployVM_def Let_def startLog_def)
next
  case (Inr cloudInitData)
  let ?request = "request\<lparr>Base := (Base request)\<lparr>CloudInitData := cloudInitData\<rparr>\<rparr>"
  let ?c = "WithTimeout c0 (now env w) (deployTimeout request)"
  let ?d0 = "logf InfoLevel ''Starting VM deployment: %s'' [Str (VMRequest.Name (Base request))]
                 \<lparr>world = w, history = [],
                  status = \<lparr>VM = None, Status = ''initializing'',
                            CurrentTask = ''preparing_deployment'', CompletedTasks = [],
                            Error = [], MeshFiles = None, CreatedResources = [],
                            Timestamp = now env w\<rparr>\<rparr>"
  let ?d2 = "appendCompleted ''cloud_init_generated'' (setCurrentTask ''generating_cloud_init'' ?d0)"
  let ?d3 = "setCurrentTask ''creating_vm'' ?d2"
  let ?rq = "Base ?request"
  from Inr run have r2: "DeployVM_step2 env ?c ?request ?d2 = (d, err)"
    by (simp add: DeployVM_def Let_def)
  obtain r d4 where inv: "invoke (CreateVM_call ?rq) (azCreateVM env ?c ?rq) sumErr ?d3 = (r, d4)"
    by (cases "invoke (CreateVM_call ?rq) (azCreateVM env ?c ?rq) sumErr ?d3")
  note h = invoke_facts(1) [OF inv] and st = invoke_status [OF inv]
  show ?thesis
  proof (cases r)
    case (Inl e)
    with r2 inv have "d = failWith ''failed to create VM: '' e d4" "err = Some e"
      by (simp_all add: DeployVM_step2_def Let_def)
    with h st Inl \<open>generateCloudInitData env request = Inr cloudInitData\<close> show ?thesis
      by (intro create_failed [of e ?rq]) (simp_all add: startLog_def sumErr_def)
  next
    case (Inr vm)
    let ?d7 = "appendCompleted ''vm_created''
                 (appendResource (''vm:'' @ VMInfo.Name vm) (d4\<lparr>status := (status d4)\<lparr>VM := Some vm\<rparr>\<rparr>))"
    from Inr r2 inv have r3: "DeployVM_step3 env ?c ?request vm ?d7 = (d, err)"
      by (simp add: DeployVM_step2_def Let_def)
    have h7: "history ?d7 = [startLog (VMRequest.Name (Base request)), Completed ''cloud_init_generated'',
             Call (CreateVM_call ?rq) None, Recorded (''vm:'' @ VMInfo.Name vm),
             Completed ''vm_created'']"
      using h Inr by (simp add: startLog_def sumErr_def)
    have r7: "CreatedResources (status ?d7) = [''vm:'' @ VMInfo.Name vm]"
      and e7: "Error (status ?d7) = []"
      using st by simp_all
    have vm: "VM (status d) = Some vm"
      using step3_VM [OF r3] by simp
    note g = \<open>generateCloudInitData env request = Inr cloudInitData\<close>
    note wf = wait_failed and mf = mesh_failed and cp = completed
    from r3 show ?thesis
    proof (cases rule: step3_cases)
      case (wait_failed e W X)
      with vm g show ?thesis
        unfolding h7 r7 by (intro wf [of e vm ?rq W X]) simp_all
    next
      case (mesh_failed mi e W X)
      with vm g show ?thesis
        unfolding h7 r7 by (intro mf [of mi e vm ?rq W X]) simp_all
    next
      case (completed W M V)
      with vm g show ?thesis
        unfolding h7 e7 by (intro cp [of vm ?rq W M V]) simp_all
    qed
  qed
qed

subsection \<open>The segments of a history\<close>

lemma wait_segment:
  assumes "list_all waitEffect W"
  shows "executed W = []" and "cleaned W = []" and "failedTasks W = []"
    and "cleanupCalls (calls W) = []"
proof -
  show "executed W = []" using assms by (induction W rule: executed.induct) auto
  show "cleaned W = []" using assms by (induction W rule: cleaned.induct) auto
  show "failedTasks W = []" using assms by (induction W rule: failedTasks.induct) auto
  show "cleanupCalls (calls W) = []"
  proof (use assms in \<open>induction W\<close>)
    case Nil
    then show ?case by simp
  next
    case (Cons x W)
    then show ?case
      by (cases x rule: waitEffect.cases) simp_all
  qed
qed




lemma wait_segment_other:
  assumes "list_all waitEffect W"
  shows "Recorded x \<notin> set W" and "Completed t \<notin> set W"
  using assms by (auto simp: list_all_iff)

lemma map_cleanup_logs:
  "recorded (map (\<lambda>x. Log InfoLevel ''Cleaning up resource: %s'' [Str x]) rs) = []"
  "completed (map (\<lambda>x. Log InfoLevel ''Cleaning up resource: %s'' [Str x]) rs) = []"
  "calls (map (\<lambda>x. Log InfoLevel ''Cleaning up resource: %s'' [Str x]) rs) = []"
  "executed (map (\<lambda>x. Log InfoLevel ''Cleaning up resource: %s'' [Str x]) rs) = []"
  "failedTasks (map (\<lambda>x. Log InfoLevel ''Cleaning up resource: %s'' [Str x]) rs) = []"
  "cleaned (map (\<lambda>x. Log InfoLevel ''Cleaning up resource: %s'' [Str x]) rs) = rs"
  by (induction rs) simp_all


lemma exit_segment:
  assumes "exit_events a n rs X"
  shows "cleaned X = (if a then rs else [])" and "failedTasks X = []"
    and "cleanupCalls (calls X) = (if a then [DeleteVM_call n] else [])"
  using assms
  by (auto elim!: exit_events.cases simp: cleanupEvents_def map_cleanup_logs split: option.splits)


lemma exit_segment_call:
  assumes "exit_events a n rs X" and "Call c r \<in> set X"
  shows "c = DeleteVM_call n" and "a"
    and "\<And>e. r = Some e \<Longrightarrow>
           Log ErrorLevel ''Failed to cleanup VM during auto-cleanup: %v'' [ErrArg (Some e)] \<in> set X"
  using assms
  by (auto elim!: exit_events.cases simp: cleanupEvents_def split: option.splits)


lemma exit_segment_other:
  assumes "exit_events a n rs X"
  shows "Recorded x \<notin> set X" and "Completed t \<notin> set X"
  using assms
  by (auto elim!: exit_events.cases simp: cleanupEvents_def split: option.splits)

lemma tasksEvents_simps [simp]:
  "tasksEvents env vm [] = []"
  "tasksEvents env vm (task # tasks) = taskEvents env vm task @ tasksEvents env vm tasks"
  by (simp_all add: tasksEvents_def)

lemma taskEvents_lists:
  "recorded (taskEvents env vm task) = []"
  "completed (taskEvents env vm task) = (if taskSucceeds vm task then [taskEntry task] else [])"
  "executed (taskEvents env vm task) = [PostBootTask.Name task]"
  "failedTasks (taskEvents env vm task) =
     (if taskSucceeds vm task then [] else [PostBootTask.Name task])"
  "cleaned (taskEvents env vm task) = []"
  "cleanupCalls (calls (taskEvents env vm task)) = []"
  by (simp_all add: taskEvents_def taskSucceeds_def split: option.splits)

lemma task_segment:
  "recorded (tasksEvents env vm tasks) = []"
  "completed (tasksEvents env vm tasks) = map taskEntry (filter (taskSucceeds vm) tasks)"
  "executed (tasksEvents env vm tasks) = map PostBootTask.Name tasks"
  "failedTasks (tasksEvents env vm tasks) =
     map PostBootTask.Name (filter (\<lambda>t. \<not> taskSucceeds vm t) tasks)"
  "cleaned (tasksEvents env vm tasks) = []"
  "cleanupCalls (calls (tasksEvents env vm tasks)) = []"
  by (induction tasks, simp_all add: taskEvents_lists)+

lemma taskEvents_call:
  assumes "Call c r \<in> set (taskEvents env vm task)"
  shows "r = None \<and> (\<exists>t. c = Sleep_call t)"
  using assms by (auto simp: taskEvents_def split: option.splits if_splits)

lemma task_segment_call:
  assumes "Call c r \<in> set (tasksEvents env vm tasks)"
  shows "r = None \<and> (\<exists>t. c = Sleep_call t)"
  using assms by (induction tasks) (auto dest: taskEvents_call)

lemma workload_segment:
  assumes "workload_events vm mi A"
  shows "executed A = []" and "cleaned A = []" and "failedTasks A = []"
    and "cleanupCalls (calls A) = []"
    and "recorded A = [] \<or> recorded A = [''workloadentry:'' @ ''vm-'' @ VMInfo.Name vm]"
    and "completed A = [] \<or> completed A = [''workload_entry_created'']"
  using assms by (auto elim!: workload_events.cases)


lemma service_segment:
  assumes "service_events sn vm mi B"
  shows "executed B = []" and "cleaned B = []" and "failedTasks B = []"
    and "cleanupCalls (calls B) = []"
    and "recorded B = [] \<or> recorded B = [''serviceentry:'' @ ''vm-'' @ VMInfo.Name vm @ ''-service'']"
    and "completed B = [] \<or> completed B = [''service_entry_created'']"
  using assms by (auto elim!: service_events.cases)


lemma final_segment:
  assumes "final_events mesh vm V"
  shows "executed V = []" and "cleaned V = []" and "failedTasks V = []"
    and "cleanupCalls (calls V) = []" and "recorded V = []"
    and "completed V = [] \<or> completed V = [''mesh_validation_passed'']"
  using assms by (auto elim!: final_events.cases)


lemma mesh_segment:
  assumes "mesh_events sn vm mio M"
  shows "executed M = []" and "cleaned M = []" and "failedTasks M = []"
    and "cleanupCalls (calls M) = []"
proof -
  from assms show "executed M = []" and "cleaned M = []" and "failedTasks M = []"
    and "cleanupCalls (calls M) = []"
    by (auto elim!: mesh_events.cases simp: workload_segment service_segment)
qed

subsection \<open>Facts shared by the theorems on whole runs\<close>

lemma unique_split:
  assumes "a @ x # b = pre @ y # post" and "P y"
    and "\<forall>z\<in>set a. \<not> P z" and "\<forall>z\<in>set b. \<not> P z"
  shows "pre = a \<and> y = x \<and> post = b"
  using assms
proof (induction a arbitrary: pre)
  case Nil
  then show ?case by (cases pre) auto
next
  case (Cons z a)
  then show ?case by (cases pre) auto
qed

lemma split_middle:
  assumes "L @ M @ R = pre @ y # post" and "P y"
    and "\<forall>z\<in>set L. \<not> P z" and "\<forall>z\<in>set R. \<not> P z"
  shows "\<exists>pre' post'. M = pre' @ y # post' \<and> pre = L @ pre' \<and> post = post' @ R"
  using assms
proof (induction L arbitrary: pre)
  case Nil
  then show ?case
  proof (induction M arbitrary: pre)
    case Nil
    then show ?case by auto
  next
    case (Cons m M)
    show ?case
    proof (cases pre)
      case Nil
      with Cons.prems show ?thesis by auto
    next
      case (Cons p pre2)
      with Cons.prems have "[] @ M @ R = pre2 @ y # post" and "m = p" by simp_all
      from Cons.IH [OF this(1) Cons.prems(2,3,4)] obtain pre' post'
        where "M = pre' @ y # post'" "pre2 = pre'" "post = post' @ R" by auto
      with \<open>m = p\<close> \<open>pre = p # pre2\<close> have "m # M = (p # pre') @ y # post' \<and> pre = [] @ (p # pre') \<and> post = post' @ R"
        by simp
      then show ?thesis by blast
    qed
  qed
next
  case (Cons l L)
  show ?case
  proof (cases pre)
    case Nil
    with Cons.prems show ?thesis by auto
  next
    case (Cons p pre2)
    with Cons.prems have "L @ M @ R = pre2 @ y # post" and "l = p" and "\<forall>z\<in>set L. \<not> P z" by simp_all
    from Cons.IH [OF this(1) Cons.prems(2) this(3) Cons.prems(4)] obtain pre' post'
      where "M = pre' @ y # post'" "pre2 = L @ pre'" "post = post' @ R" by auto
    with \<open>l = p\<close> \<open>pre = p # pre2\<close> show ?thesis by simp
  qed
qed

lemma no_create_wait: "list_all waitEffect W \<Longrightarrow> \<forall>z\<in>set W. \<not> isCreate z"
  by (induction W) (auto elim: waitEffect.elims)

lemma no_create_exit: "exit_events a n rs X \<Longrightarrow> \<forall>z\<in>set X. \<not> isCreate z"
  by (auto elim!: exit_events.cases simp: cleanupEvents_def split: option.splits)

lemma no_create_tasks: "\<forall>z\<in>set (tasksEvents env vm tasks). \<not> isCreate z"
  by (induction tasks) (auto simp: taskEvents_def split: option.splits)

lemma no_create_mesh: "mesh_events sn vm mio M \<Longrightarrow> \<forall>z\<in>set M. \<not> isCreate z"
  by (auto elim!: mesh_events.cases workload_events.cases service_events.cases)

lemma no_create_final: "final_events mesh vm V \<Longrightarrow> \<forall>z\<in>set V. \<not> isCreate z"
  by (auto elim!: final_events.cases)

lemma taskEntry_not_stage [simp]:
  "taskEntry t \<noteq> ''workload_entry_created''" "taskEntry t \<noteq> ''service_entry_created''"
  "taskEntry t \<noteq> ''mesh_validation_passed''" "taskEntry t \<noteq> ''mesh_files_generated''"
  "taskEntry t \<noteq> ''cloud_init_generated''" "taskEntry t \<noteq> ''vm_created''"
  "taskEntry t \<noteq> ''vm_ready''"
  by (simp_all add: taskEntry_def)

lemma stage_not_in_tasks:
  "s \<in> {''workload_entry_created'', ''service_entry_created'', ''mesh_validation_passed''} \<Longrightarrow>
   s \<notin> set (completed (tasksEvents env vm tasks))"
  by (auto simp: task_segment)

lemma mesh_segment_call:
  assumes "mesh_events sn vm mio M" and "Call c r \<in> set M"
  shows "(\<exists>n ip ns. c = GenerateVMFiles_call n ip ns \<and> r = None) \<or>
         (\<exists>n ip ns ls. c = CreateWorkloadEntryForVM_call n ip ns ls) \<or>
         (\<exists>n ip s ns. c = CreateServiceEntryForVM_call n ip s ns)"
  using assms
  by (auto elim!: mesh_events.cases workload_events.cases service_events.cases)

lemma mesh_segment_lists:
  assumes "mesh_events sn vm mio M"
  shows "set (completed M) \<subseteq>
           {''mesh_files_generated'', ''workload_entry_created'', ''service_entry_created''}"
    and "set (recorded M) \<subseteq> {''workloadentry:'' @ ''vm-'' @ VMInfo.Name vm,
           ''serviceentry:'' @ ''vm-'' @ VMInfo.Name vm @ ''-service''}"
  using assms
  by (auto elim!: mesh_events.cases workload_events.cases service_events.cases)

lemma mesh_workload_failed:
  assumes "mesh_events sn vm mio M"
    and "Call (CreateWorkloadEntryForVM_call n ip ns ls) (Some e) \<in> set M"
  shows "Log WarnLevel ''Failed to create WorkloadEntry: %v'' [ErrArg (Some e)] \<in> set M"
    and "''workload_entry_created'' \<notin> set (completed M)"
    and "\<forall>r\<in>set (recorded M). \<not> prefix ''workloadentry:'' r"
  using assms
  by (auto elim!: mesh_events.cases workload_events.cases service_events.cases)

lemma mesh_service_failed:
  assumes "mesh_events sn vm mio M"
    and "Call (CreateServiceEntryForVM_call n ip s ns) (Some e) \<in> set M"
  shows "Log WarnLevel ''Failed to create ServiceEntry: %v'' [ErrArg (Some e)] \<in> set M"
    and "''service_entry_created'' \<notin> set (completed M)"
    and "\<forall>r\<in>set (recorded M). \<not> prefix ''serviceentry:'' r"
  using assms
  by (auto elim!: mesh_events.cases workload_events.cases service_events.cases)

lemma mesh_segment_workload_split:
  assumes "mesh_events sn vm mio M"
    and "M = pre @ Call (CreateWorkloadEntryForVM_call n ip ns ls) (Some e) # post"
  shows "\<exists>mi post'. mio = Some mi \<and>
           post = Log WarnLevel ''Failed to create WorkloadEntry: %v'' [ErrArg (Some e)] # post' \<and>
           executed post' = [] \<and>
           (CreateServiceEntry mi \<and> sn \<noteq> [] \<longrightarrow>
              (\<exists>r post''. post' = Call (CreateServiceEntryForVM_call n ip sn ns) r # post''))"
  using assms
  by (auto elim!: mesh_events.cases workload_events.cases service_events.cases
      simp: append_eq_Cons_conv)

lemma mesh_segment_service_split:
  assumes "mesh_events sn vm mio M"
    and "M = pre @ Call (CreateServiceEntryForVM_call n ip s ns) (Some e) # post"
  shows "post = [Log WarnLevel ''Failed to create ServiceEntry: %v'' [ErrArg (Some e)]]"
  using assms
  by (auto elim!: mesh_events.cases workload_events.cases service_events.cases
      simp: append_eq_Cons_conv)

lemma final_segment_call:
  assumes "final_events mesh vm V" and "Call c r \<in> set V"
  shows "c = ValidateVMConnection_call (PrivateIP vm)" and "mesh"
    and "\<And>e. r = Some e \<Longrightarrow> completed V = [] \<and>
           Log WarnLevel ''VM mesh validation failed: %v'' [ErrArg (Some e)] \<in> set V"
    and "r = None \<Longrightarrow> completed V = [''mesh_validation_passed'']"
  using assms by (auto elim!: final_events.cases)

lemma wait_segment_no_call:
  assumes "list_all waitEffect W"
  shows "Call (GenerateVMFiles_call n ip ns) r \<notin> set W"
    and "Call (CreateWorkloadEntryForVM_call n ip ns ls) r \<notin> set W"
    and "Call (CreateServiceEntryForVM_call n ip s ns) r \<notin> set W"
    and "Call (ValidateVMConnection_call ip) r \<notin> set W"
    and "Call (DeleteVM_call n) r \<notin> set W"
  using assms by (auto simp: list_all_iff)

lemma exit_segment_no_call:
  assumes "exit_events a vn rs X"
  shows "Call (GenerateVMFiles_call n ip ns) r \<notin> set X"
    and "Call (CreateWorkloadEntryForVM_call n ip ns ls) r \<notin> set X"
    and "Call (CreateServiceEntryForVM_call n ip s ns) r \<notin> set X"
    and "Call (ValidateVMConnection_call ip) r \<notin> set X"
  using exit_segment_call(1) [OF assms] by blast+

lemma task_segment_no_call:
  shows "Call (GenerateVMFiles_call n ip ns) r \<notin> set (tasksEvents env vm tasks)"
    and "Call (CreateWorkloadEntryForVM_call n ip ns ls) r \<notin> set (tasksEvents env vm tasks)"
    and "Call (CreateServiceEntryForVM_call n ip s ns) r \<notin> set (tasksEvents env vm tasks)"
    and "Call (ValidateVMConnection_call ip) r \<notin> set (tasksEvents env vm tasks)"
    and "Call (DeleteVM_call n) r \<notin> set (tasksEvents env vm tasks)"
  using task_segment_call [of _ _ env vm tasks] by blast+

lemma final_segment_no_call:
  assumes "final_events mesh vm V"
  shows "Call (GenerateVMFiles_call n ip ns) r \<notin> set V"
    and "Call (CreateWorkloadEntryForVM_call n ip ns ls) r \<notin> set V"
    and "Call (CreateServiceEntryForVM_call n ip s ns) r \<notin> set V"
    and "Call (DeleteVM_call n) r \<notin> set V"
  using final_segment_call(1) [OF assms] by blast+

lemma mesh_segment_no_call:
  assumes "mesh_events sn vm mio M"
  shows "Call (GenerateVMFiles_call n ip ns) (Some e) \<notin> set M"
    and "Call (ValidateVMConnection_call ip) r \<notin> set M"
    and "Call (DeleteVM_call n) r \<notin> set M"
  using mesh_segment_call [OF assms] by blast+


lemma sameUpToValidation_refl [simp]: "sameUpToValidation s s"
  by (simp add: sameUpToValidation_def)

lemma ping_independent [simp]:
  "generateCloudInitData (env\<lparr>ping := p\<rparr>) = generateCloudInitData env"
  "DeleteVM (env\<lparr>ping := p\<rparr>) = DeleteVM env"
  "GenerateVMFiles (env\<lparr>ping := p\<rparr>) = GenerateVMFiles env"
  "waitDuration (env\<lparr>ping := p\<rparr>) = waitDuration env"
  by (simp_all add: fun_eq_iff generateCloudInitData_def DeleteVM_def GenerateVMFiles_def
      waitDuration_def Let_def split: sum.splits prod.splits option.splits)

lemma waitLoop_ping [simp]:
  "waitLoop (env\<lparr>ping := p\<rparr>) c vmName k m = waitLoop env c vmName k m"
  by (induction k arbitrary: m) (simp_all split: prod.splits sum.splits)

lemma waitForVMReady_ping [simp]:
  "waitForVMReady (env\<lparr>ping := p\<rparr>) c vmName t m = waitForVMReady env c vmName t m"
  by (simp add: waitForVMReady_def)

lemma executePostBootTask_ping [simp]:
  "executePostBootTask (env\<lparr>ping := p\<rparr>) c vm task m = executePostBootTask env c vm task m"
  by (simp add: executePostBootTask_def Let_def)

lemma runPostBootTasks_ping [simp]:
  "runPostBootTasks (env\<lparr>ping := p\<rparr>) c vm tasks d = runPostBootTasks env c vm tasks d"
  by (induction tasks arbitrary: d) (simp_all add: Let_def split: prod.splits option.splits)

lemma cleanup_ping [simp]:
  "cleanupDeployment (env\<lparr>ping := p\<rparr>) c vmName rs m = cleanupDeployment env c vmName rs m"
  "failAndCleanup (env\<lparr>ping := p\<rparr>) c request pre e d = failAndCleanup env c request pre e d"
  by (simp_all add: cleanupDeployment_def failAndCleanup_def Let_def)

lemma step56_ping [simp]:
  "DeployVM_step5 (env\<lparr>ping := p\<rparr>) c vm mi d = DeployVM_step5 env c vm mi d"
  "DeployVM_step6 (env\<lparr>ping := p\<rparr>) c request vm mi d = DeployVM_step6 env c request vm mi d"
  by (simp_all add: DeployVM_step5_def DeployVM_step6_def Let_def)

lemma step8_ping:
  assumes "DeployVM_step8 env c request vm d = (d1, e1)"
    and "DeployVM_step8 (env\<lparr>ping := p\<rparr>) c request vm d = (d2, e2)"
  shows "e2 = e1 \<and> sameUpToValidation (status d1) (status d2)"
proof (cases "meshEnabled request")
  case False
  with assms show ?thesis
    by (auto simp: DeployVM_step8_def Let_def machine_defs sameUpToValidation_def)
next
  case True
  let ?d1 = "setCurrentTask ''final_validation'' d"
  show ?thesis
  proof (cases rule: ValidateVMConnection_cases [of env c "PrivateIP vm" "world ?d1"])
    case (reachable w1)
    show ?thesis
    proof (cases rule: ValidateVMConnection_cases [of "env\<lparr>ping := p\<rparr>" c "PrivateIP vm" "world ?d1"])
      case (reachable w2)
      with \<open>ValidateVMConnection env c (PrivateIP vm) (world ?d1) = ((True, None), w1)\<close> True assms
      show ?thesis
        by (auto simp: DeployVM_step8_def Let_def machine_defs sameUpToValidation_def)
    next
      case (unreachable e w2)
      with \<open>ValidateVMConnection env c (PrivateIP vm) (world ?d1) = ((True, None), w1)\<close> True assms
      show ?thesis
        by (auto simp: DeployVM_step8_def Let_def machine_defs sameUpToValidation_def)
    qed
  next
    case (unreachable e1 w1)
    show ?thesis
    proof (cases rule: ValidateVMConnection_cases [of "env\<lparr>ping := p\<rparr>" c "PrivateIP vm" "world ?d1"])
      case (reachable w2)
      with \<open>ValidateVMConnection env c (PrivateIP vm) (world ?d1) = ((False, Some e1), w1)\<close> True assms
      show ?thesis
        by (auto simp: DeployVM_step8_def Let_def machine_defs sameUpToValidation_def)
    next
      case (unreachable e w2)
      with \<open>ValidateVMConnection env c (PrivateIP vm) (world ?d1) = ((False, Some e1), w1)\<close> True assms
      show ?thesis
        by (auto simp: DeployVM_step8_def Let_def machine_defs sameUpToValidation_def)
    qed
  qed
qed

lemma step7_ping:
  assumes "DeployVM_step7 env c request vm d = (d1, e1)"
    and "DeployVM_step7 (env\<lparr>ping := p\<rparr>) c request vm d = (d2, e2)"
  shows "e2 = e1 \<and> sameUpToValidation (status d1) (status d2)"
  using assms unfolding DeployVM_step7_def runPostBootTasks_ping by (rule step8_ping)

lemma step4_ping:
  assumes "DeployVM_step4 env c request vm d = (d1, e1)"
    and "DeployVM_step4 (env\<lparr>ping := p\<rparr>) c request vm d = (d2, e2)"
  shows "e2 = e1 \<and> sameUpToValidation (status d1) (status d2)"
proof (cases "MeshIntegration request")
  case None
  with assms show ?thesis by (auto simp: DeployVM_step4_def dest: step7_ping)
next
  case (Some mi)
  show ?thesis
  proof (cases "Enabled mi")
    case False
    with Some assms show ?thesis by (auto simp: DeployVM_step4_def dest: step7_ping)
  next
    case True
    let ?d1 = "setCurrentTask ''generating_mesh_files'' d"
    let ?call = "GenerateVMFiles_call (VMInfo.Name vm) (PrivateIP vm) (Namespace mi)"
    obtain r d2' where inv: "invoke ?call
        (GenerateVMFiles env c (VMInfo.Name vm) (PrivateIP vm) (Namespace mi)) sumErr ?d1 = (r, d2')"
      by (cases "invoke ?call
        (GenerateVMFiles env c (VMInfo.Name vm) (PrivateIP vm) (Namespace mi)) sumErr ?d1")
    show ?thesis
    proof (cases r)
      case (Inl e)
      with Some True inv assms show ?thesis
        by (simp add: DeployVM_step4_def Let_def)
    next
      case (Inr meshFiles)
      with Some True inv assms show ?thesis
        by (simp add: DeployVM_step4_def Let_def) (rule step7_ping)
    qed
  qed
qed

lemma step3_ping:
  assumes "DeployVM_step3 env c request vm d = (d1, e1)"
    and "DeployVM_step3 (env\<lparr>ping := p\<rparr>) c request vm d = (d2, e2)"
  shows "e2 = e1 \<and> sameUpToValidation (status d1) (status d2)"
proof -
  let ?d1 = "setCurrentTask ''waiting_for_vm_ready'' d"
  obtain r d' where w: "waitForVMReady env c (VMInfo.Name vm) (10 * Minute) ?d1 = (r, d')"
    by (cases "waitForVMReady env c (VMInfo.Name vm) (10 * Minute) ?d1")
  show ?thesis
  proof (cases r)
    case (Some e)
    with w assms show ?thesis by (simp add: DeployVM_step3_def Let_def)
  next
    case None
    with w assms show ?thesis by (simp add: DeployVM_step3_def Let_def) (rule step4_ping)
  qed
qed

lemma step2_ping:
  assumes "DeployVM_step2 env c request d = (d1, e1)"
    and "DeployVM_step2 (env\<lparr>ping := p\<rparr>) c request d = (d2, e2)"
  shows "e2 = e1 \<and> sameUpToValidation (status d1) (status d2)"
proof -
  let ?d1 = "setCurrentTask ''creating_vm'' d"
  obtain r d' where inv: "invoke (CreateVM_call (Base request)) (azCreateVM env c (Base request))
      sumErr ?d1 = (r, d')"
    by (cases "invoke (CreateVM_call (Base request)) (azCreateVM env c (Base request)) sumErr ?d1")
  show ?thesis
  proof (cases r)
    case (Inl e)
    with inv assms show ?thesis by (auto simp: DeployVM_step2_def Let_def)
  next
    case (Inr vm)
    with inv assms show ?thesis by (simp add: DeployVM_step2_def Let_def) (rule step3_ping)
  qed
qed

lemma DeployVM_ping:
  assumes "DeployVM env c0 request w = (d1, e1)"
    and "DeployVM (env\<lparr>ping := p\<rparr>) c0 request w = (d2, e2)"
  shows "e2 = e1 \<and> sameUpToValidation (status d1) (status d2)"
proof (cases "generateCloudInitData env request")
  case (Inl e)
  with assms show ?thesis by (auto simp: DeployVM_def Let_def)
next
  case (Inr cloudInitData)
  with assms show ?thesis by (simp add: DeployVM_def Let_def) (rule step2_ping)
qed

lemma service_segment_skipped:
  assumes "mesh_events [] vm mio M"
  shows "Call (CreateServiceEntryForVM_call n ip s ns) r \<notin> set M"
    and "''service_entry_created'' \<notin> set (completed M)"
    and "\<forall>x\<in>set (recorded M). \<not> prefix ''serviceentry:'' x"
  using assms
  by (auto elim!: mesh_events.cases workload_events.cases service_events.cases)

lemma unrequested_service:
  fixes request mi
  defines "request' \<equiv> request\<lparr>MeshIntegration := Some (mi\<lparr>CreateServiceEntry := False\<rparr>)\<rparr>"
  assumes mi: "MeshIntegration request = Some mi" and empty: "ServiceName request = []"
  shows "generateCloudInitData env request' = generateCloudInitData env request"
    and "DeployVM_step8 env c request' vm d = DeployVM_step8 env c request vm d"
    and "DeployVM_step7 env c request' vm d = DeployVM_step7 env c request vm d"
    and "DeployVM_step6 env c request' vm (mi\<lparr>CreateServiceEntry := False\<rparr>) d = d"
    and "DeployVM_step6 env c request vm mi d = d"
    and "DeployVM_step5 env c vm (mi\<lparr>CreateServiceEntry := False\<rparr>) d = DeployVM_step5 env c vm mi d"
    and "failAndCleanup env c request' p e d = failAndCleanup env c request p e d"
  using mi empty
  by (simp_all add: request'_def generateCloudInitData_def meshEnabled_def DeployVM_step8_def
      DeployVM_step7_def DeployVM_step6_def DeployVM_step5_def failAndCleanup_def Let_def)

lemma unrequested_service_step4:
  assumes mi: "MeshIntegration request = Some mi" and empty: "ServiceName request = []"
  shows "DeployVM_step4 env c (request\<lparr>MeshIntegration := Some (mi\<lparr>CreateServiceEntry := False\<rparr>)\<rparr>) vm d =
         DeployVM_step4 env c request vm d"
  using mi
  by (simp add: DeployVM_step4_def Let_def unrequested_service [OF mi empty]
      split: prod.splits sum.splits)

lemma unrequested_service_step2:
  assumes mi: "MeshIntegration request = Some mi" and empty: "ServiceName request = []"
  shows "DeployVM_step2 env c (request\<lparr>MeshIntegration := Some (mi\<lparr>CreateServiceEntry := False\<rparr>)\<rparr>) d =
         DeployVM_step2 env c request d"
  by (simp add: DeployVM_step2_def DeployVM_step3_def Let_def
      unrequested_service_step4 [OF mi empty] unrequested_service(7) [OF mi empty]
      split: prod.splits sum.splits option.splits)

lemma unrequested_service_run:
  assumes mi: "MeshIntegration request = Some mi" and empty: "ServiceName request = []"
  shows "DeployVM env c0 (request\<lparr>MeshIntegration := Some (mi\<lparr>CreateServiceEntry := False\<rparr>)\<rparr>) w =
         DeployVM env c0 request w"
proof -
  have comm: "request\<lparr>MeshIntegration := x, Base := b\<rparr> = request\<lparr>Base := b, MeshIntegration := x\<rparr>"
    for x b
    by (cases request) simp
  have s2: "DeployVM_step2 env c
          (request\<lparr>MeshIntegration := Some (mi\<lparr>CreateServiceEntry := False\<rparr>), Base := b\<rparr>) d =
        DeployVM_step2 env c (request\<lparr>Base := b\<rparr>) d" for c b d
    unfolding comm
    using unrequested_service_step2 [of "request\<lparr>Base := b\<rparr>" mi env c d] mi empty by simp
  show ?thesis
    by (simp add: DeployVM_def Let_def deployTimeout_def unrequested_service(1) [OF mi empty] s2
        split: sum.splits)
qed

section \<open>Failed runs and the auto-cleanup\<close>





text \<open>
  The assumption on the name holds whenever \<^verbatim>\<open>CreateVM\<close> returns a machine under the
  name of its request.
\<close>

lemma created_under_requested_name:
  assumes run: "DeployVM env c0 request w = (d, err)"
    and contract: "\<forall>c rq w vm w'. azCreateVM env c rq w = (Inr vm, w') \<longrightarrow>
                     VMInfo.Name vm = VMRequest.Name rq"
  shows "\<forall>vm. VM (status d) = Some vm \<longrightarrow> VMInfo.Name vm = VMRequest.Name (Base request)"
proof (cases "generateCloudInitData env request")
  case (Inl e)
  with run show ?thesis by (auto simp: DeployVM_def Let_def)
next
  case (Inr cloudInitData)
  let ?request = "request\<lparr>Base := (Base request)\<lparr>CloudInitData := cloudInitData\<rparr>\<rparr>"
  let ?c = "WithTimeout c0 (now env w) (deployTimeout request)"
  let ?d0 = "logf InfoLevel ''Starting VM deployment: %s'' [Str (VMRequest.Name (Base request))]
                 \<lparr>world = w, history = [],
                  status = \<lparr>VM = None, Status = ''initializing'',
                            CurrentTask = ''preparing_deployment'', CompletedTasks = [],
                            Error = [], MeshFiles = None, CreatedResources = [],
                            Timestamp = now env w\<rparr>\<rparr>"
  let ?d2 = "appendCompleted ''cloud_init_generated'' (setCurrentTask ''generating_cloud_init'' ?d0)"
  let ?d3 = "setCurrentTask ''creating_vm'' ?d2"
  let ?rq = "Base ?request"
  from Inr run have r2: "DeployVM_step2 env ?c ?request ?d2 = (d, err)"
    by (simp add: DeployVM_def Let_def)
  obtain r d4 where inv: "invoke (CreateVM_call ?rq) (azCreateVM env ?c ?rq) sumErr ?d3 = (r, d4)"
    by (cases "invoke (CreateVM_call ?rq) (azCreateVM env ?c ?rq) sumErr ?d3")
  note st = invoke_status [OF inv]
  show ?thesis
  proof (cases r)
    case (Inl e)
    with r2 inv have "d = failWith ''failed to create VM: '' e d4"
      by (simp add: DeployVM_step2_def Let_def)
    with st show ?thesis by simp
  next
    case (Inr vm)
    let ?d7 = "appendCompleted ''vm_created''
                 (appendResource (''vm:'' @ VMInfo.Name vm) (d4\<lparr>status := (status d4)\<lparr>VM := Some vm\<rparr>\<rparr>))"
    from Inr r2 inv have r3: "DeployVM_step3 env ?c ?request vm ?d7 = (d, err)"
      by (simp add: DeployVM_step2_def Let_def)
    have vm: "VM (status d) = Some vm"
      using step3_VM [OF r3] by simp
    from invoke_facts(2) [OF inv] Inr
    have "azCreateVM env ?c ?rq (world ?d3) = (Inr vm, snd (azCreateVM env ?c ?rq (world ?d3)))"
      by (simp add: prod_eq_iff)
    with contract have "VMInfo.Name vm = VMRequest.Name ?rq" by blast
    with vm show ?thesis by simp
  qed
qed

text \<open>
  The loop of \<^verbatim>\<open>cleanupDeployment\<close> over the manifest only logs its entries: whatever
  the manifest, the function adds to the calls of the history the one deletion of the
  machine it is called for.
\<close>

lemma cleanupDeployment_calls:
  "calls (history (cleanupDeployment env c vmName rs m)) = calls (history m) @ [DeleteVM_call vmName]"
proof -
  obtain r where "history (cleanupDeployment env c vmName rs m) = history m @ cleanupEvents vmName rs r"
    using cleanupDeployment_history by blast
  then show ?thesis
    by (simp add: cleanupEvents_def map_cleanup_logs split: option.splits)
qed

section \<open>Requests without a service name\<close>

text \<open>
  C2, as the code has it. A request with mesh integration enabled that asks for a service
  entry and gives an empty service name is not rejected: \<^verbatim>\<open>DeployVM\<close> runs it exactly as
  the same request without the service entry. Once the cloud-init data is generated,
  \<^verbatim>\<open>CreateVM\<close> is called with it. Step 6 is skipped: \<^verbatim>\<open>CreateServiceEntryForVM\<close> is
  not called, no \<^verbatim>\<open>serviceentry\<close> resource is recorded and the task
  \<^verbatim>\<open>service_entry_created\<close> is not completed.
\<close>

theorem empty_service_name_is_not_rejected:
  assumes mi: "MeshIntegration request = Some mi" and enabled: "Enabled mi"
    and requested: "CreateServiceEntry mi" and empty: "ServiceName request = []"
    and run: "DeployVM env c0 request w = (d, err)"
  shows "DeployVM env c0 (request\<lparr>MeshIntegration := Some (mi\<lparr>CreateServiceEntry := False\<rparr>)\<rparr>) w = (d, err) \<and>
         (\<forall>data. generateCloudInitData env request = Inr data \<longrightarrow>
            (\<exists>r. Call (CreateVM_call ((Base request)\<lparr>CloudInitData := data\<rparr>)) r \<in> set (history d))) \<and>
         (\<forall>n ip s ns r. Call (CreateServiceEntryForVM_call n ip s ns) r \<notin> set (history d)) \<and>
         ''service_entry_created'' \<notin> set (CompletedTasks (status d)) \<and>
         (\<forall>x\<in>set (CreatedResources (status d)). \<not> prefix ''serviceentry:'' x)"
proof -
  have c: "CreatedResources (status d) = recorded (history d)"
    "CompletedTasks (status d) = completed (history d)"
    using DeployVM_consistent [OF run] by (simp_all add: consistent_def)
  have "(\<forall>data. generateCloudInitData env request = Inr data \<longrightarrow>
            (\<exists>r. Call (CreateVM_call ((Base request)\<lparr>CloudInitData := data\<rparr>)) r \<in> set (history d))) \<and>
         (\<forall>n ip s ns r. Call (CreateServiceEntryForVM_call n ip s ns) r \<notin> set (history d)) \<and>
         ''service_entry_created'' \<notin> set (completed (history d)) \<and>
         (\<forall>x\<in>set (recorded (history d)). \<not> prefix ''serviceentry:'' x)"
    using run
  proof (cases rule: DeployVM_cases)
    case (cloud_init_failed e)
    then show ?thesis by (simp add: startLog_def)
  next
    case (create_failed e rq)
    have "\<exists>r. Call (CreateVM_call ((Base request)\<lparr>CloudInitData := data\<rparr>)) r \<in> set (history d)"
      if "generateCloudInitData env request = Inr data" for data
      using that create_failed(5,6,7) by (auto simp: startLog_def)
    with create_failed(5) show ?thesis by (simp add: startLog_def)
  next
    case (wait_failed e rq vm W X)
    have "\<exists>r. Call (CreateVM_call ((Base request)\<lparr>CloudInitData := data\<rparr>)) r \<in> set (history d)"
      if "generateCloudInitData env request = Inr data" for data
      using that wait_failed(5,8,9) by (auto simp: startLog_def)
    moreover have "Call (CreateServiceEntryForVM_call n ip s ns) r \<notin> set (history d)" for n ip s ns r
      using wait_failed(5) wait_segment_no_call [OF wait_failed(6)]
        exit_segment_no_call [OF wait_failed(7)]
      by (simp add: startLog_def)
    moreover have "completed (history d) = [''cloud_init_generated'', ''vm_created'']"
      "recorded (history d) = [''vm:'' @ VMInfo.Name vm]"
      using wait_failed(5) waitEffect_lists [OF wait_failed(6)] exit_events_lists [OF wait_failed(7)]
      by (simp_all add: startLog_def)
    ultimately show ?thesis by simp
  next
    case (mesh_failed mi' e rq vm W X)
    have "\<exists>r. Call (CreateVM_call ((Base request)\<lparr>CloudInitData := data\<rparr>)) r \<in> set (history d)"
      if "generateCloudInitData env request = Inr data" for data
      using that mesh_failed(7,10,11) by (auto simp: startLog_def)
    moreover have "Call (CreateServiceEntryForVM_call n ip s ns) r \<notin> set (history d)" for n ip s ns r
      using mesh_failed(7) wait_segment_no_call [OF mesh_failed(8)]
        exit_segment_no_call [OF mesh_failed(9)]
      by (simp add: startLog_def)
    moreover have "completed (history d) = [''cloud_init_generated'', ''vm_created'', ''vm_ready'']"
      "recorded (history d) = [''vm:'' @ VMInfo.Name vm]"
      using mesh_failed(7) waitEffect_lists [OF mesh_failed(8)] exit_events_lists [OF mesh_failed(9)]
      by (simp_all add: startLog_def)
    ultimately show ?thesis by simp
  next
    case (completed rq vm W M V)
    let ?T = "tasksEvents env vm (PostBootTasks request)"
    note M = service_segment_skipped [OF completed(7) [unfolded empty]]
    have "\<exists>r. Call (CreateVM_call ((Base request)\<lparr>CloudInitData := data\<rparr>)) r \<in> set (history d)"
      if "generateCloudInitData env request = Inr data" for data
      using that completed(5,9,10) by (auto simp: startLog_def)
    moreover have "Call (CreateServiceEntryForVM_call n ip s ns) r \<notin> set (history d)" for n ip s ns r
      using completed(5) wait_segment_no_call [OF completed(6)] M(1)
        final_segment_no_call [OF completed(8)]
        task_segment_no_call [where env = env and vm = vm and tasks = "PostBootTasks request"]
      by (simp add: startLog_def doneLog_def)
    moreover have "completed (history d) = ''cloud_init_generated'' # ''vm_created'' # ''vm_ready'' #
        completed M @ completed ?T @ completed V"
      "recorded (history d) = (''vm:'' @ VMInfo.Name vm) # recorded M"
      using completed(5) waitEffect_lists [OF completed(6)] final_segment(5) [OF completed(8)]
      by (simp_all add: startLog_def doneLog_def task_segment)
    moreover have "''service_entry_created'' \<notin> set (completed V)"
      using final_segment(6) [OF completed(8)] by auto
    ultimately show ?thesis
      using M(2,3) by (auto simp: task_segment taskEntry_not_stage [THEN not_sym])
  qed
  with run c unrequested_service_run [OF mi empty, of env c0 w] show ?thesis by simp
qed

text \<open>The theorem on the simulated request, whose service name is empty.\<close>

theorem empty_service_name_is_not_rejected_witness:
  "\<exists>d err mi data.
     MeshIntegration (simRequest [] []) = Some mi \<and> Enabled mi \<and> CreateServiceEntry mi \<and>
     ServiceName (simRequest [] []) = [] \<and>
     DeployVM (simEnv []) None (simRequest [] []) simStart = (d, err) \<and>
     DeployVM (simEnv []) None
       ((simRequest [] [])\<lparr>MeshIntegration := Some (mi\<lparr>CreateServiceEntry := False\<rparr>)\<rparr>) simStart =
       (d, err) \<and>
     generateCloudInitData (simEnv []) (simRequest [] []) = Inr data \<and>
     (\<exists>r. Call (CreateVM_call ((Base (simRequest [] []))\<lparr>CloudInitData := data\<rparr>)) r
            \<in> set (history d)) \<and>
     ''service_entry_created'' \<notin> set (CompletedTasks (status d)) \<and>
     ''workloadentry:vm-vm1'' \<in> set (CreatedResources (status d)) \<and>
     \<not> prefix ''serviceentry:'' ''workloadentry:vm-vm1''"
proof -
  let ?run = "DeployVM (simEnv []) None (simRequest [] []) simStart"
  let ?mi = "\<lparr>Enabled = True, Namespace = [], Labels = [], ServicePorts = [],
              CreateWorkloadEntry = True, CreateServiceEntry = True\<rparr>"
  have run: "?run = (fst ?run, snd ?run)" by simp
  have mi: "MeshIntegration (simRequest [] []) = Some ?mi" and "Enabled ?mi" "CreateServiceEntry ?mi"
    and empty: "ServiceName (simRequest [] []) = []"
    by (simp_all add: simRequest_def)
  moreover have g: "generateCloudInitData (simEnv []) (simRequest [] []) =
      Inr (''#cloud-config'' @ NL @ ''runcmd: []'')"
    by (simp add: generateCloudInitData_def sim_defs)
  moreover have "''workloadentry:vm-vm1'' \<in> set (CreatedResources (status (fst ?run)))"
    by (simp add: run_defs)
  moreover note empty_service_name_is_not_rejected [OF mi \<open>Enabled ?mi\<close> \<open>CreateServiceEntry ?mi\<close> empty run]
  ultimately show ?thesis using run by blast
qed

text \<open>
  C2, as the specification words it, has such a request rejected before any provisioning.
  On the simulated environment the run of such a request returns no error and ends
  completed, after calling \<^verbatim>\<open>CreateVM\<close> and recording the machine and its workload
  entry.
\<close>

theorem empty_service_name_counterexample:
  "MeshIntegration (simRequest [] []) =
     Some \<lparr>Enabled = True, Namespace = [], Labels = [], ServicePorts = [],
           CreateWorkloadEntry = True, CreateServiceEntry = True\<rparr> \<and>
   ServiceName (simRequest [] []) = [] \<and>
   snd (DeployVM (simEnv []) None (simRequest [] []) simStart) = None \<and>
   Status (status (fst (DeployVM (simEnv []) None (simRequest [] []) simStart))) = ''completed'' \<and>
   calls (history (fst (DeployVM (simEnv []) None (simRequest [] []) simStart))) =
     [CreateVM_call ((Base (simRequest [] []))\<lparr>CloudInitData := ''#cloud-config'' @ NL @ ''runcmd: []''\<rparr>),
      GetVM_call ''vm1'',
      GenerateVMFiles_call ''vm1'' ''10.0.0.4'' [],
      CreateWorkloadEntryForVM_call ''vm1'' ''10.0.0.4'' [] [],
      ValidateVMConnection_call ''10.0.0.4''] \<and>
   CreatedResources (status (fst (DeployVM (simEnv []) None (simRequest [] []) simStart))) =
     [''vm:vm1'', ''workloadentry:vm-vm1'']"
  by (simp add: run_defs)

section \<open>The mesh stage\<close>

text \<open>
  How a run ends after a failure in the mesh stage: with the error of \<^verbatim>\<open>GenerateVMFiles\<close>,
  or completed when a registration failed.
\<close>

lemma mesh_failures_outcome:
  assumes run: "DeployVM env c0 request w = (d, err)"
  shows "(\<forall>n ip ns e. Call (GenerateVMFiles_call n ip ns) (Some e) \<in> set (history d) \<longrightarrow>
            err = Some e \<and> Status (status d) = ''failed'' \<and>
            Error (status d) = ''failed to generate mesh files: '' @ errmsg e \<and>
            cleanupCalls (calls (history d)) =
              (if AutoCleanup request then [DeleteVM_call (VMRequest.Name (Base request))] else [])) \<and>
         (\<forall>n ip ns ls e.
            Call (CreateWorkloadEntryForVM_call n ip ns ls) (Some e) \<in> set (history d) \<longrightarrow>
            err = None \<and> Status (status d) = ''completed'' \<and>
            Log WarnLevel ''Failed to create WorkloadEntry: %v'' [ErrArg (Some e)] \<in> set (history d) \<and>
            ''workload_entry_created'' \<notin> set (CompletedTasks (status d)) \<and>
            (\<forall>r\<in>set (CreatedResources (status d)). \<not> prefix ''workloadentry:'' r) \<and>
            executed (history d) = map PostBootTask.Name (PostBootTasks request)) \<and>
         (\<forall>n ip s ns e.
            Call (CreateServiceEntryForVM_call n ip s ns) (Some e) \<in> set (history d) \<longrightarrow>
            err = None \<and> Status (status d) = ''completed'' \<and>
            Log WarnLevel ''Failed to create ServiceEntry: %v'' [ErrArg (Some e)] \<in> set (history d) \<and>
            ''service_entry_created'' \<notin> set (CompletedTasks (status d)) \<and>
            (\<forall>r\<in>set (CreatedResources (status d)). \<not> prefix ''serviceentry:'' r) \<and>
            executed (history d) = map PostBootTask.Name (PostBootTasks request))"
proof -
  have c: "CreatedResources (status d) = recorded (history d)"
    "CompletedTasks (status d) = completed (history d)"
    using DeployVM_consistent [OF run] by (simp_all add: consistent_def)
  from run show ?thesis
  proof (cases rule: DeployVM_cases)
    case (cloud_init_failed e)
    then show ?thesis by (simp add: startLog_def)
  next
    case (create_failed e rq)
    then show ?thesis by (simp add: startLog_def)
  next
    case (wait_failed e rq vm W X)
    have "Call (GenerateVMFiles_call n ip ns) r \<notin> set (history d)"
      and "Call (CreateWorkloadEntryForVM_call n ip ns ls) r \<notin> set (history d)"
      and "Call (CreateServiceEntryForVM_call n ip s ns) r \<notin> set (history d)" for n ip ns ls s r
      using wait_failed(5) wait_segment_no_call [OF wait_failed(6)]
        exit_segment_no_call [OF wait_failed(7)]
      by (simp_all add: startLog_def)
    then show ?thesis by blast
  next
    case (mesh_failed mi e rq vm W X)
    have cl: "cleanupCalls (calls (history d)) =
        (if AutoCleanup request then [DeleteVM_call (VMRequest.Name (Base request))] else [])"
      using mesh_failed(7) wait_segment(4) [OF mesh_failed(8)] exit_segment(3) [OF mesh_failed(9)]
      by (simp add: startLog_def)
    have g: "e' = e" if "Call (GenerateVMFiles_call n ip ns) (Some e') \<in> set (history d)" for n ip ns e'
      using that mesh_failed(7) wait_segment_no_call [OF mesh_failed(8)]
        exit_segment_no_call [OF mesh_failed(9)]
      by (simp add: startLog_def)
    have nw: "Call (CreateWorkloadEntryForVM_call n ip ns ls) r \<notin> set (history d)"
      and ns: "Call (CreateServiceEntryForVM_call n ip s ns) r \<notin> set (history d)" for n ip ns ls s r
      using mesh_failed(7) wait_segment_no_call [OF mesh_failed(8)]
        exit_segment_no_call [OF mesh_failed(9)]
      by (simp_all add: startLog_def)
    from mesh_failed(3,4,5) cl g nw ns show ?thesis by blast
  next
    case (completed rq vm W M V)
    let ?T = "tasksEvents env vm (PostBootTasks request)"
    have inM: "Call (CreateWorkloadEntryForVM_call n ip ns ls) r \<in> set (history d) \<Longrightarrow>
          Call (CreateWorkloadEntryForVM_call n ip ns ls) r \<in> set M"
        "Call (CreateServiceEntryForVM_call n ip s ns) r \<in> set (history d) \<Longrightarrow>
          Call (CreateServiceEntryForVM_call n ip s ns) r \<in> set M" for n ip ns ls s r
      using completed(5) wait_segment_no_call [OF completed(6)]
        final_segment_no_call [OF completed(8)] task_segment_no_call [where env = env and vm = vm and tasks = "PostBootTasks request"]
      by (simp_all add: startLog_def doneLog_def)
    have nog: "Call (GenerateVMFiles_call n ip ns) (Some e) \<notin> set (history d)" for n ip ns e
      using completed(5) wait_segment_no_call [OF completed(6)] mesh_segment_no_call [OF completed(7)]
        final_segment_no_call [OF completed(8)] task_segment_no_call [where env = env and vm = vm and tasks = "PostBootTasks request"]
      by (simp add: startLog_def doneLog_def)
    have ex: "executed (history d) = map PostBootTask.Name (PostBootTasks request)"
      using completed(5) wait_segment(1) [OF completed(6)] mesh_segment(1) [OF completed(7)]
        final_segment(1) [OF completed(8)]
      by (simp add: startLog_def doneLog_def task_segment)
    have tasks: "completed (history d) = ''cloud_init_generated'' # ''vm_created'' # ''vm_ready'' #
        completed M @ completed ?T @ completed V"
      using completed(5) waitEffect_lists(2) [OF completed(6)]
      by (simp add: startLog_def doneLog_def)
    have res: "recorded (history d) = (''vm:'' @ VMInfo.Name vm) # recorded M"
      using completed(5) waitEffect_lists(1) [OF completed(6)] final_segment(5) [OF completed(8)]
      by (simp add: startLog_def doneLog_def task_segment)
    have Vc: "set (completed V) \<subseteq> {''mesh_validation_passed''}"
      using final_segment(6) [OF completed(8)] by auto
    have wl: "Log WarnLevel ''Failed to create WorkloadEntry: %v'' [ErrArg (Some e)] \<in> set (history d) \<and>
        ''workload_entry_created'' \<notin> set (CompletedTasks (status d)) \<and>
        (\<forall>r\<in>set (CreatedResources (status d)). \<not> prefix ''workloadentry:'' r)"
      if "Call (CreateWorkloadEntryForVM_call n ip ns ls) (Some e) \<in> set (history d)" for n ip ns ls e
    proof -
      from that have m: "Call (CreateWorkloadEntryForVM_call n ip ns ls) (Some e) \<in> set M"
        by (rule inM)
      note f = mesh_workload_failed [OF completed(7) m]
      from f(1) have "Log WarnLevel ''Failed to create WorkloadEntry: %v'' [ErrArg (Some e)]
          \<in> set (history d)"
        by (simp add: completed(5))
      moreover from f(2) Vc have "''workload_entry_created'' \<notin> set (CompletedTasks (status d))"
        by (auto simp: c tasks task_segment taskEntry_not_stage [THEN not_sym])
      moreover from f(3) have "\<forall>r\<in>set (CreatedResources (status d)). \<not> prefix ''workloadentry:'' r"
        by (simp add: c res)
      ultimately show ?thesis by blast
    qed
    have sv: "Log WarnLevel ''Failed to create ServiceEntry: %v'' [ErrArg (Some e)] \<in> set (history d) \<and>
        ''service_entry_created'' \<notin> set (CompletedTasks (status d)) \<and>
        (\<forall>r\<in>set (CreatedResources (status d)). \<not> prefix ''serviceentry:'' r)"
      if "Call (CreateServiceEntryForVM_call n ip s ns) (Some e) \<in> set (history d)" for n ip s ns e
    proof -
      from that have m: "Call (CreateServiceEntryForVM_call n ip s ns) (Some e) \<in> set M"
        by (rule inM)
      note f = mesh_service_failed [OF completed(7) m]
      from f(1) have "Log WarnLevel ''Failed to create ServiceEntry: %v'' [ErrArg (Some e)]
          \<in> set (history d)"
        by (simp add: completed(5))
      moreover from f(2) Vc have "''service_entry_created'' \<notin> set (CompletedTasks (status d))"
        by (auto simp: c tasks task_segment taskEntry_not_stage [THEN not_sym])
      moreover from f(3) have "\<forall>r\<in>set (CreatedResources (status d)). \<not> prefix ''serviceentry:'' r"
        by (simp add: c res)
      ultimately show ?thesis by blast
    qed
    from completed(1,2) nog ex wl sv show ?thesis by blast
  qed
qed

text \<open>
  What follows a failed registration in the history: the warning, then the next step.
\<close>

lemma mesh_failures_continue:
  assumes run: "DeployVM env c0 request w = (d, err)"
  shows "(\<forall>pre n ip ns ls e post.
            history d = pre @ Call (CreateWorkloadEntryForVM_call n ip ns ls) (Some e) # post \<longrightarrow>
            (\<exists>mi post'. MeshIntegration request = Some mi \<and>
               post = Log WarnLevel ''Failed to create WorkloadEntry: %v'' [ErrArg (Some e)] # post' \<and>
               (CreateServiceEntry mi \<and> ServiceName request \<noteq> [] \<longrightarrow>
                  (\<exists>r post''. post' =
                     Call (CreateServiceEntryForVM_call n ip (ServiceName request) ns) r # post'')) \<and>
               executed post = map PostBootTask.Name (PostBootTasks request))) \<and>
         (\<forall>pre n ip s ns e post.
            history d = pre @ Call (CreateServiceEntryForVM_call n ip s ns) (Some e) # post \<longrightarrow>
            (\<exists>post'. post = Log WarnLevel ''Failed to create ServiceEntry: %v'' [ErrArg (Some e)] # post' \<and>
               executed post = map PostBootTask.Name (PostBootTasks request)))"
proof -
  note outcome = mesh_failures_outcome [OF run]
  have wl: "\<exists>mi post'. MeshIntegration request = Some mi \<and>
        post = Log WarnLevel ''Failed to create WorkloadEntry: %v'' [ErrArg (Some e)] # post' \<and>
        (CreateServiceEntry mi \<and> ServiceName request \<noteq> [] \<longrightarrow>
           (\<exists>r post''. post' =
              Call (CreateServiceEntryForVM_call n ip (ServiceName request) ns) r # post'')) \<and>
        executed post = map PostBootTask.Name (PostBootTasks request)"
    if split: "history d = pre @ Call (CreateWorkloadEntryForVM_call n ip ns ls) (Some e) # post"
    for pre n ip ns ls e post
  proof -
    from split have "Call (CreateWorkloadEntryForVM_call n ip ns ls) (Some e) \<in> set (history d)"
      by simp
    with outcome have ok: "err = None" by blast
    from run show ?thesis
    proof (cases rule: DeployVM_cases)
      case (completed rq vm W M V)
      let ?L = "[startLog (VMRequest.Name (Base request)), Completed ''cloud_init_generated'',
             Call (CreateVM_call rq) None, Recorded (''vm:'' @ VMInfo.Name vm),
             Completed ''vm_created''] @ W @ [Completed ''vm_ready'']"
      let ?T = "tasksEvents env vm (PostBootTasks request)"
      let ?R = "?T @ V @ [doneLog (VMRequest.Name (Base request))]"
      let ?P = "\<lambda>z. \<exists>n ip ns ls r. z = Call (CreateWorkloadEntryForVM_call n ip ns ls) r"
      have h: "?L @ M @ ?R = pre @ Call (CreateWorkloadEntryForVM_call n ip ns ls) (Some e) # post"
        using completed(5) split by simp
      have L: "\<forall>z\<in>set ?L. \<not> ?P z"
        using wait_segment_no_call(2) [OF completed(6)] by (auto simp: startLog_def)
      have R: "\<forall>z\<in>set ?R. \<not> ?P z"
        using final_segment_no_call(2) [OF completed(8)]
          task_segment_no_call(2) [where env = env and vm = vm and tasks = "PostBootTasks request"]
        by (auto simp: doneLog_def)
      have "?P (Call (CreateWorkloadEntryForVM_call n ip ns ls) (Some e))" by blast
      from split_middle [where P = ?P, OF h this L R] obtain pre' post'
        where M: "M = pre' @ Call (CreateWorkloadEntryForVM_call n ip ns ls) (Some e) # post'"
          and post: "post = post' @ ?R"
        by blast
      from mesh_segment_workload_split [OF completed(7) M] obtain mi B
        where mi: "MeshIntegration request = Some mi"
          and B: "post' = Log WarnLevel ''Failed to create WorkloadEntry: %v'' [ErrArg (Some e)] # B"
          and ex: "executed B = []"
          and sv: "CreateServiceEntry mi \<and> ServiceName request \<noteq> [] \<longrightarrow>
              (\<exists>r post''. B = Call (CreateServiceEntryForVM_call n ip (ServiceName request) ns) r # post'')"
        by blast
      have 1: "post = Log WarnLevel ''Failed to create WorkloadEntry: %v'' [ErrArg (Some e)] # (B @ ?R)"
        using post B by simp
      have 2: "executed post = map PostBootTask.Name (PostBootTasks request)"
        unfolding 1 using ex final_segment(1) [OF completed(8)]
        by (simp add: task_segment doneLog_def)
      have 3: "CreateServiceEntry mi \<and> ServiceName request \<noteq> [] \<longrightarrow>
          (\<exists>r post''. B @ ?R =
              Call (CreateServiceEntryForVM_call n ip (ServiceName request) ns) r # post'')"
        using sv by auto
      from mi 1 2 3 show ?thesis by blast
    qed (use ok in simp_all)
  qed
  have sv: "\<exists>post'. post = Log WarnLevel ''Failed to create ServiceEntry: %v'' [ErrArg (Some e)] # post' \<and>
        executed post = map PostBootTask.Name (PostBootTasks request)"
    if split: "history d = pre @ Call (CreateServiceEntryForVM_call n ip s ns) (Some e) # post"
    for pre n ip s ns e post
  proof -
    from split have "Call (CreateServiceEntryForVM_call n ip s ns) (Some e) \<in> set (history d)"
      by simp
    with outcome have ok: "err = None" by blast
    from run show ?thesis
    proof (cases rule: DeployVM_cases)
      case (completed rq vm W M V)
      let ?L = "[startLog (VMRequest.Name (Base request)), Completed ''cloud_init_generated'',
             Call (CreateVM_call rq) None, Recorded (''vm:'' @ VMInfo.Name vm),
             Completed ''vm_created''] @ W @ [Completed ''vm_ready'']"
      let ?T = "tasksEvents env vm (PostBootTasks request)"
      let ?R = "?T @ V @ [doneLog (VMRequest.Name (Base request))]"
      let ?P = "\<lambda>z. \<exists>n ip s ns r. z = Call (CreateServiceEntryForVM_call n ip s ns) r"
      have h: "?L @ M @ ?R = pre @ Call (CreateServiceEntryForVM_call n ip s ns) (Some e) # post"
        using completed(5) split by simp
      have L: "\<forall>z\<in>set ?L. \<not> ?P z"
        using wait_segment_no_call(3) [OF completed(6)] by (auto simp: startLog_def)
      have R: "\<forall>z\<in>set ?R. \<not> ?P z"
        using final_segment_no_call(3) [OF completed(8)]
          task_segment_no_call(3) [where env = env and vm = vm and tasks = "PostBootTasks request"]
        by (auto simp: doneLog_def)
      have "?P (Call (CreateServiceEntryForVM_call n ip s ns) (Some e))" by blast
      from split_middle [where P = ?P, OF h this L R] obtain pre' post'
        where M: "M = pre' @ Call (CreateServiceEntryForVM_call n ip s ns) (Some e) # post'"
          and post: "post = post' @ ?R"
        by blast
      from mesh_segment_service_split [OF completed(7) M]
      have 1: "post = Log WarnLevel ''Failed to create ServiceEntry: %v'' [ErrArg (Some e)] # ?R"
        using post by simp
      have 2: "executed post = map PostBootTask.Name (PostBootTasks request)"
        unfolding 1 using final_segment(1) [OF completed(8)]
        by (simp add: task_segment doneLog_def)
      from 1 2 show ?thesis by blast
    qed (use ok in simp_all)
  qed
  from wl sv show ?thesis by blast
qed

text \<open>
  C3. In every run: if \<^verbatim>\<open>GenerateVMFiles\<close> returned an error, the run returns that
  error with the status failed, and the machine is deleted exactly when the request asks
  for the auto-cleanup. If the creation of the workload entry (or of the service entry)
  returned an error, the run returns no error and ends completed: the failure is logged
  as a warning, neither the task entry nor a resource of that kind is recorded, and every
  post-boot task is still executed. The run goes on with the next step: right after the
  failed creation of the workload entry comes its warning and then, when the request asks
  for a service entry and names a service, the call of \<^verbatim>\<open>CreateServiceEntryForVM\<close> of
  step 6; right after the failed creation of the service entry comes its warning, and the
  post-boot tasks are executed after it.
\<close>

theorem mesh_stage_failures:
  assumes run: "DeployVM env c0 request w = (d, err)"
  shows "(\<forall>n ip ns e. Call (GenerateVMFiles_call n ip ns) (Some e) \<in> set (history d) \<longrightarrow>
            err = Some e \<and> Status (status d) = ''failed'' \<and>
            Error (status d) = ''failed to generate mesh files: '' @ errmsg e \<and>
            cleanupCalls (calls (history d)) =
              (if AutoCleanup request then [DeleteVM_call (VMRequest.Name (Base request))] else [])) \<and>
         (\<forall>n ip ns ls e.
            Call (CreateWorkloadEntryForVM_call n ip ns ls) (Some e) \<in> set (history d) \<longrightarrow>
            err = None \<and> Status (status d) = ''completed'' \<and>
            Log WarnLevel ''Failed to create WorkloadEntry: %v'' [ErrArg (Some e)] \<in> set (history d) \<and>
            ''workload_entry_created'' \<notin> set (CompletedTasks (status d)) \<and>
            (\<forall>r\<in>set (CreatedResources (status d)). \<not> prefix ''workloadentry:'' r) \<and>
            executed (history d) = map PostBootTask.Name (PostBootTasks request)) \<and>
         (\<forall>n ip s ns e.
            Call (CreateServiceEntryForVM_call n ip s ns) (Some e) \<in> set (history d) \<longrightarrow>
            err = None \<and> Status (status d) = ''completed'' \<and>
            Log WarnLevel ''Failed to create ServiceEntry: %v'' [ErrArg (Some e)] \<in> set (history d) \<and>
            ''service_entry_created'' \<notin> set (CompletedTasks (status d)) \<and>
            (\<forall>r\<in>set (CreatedResources (status d)). \<not> prefix ''serviceentry:'' r) \<and>
            executed (history d) = map PostBootTask.Name (PostBootTasks request)) \<and>
         (\<forall>pre n ip ns ls e post.
            history d = pre @ Call (CreateWorkloadEntryForVM_call n ip ns ls) (Some e) # post \<longrightarrow>
            (\<exists>mi post'. MeshIntegration request = Some mi \<and>
               post = Log WarnLevel ''Failed to create WorkloadEntry: %v'' [ErrArg (Some e)] # post' \<and>
               (CreateServiceEntry mi \<and> ServiceName request \<noteq> [] \<longrightarrow>
                  (\<exists>r post''. post' =
                     Call (CreateServiceEntryForVM_call n ip (ServiceName request) ns) r # post'')) \<and>
               executed post = map PostBootTask.Name (PostBootTasks request))) \<and>
         (\<forall>pre n ip s ns e post.
            history d = pre @ Call (CreateServiceEntryForVM_call n ip s ns) (Some e) # post \<longrightarrow>
            (\<exists>post'. post = Log WarnLevel ''Failed to create ServiceEntry: %v'' [ErrArg (Some e)] # post' \<and>
               executed post = map PostBootTask.Name (PostBootTasks request)))"
  using mesh_failures_outcome [OF run] mesh_failures_continue [OF run]
  apply (elim conjE)
  apply (intro conjI)
      apply assumption+
  done

text \<open>
  The theorem on two runs: one in which the mesh files cannot be generated, one in which
  both registrations are rejected, the second attempted after the first has failed.
\<close>

theorem mesh_stage_failures_witness:
  "\<exists>d err d' err' pre r post.
     DeployVM (simEnv [''generate'']) None (simRequest ''web'' []) simStart = (d, err) \<and>
     Call (GenerateVMFiles_call ''vm1'' ''10.0.0.4'' [])
       (Some (Err ''failed to generate Istio token: failed to create token'')) \<in> set (history d) \<and>
     err = Some (Err ''failed to generate Istio token: failed to create token'') \<and>
     Status (status d) = ''failed'' \<and>
     cleanupCalls (calls (history d)) = [DeleteVM_call ''vm1''] \<and>
     DeployVM (simEnv [''workload'', ''service'']) None (simRequest ''web'' []) simStart = (d', err') \<and>
     Call (CreateWorkloadEntryForVM_call ''vm1'' ''10.0.0.4'' [] [])
       (Some (Err ''workload entry rejected'')) \<in> set (history d') \<and>
     Call (CreateServiceEntryForVM_call ''vm1'' ''10.0.0.4'' ''web'' [])
       (Some (Err ''service entry rejected'')) \<in> set (history d') \<and>
     err' = None \<and> Status (status d') = ''completed'' \<and>
     ''workload_entry_created'' \<notin> set (CompletedTasks (status d')) \<and>
     ''service_entry_created'' \<notin> set (CompletedTasks (status d')) \<and>
     ''vm:vm1'' \<in> set (CreatedResources (status d')) \<and>
     \<not> prefix ''workloadentry:'' ''vm:vm1'' \<and> \<not> prefix ''serviceentry:'' ''vm:vm1'' \<and>
     history d' = pre @
       Call (CreateWorkloadEntryForVM_call ''vm1'' ''10.0.0.4'' [] []) (Some (Err ''workload entry rejected'')) #
       Log WarnLevel ''Failed to create WorkloadEntry: %v'' [ErrArg (Some (Err ''workload entry rejected''))] #
       Call (CreateServiceEntryForVM_call ''vm1'' ''10.0.0.4'' ''web'' []) r # post"
proof -
  let ?run = "DeployVM (simEnv [''generate'']) None (simRequest ''web'' []) simStart"
  let ?run' = "DeployVM (simEnv [''workload'', ''service'']) None (simRequest ''web'' []) simStart"
  let ?d = "fst ?run" and ?d' = "fst ?run'"
  have run: "?run = (?d, snd ?run)" and run': "?run' = (?d', snd ?run')"
    by simp_all
  have g: "Call (GenerateVMFiles_call ''vm1'' ''10.0.0.4'' [])
       (Some (Err ''failed to generate Istio token: failed to create token'')) \<in> set (history ?d)"
    by (simp add: run_defs)
  have w: "Call (CreateWorkloadEntryForVM_call ''vm1'' ''10.0.0.4'' [] [])
       (Some (Err ''workload entry rejected'')) \<in> set (history ?d')"
    and s: "Call (CreateServiceEntryForVM_call ''vm1'' ''10.0.0.4'' ''web'' [])
       (Some (Err ''service entry rejected'')) \<in> set (history ?d')"
    and r: "''vm:vm1'' \<in> set (CreatedResources (status ?d'))"
    by (simp_all add: run_defs)
  have h: "history ?d' = take 11 (history ?d') @
       Call (CreateWorkloadEntryForVM_call ''vm1'' ''10.0.0.4'' [] []) (Some (Err ''workload entry rejected'')) #
       drop 12 (history ?d')"
    by (simp add: run_defs)
  have rq: "AutoCleanup (simRequest ''web'' [])" "VMRequest.Name (Base (simRequest ''web'' [])) = ''vm1''"
    "ServiceName (simRequest ''web'' []) = ''web''"
    "MeshIntegration (simRequest ''web'' []) =
       Some \<lparr>Enabled = True, Namespace = [], Labels = [], ServicePorts = [],
             CreateWorkloadEntry = True, CreateServiceEntry = True\<rparr>"
    by (simp_all add: simRequest_def)
  note T = mesh_stage_failures [OF run] and T' = mesh_stage_failures [OF run']
  from T [THEN conjunct1, rule_format, OF g] rq
  have 1: "snd ?run = Some (Err ''failed to generate Istio token: failed to create token'')"
    and 2: "Status (status ?d) = ''failed''"
    and 3: "cleanupCalls (calls (history ?d)) = [DeleteVM_call ''vm1'']"
    by simp_all
  from T' [THEN conjunct2, THEN conjunct1, rule_format, OF w]
  have 4: "snd ?run' = None" and 5: "Status (status ?d') = ''completed''"
    and 6: "''workload_entry_created'' \<notin> set (CompletedTasks (status ?d'))"
    and wr: "\<forall>r\<in>set (CreatedResources (status ?d')). \<not> prefix ''workloadentry:'' r"
    by simp_all
  from T' [THEN conjunct2, THEN conjunct2, THEN conjunct1, rule_format, OF s]
  have 7: "''service_entry_created'' \<notin> set (CompletedTasks (status ?d'))"
    and sr: "\<forall>r\<in>set (CreatedResources (status ?d')). \<not> prefix ''serviceentry:'' r"
    by simp_all
  from wr r have 8: "\<not> prefix ''workloadentry:'' ''vm:vm1''" by (rule bspec)
  from sr r have 9: "\<not> prefix ''serviceentry:'' ''vm:vm1''" by (rule bspec)
  from T' [THEN conjunct2, THEN conjunct2, THEN conjunct2, THEN conjunct1, rule_format, OF h]
  obtain mi post' where mi: "MeshIntegration (simRequest ''web'' []) = Some mi"
    and p: "drop 12 (history ?d') =
        Log WarnLevel ''Failed to create WorkloadEntry: %v'' [ErrArg (Some (Err ''workload entry rejected''))] # post'"
    and sv: "CreateServiceEntry mi \<and> ServiceName (simRequest ''web'' []) \<noteq> [] \<longrightarrow>
       (\<exists>r post''. post' = Call (CreateServiceEntryForVM_call ''vm1'' ''10.0.0.4''
           (ServiceName (simRequest ''web'' [])) []) r # post'')"
    by (elim exE conjE)
  from mi rq have "CreateServiceEntry mi \<and> ServiceName (simRequest ''web'' []) \<noteq> []" by auto
  with sv rq(3) obtain r' post'' where
    "post' = Call (CreateServiceEntryForVM_call ''vm1'' ''10.0.0.4'' ''web'' []) r' # post''"
    by auto
  with h p have 10: "history ?d' = take 11 (history ?d') @
       Call (CreateWorkloadEntryForVM_call ''vm1'' ''10.0.0.4'' [] []) (Some (Err ''workload entry rejected'')) #
       Log WarnLevel ''Failed to create WorkloadEntry: %v'' [ErrArg (Some (Err ''workload entry rejected''))] #
       Call (CreateServiceEntryForVM_call ''vm1'' ''10.0.0.4'' ''web'' []) r' # post''"
    by simp
  show ?thesis
    by (rule exI)+
      (intro conjI, rule run, rule g, rule 1, rule 2, rule 3, rule run', rule w, rule s,
        rule 4, rule 5, rule 6, rule 7, rule r, rule 8, rule 9, rule 10)
qed

section \<open>The rollback manifest\<close>

text \<open>
  C4. In every run the two lists of the status are exactly the appends recorded in the
  history, in order, and the appends of any earlier part of the history are a prefix of
  the final lists: nothing is ever removed or rewritten. And wherever the history has a
  \<^verbatim>\<open>CreateVM\<close> call that returned without error, the very next entry is the append of
  that machine to \<^verbatim>\<open>CreatedResources\<close>: no other call, and no step that can fail, comes
  in between.
\<close>

theorem created_instance_recorded_at_once:
  assumes run: "DeployVM env c0 request w = (d, err)"
  shows "CreatedResources (status d) = recorded (history d) \<and>
         CompletedTasks (status d) = completed (history d) \<and>
         (\<forall>h. prefix h (history d) \<longrightarrow>
            prefix (recorded h) (CreatedResources (status d)) \<and>
            prefix (completed h) (CompletedTasks (status d))) \<and>
         (\<forall>pre rq post. history d = pre @ Call (CreateVM_call rq) None # post \<longrightarrow>
            (\<exists>vm post'. VM (status d) = Some vm \<and>
                         post = Recorded (''vm:'' @ VMInfo.Name vm) # post'))"
proof -
  have "consistent d" using run by (rule DeployVM_consistent)
  moreover have "\<exists>vm post'. VM (status d) = Some vm \<and> post = Recorded (''vm:'' @ VMInfo.Name vm) # post'"
    if split: "history d = pre @ Call (CreateVM_call rq) None # post" for pre rq post
  proof -
    have *: "\<exists>post'. post = Recorded (''vm:'' @ VMInfo.Name vm) # post'"
      if h: "history d = [s, c] @ Call (CreateVM_call rq') None #
                Recorded (''vm:'' @ VMInfo.Name vm) # rest"
        and s: "\<not> isCreate s" "\<not> isCreate c" and rest: "\<forall>z\<in>set rest. \<not> isCreate z"
      for s c rq' vm rest
    proof -
      from h split have "[s, c] @ Call (CreateVM_call rq') None # Recorded (''vm:'' @ VMInfo.Name vm) # rest
          = pre @ Call (CreateVM_call rq) None # post"
        by simp
      from unique_split [OF this, of isCreate] s rest show ?thesis by auto
    qed
    from run show ?thesis
    proof (cases rule: DeployVM_cases)
      case (cloud_init_failed e)
      with split have "Call (CreateVM_call rq) None \<in> set [startLog (VMRequest.Name (Base request))]"
        by (metis in_set_conv_decomp)
      then show ?thesis by (simp add: startLog_def)
    next
      case (create_failed e rq')
      with split have "Call (CreateVM_call rq) None \<in> set [startLog (VMRequest.Name (Base request)),
          Completed ''cloud_init_generated'', Call (CreateVM_call rq') (Some e)]"
        by (metis in_set_conv_decomp)
      then show ?thesis by (simp add: startLog_def)
    next
      case (wait_failed e rq' vm W X)
      let ?rest = "Completed ''vm_created'' # W @ X"
      have r: "\<forall>z\<in>set ?rest. \<not> isCreate z"
        using no_create_wait [OF wait_failed(6)] no_create_exit [OF wait_failed(7)] by auto
      have h: "history d = [startLog (VMRequest.Name (Base request)),
          Completed ''cloud_init_generated''] @ Call (CreateVM_call rq') None #
          Recorded (''vm:'' @ VMInfo.Name vm) # ?rest"
        using wait_failed(5) by simp
      have "\<exists>post'. post = Recorded (''vm:'' @ VMInfo.Name vm) # post'"
        by (rule * [OF h _ _ r]) (simp_all add: startLog_def)
      with wait_failed(4) show ?thesis by blast
    next
      case (mesh_failed mi e rq' vm W X)
      let ?rest = "Completed ''vm_created'' # W @ Completed ''vm_ready'' #
             Call (GenerateVMFiles_call (VMInfo.Name vm) (PrivateIP vm) (Namespace mi)) (Some e) # X"
      have r: "\<forall>z\<in>set ?rest. \<not> isCreate z"
        using no_create_wait [OF mesh_failed(8)] no_create_exit [OF mesh_failed(9)] by auto
      have h: "history d = [startLog (VMRequest.Name (Base request)),
          Completed ''cloud_init_generated''] @ Call (CreateVM_call rq') None #
          Recorded (''vm:'' @ VMInfo.Name vm) # ?rest"
        using mesh_failed(7) by simp
      have "\<exists>post'. post = Recorded (''vm:'' @ VMInfo.Name vm) # post'"
        by (rule * [OF h _ _ r]) (simp_all add: startLog_def)
      with mesh_failed(6) show ?thesis by blast
    next
      case (completed rq' vm W M V)
      let ?rest = "Completed ''vm_created'' # W @ Completed ''vm_ready'' # M @
             tasksEvents env vm (PostBootTasks request) @ V @ [doneLog (VMRequest.Name (Base request))]"
      have r: "\<forall>z\<in>set ?rest. \<not> isCreate z"
        using no_create_wait [OF completed(6)] no_create_mesh [OF completed(7)]
          no_create_final [OF completed(8)] no_create_tasks [of env vm "PostBootTasks request"]
        by (auto simp: doneLog_def)
      have h: "history d = [startLog (VMRequest.Name (Base request)),
          Completed ''cloud_init_generated''] @ Call (CreateVM_call rq') None #
          Recorded (''vm:'' @ VMInfo.Name vm) # ?rest"
        using completed(5) by simp
      have "\<exists>post'. post = Recorded (''vm:'' @ VMInfo.Name vm) # post'"
        by (rule * [OF h _ _ r]) (simp_all add: startLog_def)
      with completed(4) show ?thesis by blast
    qed
  qed
  moreover have "prefix (recorded h) (recorded (history d)) \<and>
      prefix (completed h) (completed (history d))" if "prefix h (history d)" for h
    using that by (auto simp: prefix_def)
  ultimately show ?thesis by (simp add: consistent_def)
qed

text \<open>The theorem on a run in which the machine is created and never reports ready.\<close>

theorem created_instance_recorded_at_once_witness:
  "\<exists>d err pre rq vm post.
     DeployVM (simEnv [''get'']) None (simRequest [] []) simStart = (d, err) \<and>
     history d = pre @ Call (CreateVM_call rq) None # Recorded (''vm:'' @ VMInfo.Name vm) # post \<and>
     VM (status d) = Some vm \<and>
     CreatedResources (status d) = recorded (history d) \<and>
     CompletedTasks (status d) = completed (history d) \<and>
     prefix (pre @ [Call (CreateVM_call rq) None]) (history d) \<and>
     prefix (completed (pre @ [Call (CreateVM_call rq) None])) (CompletedTasks (status d))"
proof -
  let ?run = "DeployVM (simEnv [''get'']) None (simRequest [] []) simStart"
  let ?d = "fst ?run"
  let ?rq = "\<lparr>VMRequest.Name = ''vm1'', Size = [], Image = None, Networking = None,
        CloudInitData = ''#cloud-config'' @ NL @ ''runcmd: []'', Tags = [],
        AdminUsername = [], SSHPublicKey = ''ssh-rsa AAAA''\<rparr>"
  let ?pre = "[Log InfoLevel ''Starting VM deployment: %s'' [Str ''vm1''],
      Completed ''cloud_init_generated'']"
  have run: "?run = (?d, snd ?run)" by simp
  have h: "history ?d = ?pre @ Call (CreateVM_call ?rq) None # drop 3 (history ?d)"
    by (simp add: run_defs)
  have p: "prefix (?pre @ [Call (CreateVM_call ?rq) None]) (history ?d)"
    by (rule prefixI [where zs = "drop 3 (history ?d)"]) (use h in simp)
  note T = created_instance_recorded_at_once [OF run]
  from T have A: "CreatedResources (status ?d) = recorded (history ?d)"
    by (elim conjE)
  from T have B: "CompletedTasks (status ?d) = completed (history ?d)"
    by (elim conjE)
  from T have P: "\<forall>h. prefix h (history ?d) \<longrightarrow>
            prefix (recorded h) (CreatedResources (status ?d)) \<and>
            prefix (completed h) (CompletedTasks (status ?d))"
    by (elim conjE)
  from T have Q: "\<forall>pre rq post. history ?d = pre @ Call (CreateVM_call rq) None # post \<longrightarrow>
            (\<exists>vm post'. VM (status ?d) = Some vm \<and>
                         post = Recorded (''vm:'' @ VMInfo.Name vm) # post')"
    by (elim conjE)
  from P [rule_format, OF p]
  have pc: "prefix (completed (?pre @ [Call (CreateVM_call ?rq) None])) (CompletedTasks (status ?d))"
    by (rule conjunct2)
  from Q [rule_format, OF h] obtain vm post where v: "VM (status ?d) = Some vm"
    and r: "drop 3 (history ?d) = Recorded (''vm:'' @ VMInfo.Name vm) # post"
    by (elim exE conjE)
  have h': "history ?d = ?pre @ Call (CreateVM_call ?rq) None # Recorded (''vm:'' @ VMInfo.Name vm) # post"
    by (rule h [unfolded r])
  show ?thesis
    by (rule exI)+ (intro conjI, rule run, rule h', rule v, rule A, rule B, rule p, rule pc)
qed

section \<open>The final validation\<close>

text \<open>
  C8. In every run, a \<^verbatim>\<open>ValidateVMConnection\<close> call that returned an error leaves the
  run without error and completed; the failure is logged and \<^verbatim>\<open>mesh_validation_passed\<close>
  is not among the completed tasks. When the call succeeded that entry is the last
  completed task. Moreover the outcome of the connection check changes nothing else: the
  same run in an environment that differs in \<^verbatim>\<open>ping\<close> alone returns the same error
  value and a status that agrees up to that entry.
\<close>

theorem mesh_validation_failure_is_not_fatal:
  assumes run: "DeployVM env c0 request w = (d, err)"
    and other: "DeployVM (env\<lparr>ping := p\<rparr>) c0 request w = (d', err')"
  shows "(\<forall>ip e. Call (ValidateVMConnection_call ip) (Some e) \<in> set (history d) \<longrightarrow>
            err = None \<and> Status (status d) = ''completed'' \<and>
            Log WarnLevel ''VM mesh validation failed: %v'' [ErrArg (Some e)] \<in> set (history d) \<and>
            ''mesh_validation_passed'' \<notin> set (CompletedTasks (status d))) \<and>
         (\<forall>ip. Call (ValidateVMConnection_call ip) None \<in> set (history d) \<longrightarrow>
            err = None \<and> Status (status d) = ''completed'' \<and>
            (\<exists>ts. CompletedTasks (status d) = ts @ [''mesh_validation_passed''] \<and>
                  ''mesh_validation_passed'' \<notin> set ts)) \<and>
         err' = err \<and> sameUpToValidation (status d) (status d')"
proof -
  have c: "CompletedTasks (status d) = completed (history d)"
    using DeployVM_consistent [OF run] by (simp add: consistent_def)
  have "(\<forall>ip e. Call (ValidateVMConnection_call ip) (Some e) \<in> set (history d) \<longrightarrow>
            err = None \<and> Status (status d) = ''completed'' \<and>
            Log WarnLevel ''VM mesh validation failed: %v'' [ErrArg (Some e)] \<in> set (history d) \<and>
            ''mesh_validation_passed'' \<notin> set (CompletedTasks (status d))) \<and>
         (\<forall>ip. Call (ValidateVMConnection_call ip) None \<in> set (history d) \<longrightarrow>
            err = None \<and> Status (status d) = ''completed'' \<and>
            (\<exists>ts. CompletedTasks (status d) = ts @ [''mesh_validation_passed''] \<and>
                  ''mesh_validation_passed'' \<notin> set ts))"
    using run
  proof (cases rule: DeployVM_cases)
    case (cloud_init_failed e)
    then show ?thesis by (simp add: startLog_def)
  next
    case (create_failed e rq)
    then show ?thesis by (simp add: startLog_def)
  next
    case (wait_failed e rq vm W X)
    have "Call (ValidateVMConnection_call ip) r \<notin> set (history d)" for ip r
      using wait_failed(5) wait_segment_no_call [OF wait_failed(6)]
        exit_segment_no_call [OF wait_failed(7)]
      by (simp add: startLog_def)
    then show ?thesis by blast
  next
    case (mesh_failed mi e rq vm W X)
    have "Call (ValidateVMConnection_call ip) r \<notin> set (history d)" for ip r
      using mesh_failed(7) wait_segment_no_call [OF mesh_failed(8)]
        exit_segment_no_call [OF mesh_failed(9)]
      by (simp add: startLog_def)
    then show ?thesis by blast
  next
    case (completed rq vm W M V)
    let ?T = "tasksEvents env vm (PostBootTasks request)"
    let ?ts = "''cloud_init_generated'' # ''vm_created'' # ''vm_ready'' # completed M @ completed ?T"
    have inV: "Call (ValidateVMConnection_call ip) r \<in> set V"
      if "Call (ValidateVMConnection_call ip) r \<in> set (history d)" for ip r
      using that completed(5) wait_segment_no_call [OF completed(6)]
        mesh_segment_no_call [OF completed(7)]
        task_segment_no_call [where env = env and vm = vm and tasks = "PostBootTasks request"]
      by (simp add: startLog_def doneLog_def)
    have tasks: "CompletedTasks (status d) = ?ts @ completed V"
      using completed(5) waitEffect_lists(2) [OF completed(6)]
      by (simp add: c startLog_def doneLog_def)
    have ts: "''mesh_validation_passed'' \<notin> set ?ts"
      using mesh_segment_lists(1) [OF completed(7)]
      by (auto simp: task_segment taskEntry_not_stage [THEN not_sym])
    have "Log WarnLevel ''VM mesh validation failed: %v'' [ErrArg (Some e)] \<in> set (history d) \<and>
        ''mesh_validation_passed'' \<notin> set (CompletedTasks (status d))"
      if "Call (ValidateVMConnection_call ip) (Some e) \<in> set (history d)" for ip e
    proof -
      note f = final_segment_call(3) [OF completed(8) inV [OF that] refl]
      from f have "Log WarnLevel ''VM mesh validation failed: %v'' [ErrArg (Some e)] \<in> set (history d)"
        by (simp add: completed(5))
      moreover from f ts have "''mesh_validation_passed'' \<notin> set (CompletedTasks (status d))"
        unfolding tasks by simp
      ultimately show ?thesis by blast
    qed
    moreover have "\<exists>ts. CompletedTasks (status d) = ts @ [''mesh_validation_passed''] \<and>
        ''mesh_validation_passed'' \<notin> set ts"
      if "Call (ValidateVMConnection_call ip) None \<in> set (history d)" for ip
    proof -
      from final_segment_call(4) [OF completed(8) inV [OF that] refl]
      have "CompletedTasks (status d) = ?ts @ [''mesh_validation_passed'']"
        unfolding tasks by simp
      with ts show ?thesis by blast
    qed
    ultimately show ?thesis using completed(1,2) by blast
  qed
  with DeployVM_ping [OF run other] show ?thesis by blast
qed

text \<open>
  The theorem on a run whose connection check fails, against the run whose check succeeds.
\<close>

theorem mesh_validation_failure_is_not_fatal_witness:
  "\<exists>d err d' err' ts.
     DeployVM (simEnv [''ping'']) None (simRequest [] []) simStart = (d, err) \<and>
     DeployVM ((simEnv [''ping''])\<lparr>ping := \<lambda>c ip w. (None, w)\<rparr>) None (simRequest [] []) simStart =
       (d', err') \<and>
     Call (ValidateVMConnection_call ''10.0.0.4'') (Some (Err ''VM unreachable: exit status 1''))
       \<in> set (history d) \<and>
     err = None \<and> Status (status d) = ''completed'' \<and>
     ''mesh_validation_passed'' \<notin> set (CompletedTasks (status d)) \<and>
     err' = None \<and> sameUpToValidation (status d) (status d') \<and>
     Call (ValidateVMConnection_call ''10.0.0.4'') None \<in> set (history d') \<and>
     Status (status d') = ''completed'' \<and>
     CompletedTasks (status d') = ts @ [''mesh_validation_passed''] \<and>
     ''mesh_validation_passed'' \<notin> set ts \<and>
     CompletedTasks (status d) = ts"
proof -
  let ?env' = "(simEnv [''ping''])\<lparr>ping := \<lambda>c ip w. (None, w)\<rparr>"
  let ?run = "DeployVM (simEnv [''ping'']) None (simRequest [] []) simStart"
  let ?run' = "DeployVM ?env' None (simRequest [] []) simStart"
  have run: "?run = (fst ?run, snd ?run)" and run': "?run' = (fst ?run', snd ?run')"
    by simp_all
  have again: "DeployVM (?env'\<lparr>ping := \<lambda>c ip w. (None, w)\<rparr>) None (simRequest [] []) simStart =
      (fst ?run', snd ?run')"
    by simp
  have v: "Call (ValidateVMConnection_call ''10.0.0.4'') (Some (Err ''VM unreachable: exit status 1''))
       \<in> set (history (fst ?run))"
    and v': "Call (ValidateVMConnection_call ''10.0.0.4'') None \<in> set (history (fst ?run'))"
    by (simp_all add: run_defs)
  have t: "CompletedTasks (status (fst ?run')) =
      CompletedTasks (status (fst ?run)) @ [''mesh_validation_passed'']"
    by (simp add: run_defs)
  from mesh_validation_failure_is_not_fatal [OF run run'] v
  have "snd ?run = None \<and> Status (status (fst ?run)) = ''completed'' \<and>
      ''mesh_validation_passed'' \<notin> set (CompletedTasks (status (fst ?run))) \<and>
      snd ?run' = None \<and> sameUpToValidation (status (fst ?run)) (status (fst ?run'))"
    by metis
  moreover from mesh_validation_failure_is_not_fatal [OF run' again] v'
  have "Status (status (fst ?run')) = ''completed''"
    by metis
  ultimately show ?thesis using run run' v v' t by metis
qed

section \<open>Task failures\<close>



section \<open>Status lookup\<close>

text \<open>
  C10. \<^verbatim>\<open>GetVMDeploymentStatus\<close> reads no stored state of any run. On every machine
  state \<open>m\<close>, whatever ran before (the state a \<^verbatim>\<open>DeployVM\<close> run left behind is one such
  \<open>m\<close>), its result is decided by the \<^verbatim>\<open>GetVM\<close> lookup alone: an error when the lookup
  fails, and otherwise a fresh status around the returned machine whose \<^verbatim>\<open>Status\<close> is
  \<^verbatim>\<open>running\<close>, with no completed task, no created resource and no error.
\<close>

theorem GetVMDeploymentStatus_fresh:
  "fst (GetVMDeploymentStatus env c vmName m) =
     (case azGetVM env c vmName (world m) of
        (Inl err, w') \<Rightarrow> Inl (wrap ''failed to get VM info: '' err)
      | (Inr vm, w') \<Rightarrow>
          Inr \<lparr>VM = Some vm, Status = ''running'', CurrentTask = [], CompletedTasks = [],
               Error = [], MeshFiles = None, CreatedResources = [], Timestamp = now env w'\<rparr>)"
  by (simp add: GetVMDeploymentStatus_def machine_defs split: prod.splits sum.splits)

section \<open>Post-boot tasks\<close>

text \<open>
  C6, as the code has it. A \<^verbatim>\<open>script\<close> task is a stub: whatever its retry count, timeout
  and command, \<^verbatim>\<open>executePostBootTask\<close> makes no collaborator call and leaves the world
  as it is; it logs the task and a warning that script execution is not implemented, and
  returns \<^verbatim>\<open>nil\<close>.
\<close>

theorem script_task_is_stub:
  "Type task = ''script'' \<Longrightarrow>
   executePostBootTask env c vm task m =
     (None, m\<lparr>history := history m @
        [Log InfoLevel ''Executing post-boot task: %s'' [Str (PostBootTask.Name task)],
         Log WarnLevel ''Script execution not implemented yet: %s'' [Str (Command task)]]\<rparr>)"
  by (simp add: executePostBootTask_def machine_defs Let_def)

theorem script_task_is_stub_witness:
  "Type (simTask ''s'' ''script'') = ''script'' \<and>
   executePostBootTask (simEnv []) None (simInfo ''vm1'') (simTask ''s'' ''script'') simMachine =
     (None, simMachine\<lparr>history :=
        [Log InfoLevel ''Executing post-boot task: %s'' [Str ''s''],
         Log WarnLevel ''Script execution not implemented yet: %s'' [Str ''uptime'']]\<rparr>)"
  using script_task_is_stub [of "simTask ''s'' ''script''" "simEnv []" None "simInfo ''vm1''" simMachine]
  by (simp add: simTask_def simMachine_def)

text \<open>
  C6, as the specification words it, asks for at least one attempt of the remote command.
  A \<^verbatim>\<open>script\<close> task with retry count 2 returns \<^verbatim>\<open>nil\<close> after no collaborator call at all.
\<close>

theorem script_task_attempts_counterexample:
  "\<not> 1 \<le> length (calls (history (snd
       (executePostBootTask (simEnv []) None (simInfo ''vm1'') (simTask ''s'' ''script'') simMachine))))"
  by (simp add: executePostBootTask_def machine_defs Let_def simTask_def simMachine_def)

text \<open>
  The result of a \<^verbatim>\<open>wait\<close> task does not depend on the context it is given: neither the
  deadline of the run nor the task's own timeout enters it.
\<close>

lemma wait_task_ignores_context:
  "Type task = ''wait'' \<Longrightarrow>
   executePostBootTask env c vm task m = executePostBootTask env c' vm task m"
  by (simp add: executePostBootTask_def Let_def)

text \<open>
  C5, at a failing input. The run's context has its deadline one minute after the start;
  a \<^verbatim>\<open>wait\<close> task with \<^verbatim>\<open>duration = "2m"\<close> starts at time 0. The task's own context has the
  same one-minute deadline, but the task sleeps the two minutes in full and returns
  \<^verbatim>\<open>nil\<close> at minute two.
\<close>

theorem wait_task_sleeps_past_deadline:
  "WithTimeout (Some (1 * Minute)) 0 (taskTimeout (simTask ''pause'' ''wait'')) = Some (1 * Minute) \<and>
   fst (executePostBootTask (simEnv []) (Some (1 * Minute)) (simInfo ''vm1'')
          (simTask ''pause'' ''wait'') simMachine) = None \<and>
   clock (world (snd (executePostBootTask (simEnv []) (Some (1 * Minute)) (simInfo ''vm1'')
          (simTask ''pause'' ''wait'') simMachine))) = 2 * Minute"
  by (simp add: executePostBootTask_def machine_defs Let_def sim_defs WithTimeout_def
      taskTimeout_def waitDuration_def Minute_def Second_def)

section \<open>Explicit cleanup\<close>

lemma DeleteVM_error:
  "fst (DeleteVM env c vmName w) = None \<longleftrightarrow>
     fst (computeBeginDelete env c vmName w) = None \<and>
     fst (computePollUntilDone env c vmName (snd (computeBeginDelete env c vmName w))) = None"
  by (auto simp: DeleteVM_def Let_def split: prod.splits option.splits)

lemma DeleteVM_world:
  "fst (DeleteVM env c vmName w) = None \<Longrightarrow>
   snd (DeleteVM env c vmName w) =
     deleteBestEffort (publicIPBeginDelete env c (vmName @ ''-pip''))
       (publicIPPollUntilDone env c (vmName @ ''-pip''))
       (deleteBestEffort (nicBeginDelete env c (vmName @ ''-nic''))
          (nicPollUntilDone env c (vmName @ ''-nic''))
          (snd (computePollUntilDone env c vmName (snd (computeBeginDelete env c vmName w)))))"
  by (auto simp: DeleteVM_def Let_def split: prod.splits option.splits)

lemma deleteBestEffort_keeps:
  assumes "\<And>w. P w \<Longrightarrow> P (snd (begin w))" and "\<And>w. P w \<Longrightarrow> P (snd (poll w))" and "P w"
  shows "P (deleteBestEffort begin poll w)"
proof (cases "begin w")
  case (Pair r w1)
  with assms(1) [OF assms(3)] have w1: "P w1" by simp
  show ?thesis
  proof (cases r)
    case None
    with Pair w1 assms(2) show ?thesis by (simp add: deleteBestEffort_def)
  next
    case (Some e)
    with Pair w1 show ?thesis by (simp add: deleteBestEffort_def)
  qed
qed

lemma CleanupVMResources_world:
  "snd (CleanupVMResources env c vmName [] w) =
     snd (kubeDeleteServiceEntry env c (''vm-'' @ vmName @ ''-service'') (istioNamespace env)
       (snd (kubeDeleteWorkloadEntry env c (''vm-'' @ vmName) (istioNamespace env) w)))"
  by (simp add: CleanupVMResources_def Let_def)

lemma CleanupVMResources_nil: "fst (CleanupVMResources env c vmName ns w) = None"
  by (simp add: CleanupVMResources_def Let_def)

lemma CleanupDeployment_error:
  "fst (CleanupDeployment env c vmName m) = None \<longleftrightarrow>
     fst (DeleteVM env c vmName (snd (CleanupVMResources env c vmName [] (world m)))) = None"
  by (auto simp: CleanupDeployment_def machine_defs Let_def CleanupVMResources_nil
      split: prod.splits option.splits)

lemma CleanupDeployment_world:
  "world (snd (CleanupDeployment env c vmName m)) =
     snd (DeleteVM env c vmName (snd (CleanupVMResources env c vmName [] (world m))))"
  by (auto simp: CleanupDeployment_def machine_defs Let_def CleanupVMResources_nil
      split: prod.splits option.splits)

text \<open>
  C7. Cleanup is idempotent under the collaborators' contract. Let \<open>absent\<close> say of a
  world that the machine \<open>vmName\<close> does not exist in it. Assume that deleting the absent
  machine is tolerated (starting and polling the deletion return no error and leave it
  absent), that a deletion that succeeded leaves the machine absent, and that deleting the
  network interface, the public address, the workload entry and the service entry does not
  bring the machine back. Then, after a first \<^verbatim>\<open>CleanupDeployment\<close> that returned
  \<^verbatim>\<open>nil\<close>, a second one on the state the first left behind returns \<^verbatim>\<open>nil\<close> too. No
  status of a run is consulted: the operation takes the name alone.
\<close>

theorem CleanupDeployment_twice:
  fixes absent :: "'w \<Rightarrow> bool"
  assumes tolerated_begin:
    "\<And>w. absent w \<Longrightarrow> fst (computeBeginDelete env c2 vmName w) = None \<and>
                         absent (snd (computeBeginDelete env c2 vmName w))"
  assumes tolerated_poll:
    "\<And>w. absent w \<Longrightarrow> fst (computePollUntilDone env c2 vmName w) = None"
  assumes deleted:
    "\<And>w. fst (computeBeginDelete env c1 vmName w) = None \<Longrightarrow>
          fst (computePollUntilDone env c1 vmName (snd (computeBeginDelete env c1 vmName w))) = None \<Longrightarrow>
          absent (snd (computePollUntilDone env c1 vmName (snd (computeBeginDelete env c1 vmName w))))"
  assumes nic:
    "\<And>w. absent w \<Longrightarrow> absent (snd (nicBeginDelete env c1 (vmName @ ''-nic'') w)) \<and>
                         absent (snd (nicPollUntilDone env c1 (vmName @ ''-nic'') w))"
  assumes pip:
    "\<And>w. absent w \<Longrightarrow> absent (snd (publicIPBeginDelete env c1 (vmName @ ''-pip'') w)) \<and>
                         absent (snd (publicIPPollUntilDone env c1 (vmName @ ''-pip'') w))"
  assumes kube:
    "\<And>w. absent w \<Longrightarrow>
          absent (snd (kubeDeleteWorkloadEntry env c2 (''vm-'' @ vmName) (istioNamespace env) w)) \<and>
          absent (snd (kubeDeleteServiceEntry env c2 (''vm-'' @ vmName @ ''-service'')
                         (istioNamespace env) w))"
  assumes first: "fst (CleanupDeployment env c1 vmName m) = None"
  shows "fst (CleanupDeployment env c2 vmName (snd (CleanupDeployment env c1 vmName m))) = None"
proof -
  let ?w0 = "snd (CleanupVMResources env c1 vmName [] (world m))"
  let ?w1 = "snd (computePollUntilDone env c1 vmName (snd (computeBeginDelete env c1 vmName ?w0)))"
  let ?w2 = "deleteBestEffort (nicBeginDelete env c1 (vmName @ ''-nic''))
               (nicPollUntilDone env c1 (vmName @ ''-nic'')) ?w1"
  from first have ok: "fst (DeleteVM env c1 vmName ?w0) = None"
    by (simp add: CleanupDeployment_error)
  then have "absent ?w1"
    by (simp add: DeleteVM_error deleted)
  then have "absent ?w2"
    by (rule deleteBestEffort_keeps [rotated 2]) (simp_all add: nic)
  then have "absent (snd (DeleteVM env c1 vmName ?w0))"
    unfolding DeleteVM_world [OF ok]
    by (rule deleteBestEffort_keeps [rotated 2]) (simp_all add: pip)
  then have a1: "absent (world (snd (CleanupDeployment env c1 vmName m)))"
    by (simp add: CleanupDeployment_world)
  have "absent (snd (CleanupVMResources env c2 vmName [] (world (snd (CleanupDeployment env c1 vmName m)))))"
    unfolding CleanupVMResources_world using a1 kube by blast
  then show ?thesis
    by (simp add: CleanupDeployment_error DeleteVM_error tolerated_begin tolerated_poll)
qed

lemma simEnv_fields:
  "computeBeginDelete (simEnv fs) =
     (\<lambda>c n w. if ''delete'' \<in> set fs then (Some (Err ''forbidden''), w)
               else (None, w\<lparr>vms := removeAll n (vms w)\<rparr>))"
  "computePollUntilDone (simEnv fs) = (\<lambda>c n w. (None, w))"
  "nicBeginDelete (simEnv fs) = (\<lambda>c n w. (None, w))"
  "nicPollUntilDone (simEnv fs) = (\<lambda>c n w. (None, w))"
  "publicIPBeginDelete (simEnv fs) = (\<lambda>c n w. (None, w))"
  "publicIPPollUntilDone (simEnv fs) = (\<lambda>c n w. (None, w))"
  "kubeDeleteWorkloadEntry (simEnv fs) = (\<lambda>c n ns w. (None, w))"
  "kubeDeleteServiceEntry (simEnv fs) = (\<lambda>c n ns w. (None, w))"
  by (simp_all add: simEnv_def)

text \<open>
  The theorem on the state that a completed run for \<open>vm1\<close> leaves behind: the machine
  exists, the first cleanup deletes it, and the second one finds it absent.
\<close>

theorem CleanupDeployment_twice_witness:
  "''vm1'' \<in> set (vms (world (fst (DeployVM (simEnv []) None (simRequest [] []) simStart)))) \<and>
   fst (CleanupDeployment (simEnv []) None ''vm1''
          (fst (DeployVM (simEnv []) None (simRequest [] []) simStart))) = None \<and>
   ''vm1'' \<notin> set (vms (world (snd (CleanupDeployment (simEnv []) None ''vm1''
          (fst (DeployVM (simEnv []) None (simRequest [] []) simStart)))))) \<and>
   fst (CleanupDeployment (simEnv []) None ''vm1''
          (snd (CleanupDeployment (simEnv []) None ''vm1''
             (fst (DeployVM (simEnv []) None (simRequest [] []) simStart))))) = None"
proof -
  let ?D = "fst (DeployVM (simEnv []) None (simRequest [] []) simStart)"
  have present: "''vm1'' \<in> set (vms (world ?D))"
    by (simp add: run_defs)
  have first: "fst (CleanupDeployment (simEnv []) None ''vm1'' ?D) = None"
    by (simp add: CleanupDeployment_error DeleteVM_error CleanupVMResources_world simEnv_fields)
  have gone: "''vm1'' \<notin> set (vms (world (snd (CleanupDeployment (simEnv []) None ''vm1'' ?D))))"
    by (simp add: CleanupDeployment_world CleanupVMResources_world DeleteVM_world DeleteVM_error
        deleteBestEffort_def simEnv_fields)
  have second: "fst (CleanupDeployment (simEnv []) None ''vm1''
          (snd (CleanupDeployment (simEnv []) None ''vm1'' ?D))) = None"
    by (rule CleanupDeployment_twice [where absent = "\<lambda>w. ''vm1'' \<notin> set (vms w)", OF _ _ _ _ _ _ first])
       (simp_all add: simEnv_fields)
  from present first gone second show ?thesis by (intro conjI)
qed

end
